(* ===== verification/Prelude.thy ===== *)
theory Prelude
  imports Main
begin

text \<open>
  Shared vocabulary of the development: the type of Python exceptions the code raises or
  lets through, results that carry them, the messages that travel on Redis streams, and
  generic facts about lists, maps and results that the component theories reuse.
\<close>

section \<open>Exceptions and results\<close>

text \<open>
  One constructor per exception class the source raises, catches or lets escape.
  \<open>TransferFailed\<close> carries the message and the last stream id seen, as the class in
  \<open>shared/delegate_protocol/chunked_transfer.py\<close> does.
\<close>

datatype exn =
    KeyError string
  | ValueError string
  | TypeError string
  | AttributeError string
  | ValidationError string
  | DoesNotExist
  | ConnectionError
  | OSError string
  | RuntimeError string
  | TransferFailed string "string option"
  | OtherError string

type_synonym 'a result = "exn + 'a"

text \<open>\<open>str(exc)\<close>, as far as the model keeps the message.\<close>

fun exn_text :: "exn \<Rightarrow> string" where
  "exn_text (KeyError k) = CHR 0x27 # k @ [CHR 0x27]"
| "exn_text (ValueError m) = m"
| "exn_text (TypeError m) = m"
| "exn_text (AttributeError m) = m"
| "exn_text (ValidationError m) = m"
| "exn_text DoesNotExist = ''matching query does not exist.''"
| "exn_text ConnectionError = ''Connection closed by server.''"
| "exn_text (OSError m) = m"
| "exn_text (RuntimeError m) = m"
| "exn_text (TransferFailed m last_id) = m"
| "exn_text (OtherError m) = m"

text \<open>Sequencing: an exception skips the rest of the block.\<close>

definition ebind :: "'a result \<Rightarrow> ('a \<Rightarrow> 'b result) \<Rightarrow> 'b result" where
  "ebind m f = (case m of Inl e \<Rightarrow> Inl e | Inr v \<Rightarrow> f v)"

lemma ebind_Inl [simp]: "ebind (Inl e) f = Inl e"
  by (simp add: ebind_def)

lemma ebind_Inr [simp]: "ebind (Inr v) f = f v"
  by (simp add: ebind_def)

lemma ebind_eq_Inr: "ebind m f = Inr r \<longleftrightarrow> (\<exists>v. m = Inr v \<and> f v = Inr r)"
  by (cases m) auto

lemma ebind_eq_Inl: "ebind m f = Inl e \<longleftrightarrow> m = Inl e \<or> (\<exists>v. m = Inr v \<and> f v = Inl e)"
  by (cases m) auto

lemma ebind_assoc: "ebind (ebind m f) g = ebind m (\<lambda>v. ebind (f v) g)"
  by (cases m) auto

definition is_ok :: "'a result \<Rightarrow> bool" where
  "is_ok r = (case r of Inl _ \<Rightarrow> False | Inr _ \<Rightarrow> True)"

lemma is_ok_simps [simp]: "is_ok (Inr v)" "\<not> is_ok (Inl e)"
  by (simp_all add: is_ok_def)

text \<open>Mapping the value of a result, the exception unchanged.\<close>

definition emap :: "('a \<Rightarrow> 'b) \<Rightarrow> 'a result \<Rightarrow> 'b result" where
  "emap f m = (case m of Inl e \<Rightarrow> Inl e | Inr v \<Rightarrow> Inr (f v))"

lemma emap_simps [simp]: "emap f (Inl e) = Inl e" "emap f (Inr v) = Inr (f v)"
  by (simp_all add: emap_def)

lemma emap_ebind: "emap h (ebind m f) = ebind m (\<lambda>v. emap h (f v))"
  by (cases m) auto

section \<open>Messages\<close>

text \<open>
  A stream entry is a flat dictionary of text fields. \<open>fields.get(k)\<close> is the map
  itself, \<open>fields.get(k, d)\<close> is \<open>field_or\<close>, and \<open>fields[k]\<close> is \<open>field_req\<close>, which
  raises \<open>KeyError\<close>.
\<close>

type_synonym fields = "string \<rightharpoonup> string"

definition field_or :: "fields \<Rightarrow> string \<Rightarrow> string \<Rightarrow> string" where
  "field_or f k d = (case f k of None \<Rightarrow> d | Some v \<Rightarrow> v)"

definition field_req :: "fields \<Rightarrow> string \<Rightarrow> string result" where
  "field_req f k = (case f k of None \<Rightarrow> Inl (KeyError k) | Some v \<Rightarrow> Inr v)"

lemma field_req_Some [simp]: "f k = Some v \<Longrightarrow> field_req f k = Inr v"
  by (simp add: field_req_def)

lemma field_req_None: "f k = None \<Longrightarrow> field_req f k = Inl (KeyError k)"
  by (simp add: field_req_def)

lemma field_req_eq_Inr [simp]: "field_req f k = Inr v \<longleftrightarrow> f k = Some v"
  by (simp add: field_req_def split: option.splits)

lemma field_or_Some [simp]: "f k = Some v \<Longrightarrow> field_or f k d = v"
  by (simp add: field_or_def)

lemma field_or_None [simp]: "f k = None \<Longrightarrow> field_or f k d = d"
  by (simp add: field_or_def)

text \<open>A published entry: the stream it is added to and its fields.\<close>

type_synonym xadd = "string \<times> fields"

section \<open>Folding a fallible step over a list\<close>

fun fold_res :: "('s \<Rightarrow> 'm \<Rightarrow> 's result) \<Rightarrow> 's \<Rightarrow> 'm list \<Rightarrow> 's result" where
  "fold_res step s [] = Inr s"
| "fold_res step s (m # ms) = ebind (step s m) (\<lambda>s'. fold_res step s' ms)"

lemma fold_res_append:
  "fold_res step s (xs @ ys) = ebind (fold_res step s xs) (\<lambda>s'. fold_res step s' ys)"
  by (induction xs arbitrary: s) (auto simp: ebind_assoc)

lemma fold_res_invariant:
  assumes "fold_res step s ms = Inr s'" and "P s"
    and "\<And>s m s'. m \<in> set ms \<Longrightarrow> step s m = Inr s' \<Longrightarrow> P s \<Longrightarrow> P s'"
  shows "P s'"
  using assms
proof (induction ms arbitrary: s)
  case Nil
  then show ?case by simp
next
  case (Cons m ms)
  from Cons.prems(1) obtain s1 where s1: "step s m = Inr s1" and rest: "fold_res step s1 ms = Inr s'"
    by (auto simp: ebind_eq_Inr)
  have "P s1" using Cons.prems(2,3) s1 by (meson list.set_intros(1))
  with rest show ?case by (rule Cons.IH) (meson Cons.prems(3) list.set_intros(2))
qed

section \<open>List facts\<close>

text \<open>The successive blocks of a list, as slicing at the multiples of a block size gives them.\<close>

lemma concat_slices:
  assumes "0 < c"
  shows "concat (map (\<lambda>i. take c (drop (i * c) xs)) [0..<k]) = take (k * c) xs"
proof (induction k)
  case 0
  then show ?case by simp
next
  case (Suc k)
  have "take (k * c + c) xs = take (k * c) xs @ take c (drop (k * c) xs)"
    by (rule take_add)
  with Suc show ?case by (simp add: add.commute)
qed

lemma prefix_append_unique:
  assumes "xs @ c # us = ys @ c # vs" and "c \<notin> set xs" and "c \<notin> set ys"
  shows "xs = ys \<and> us = vs"
  using assms
proof (induction xs arbitrary: ys)
  case Nil
  then show ?case by (cases ys) auto
next
  case (Cons x xs)
  then show ?case by (cases ys) auto
qed

lemma filter_ident: "(\<And>x. x \<in> set xs \<Longrightarrow> P x) \<Longrightarrow> filter P xs = xs"
  by (induction xs) auto

section \<open>Invariants of transition systems\<close>

text \<open>The contract of a step relation and a predicate it keeps; what holds of a step holds of a run.
  The restart gateway and the control plane interpret it, once for each of their invariants.\<close>

locale invariant_of =
  fixes step :: "'s \<Rightarrow> 's \<Rightarrow> bool" and inv :: "'s \<Rightarrow> bool"
  assumes step_keeps: "step s s' \<Longrightarrow> inv s \<Longrightarrow> inv s'"
begin

lemma run_keeps_inv: "rtranclp step s s' \<Longrightarrow> inv s \<Longrightarrow> inv s'"
  by (induction rule: rtranclp_induct) (auto intro: step_keeps)

end

end
