(* ===== verification/PyText.thy ===== *)
theory PyText
  imports Prelude "HOL-Library.Word" "HOL-Library.Sublist"
begin

text \<open>
  The text operations of Python's standard library that the code uses on wire data:
  \<open>str(n)\<close> and \<open>int(s)\<close> on decimal fields, \<open>str.split\<close>, \<open>str.strip\<close> and
  \<open>str.replace\<close> with an empty replacement, and the text form of \<open>uuid.UUID\<close>. Text is a
  list of ASCII characters. The interpreter's configurable limit on the number of digits
  \<open>int()\<close> accepts and its non-ASCII digits and spaces are left out.
\<close>

section \<open>Digits\<close>

definition digit_table :: string where
  "digit_table = ''0123456789abcdef''"

definition digit_char :: "nat \<Rightarrow> char" where
  "digit_char d = digit_table ! d"

text \<open>The value of a digit in bases up to 16; both cases of the letters count.\<close>

definition digit_val :: "char \<Rightarrow> nat option" where
  "digit_val c = map_of (zip (digit_table @ ''ABCDEF'') ([0..<16] @ [10..<16])) c"

lemma digit_char_mem: "d < 16 \<Longrightarrow> digit_char d \<in> set digit_table"
  unfolding digit_char_def by (rule nth_mem) (simp add: digit_table_def)

lemma digit_vals: "\<forall>d \<in> set [0..<16]. digit_val (digit_char d) = Some d"
  by code_simp

lemma digit_val_digit_char [simp]: "d < 16 \<Longrightarrow> digit_val (digit_char d) = Some d"
  using digit_vals by simp

lemma digit_char_inj: "d < 16 \<Longrightarrow> e < 16 \<Longrightarrow> digit_char d = digit_char e \<Longrightarrow> d = e"
  by (metis digit_val_digit_char option.inject)

lemma digit_plainD: "c \<in> set digit_table \<Longrightarrow>
    c \<noteq> CHR ''-'' \<and> c \<noteq> CHR ''+'' \<and> c \<noteq> CHR ''_'' \<and> c \<noteq> CHR ''x'' \<and> c \<noteq> CHR ''X'' \<and> c \<noteq> CHR '':'' \<and>
    c \<noteq> CHR ''/'' \<and> c \<noteq> CHR ''u'' \<and> c \<noteq> CHR ''{'' \<and> c \<noteq> CHR ''}''"
  by (auto simp: digit_table_def)

text \<open>Decimal text of a number, as \<open>str\<close> and f-strings print it.\<close>

fun str_nat :: "nat \<Rightarrow> string" where
  "str_nat n = (if n < 10 then [digit_char n] else str_nat (n div 10) @ [digit_char (n mod 10)])"

declare str_nat.simps [simp del]

definition str_int :: "int \<Rightarrow> string" where
  "str_int i = (if i < 0 then CHR ''-'' # str_nat (nat (- i)) else str_nat (nat i))"

section \<open>int(text, base)\<close>

definition is_space :: "char \<Rightarrow> bool" where
  "is_space c = (c \<in> set [CHR '' '', CHR 0x09, CHR 0x0A, CHR 0x0B, CHR 0x0C, CHR 0x0D])"

definition strip_with :: "(char \<Rightarrow> bool) \<Rightarrow> string \<Rightarrow> string" where
  "strip_with p s = rev (dropWhile p (rev (dropWhile p s)))"

text \<open>
  The digits of the literal. A single underscore may stand between two digits; \<open>us\<close>
  says that an underscore is not allowed here, which is so at the start and right after
  another one, and that the literal may not end here.
\<close>

fun digits_value :: "nat \<Rightarrow> nat \<Rightarrow> bool \<Rightarrow> string \<Rightarrow> nat option" where
  "digits_value b acc us [] = (if us then None else Some acc)"
| "digits_value b acc us (c # cs) =
     (if c = CHR ''_'' then (if us then None else digits_value b acc True cs)
      else case digit_val c of
             None \<Rightarrow> None
           | Some d \<Rightarrow> if d < b then digits_value b (acc * b + d) False cs else None)"

fun split_sign :: "string \<Rightarrow> bool \<times> string" where
  "split_sign (c # cs) =
     (if c = CHR ''-'' then (True, cs) else if c = CHR ''+'' then (False, cs) else (False, c # cs))"
| "split_sign [] = (False, [])"

definition skip_hex_prefix :: "string \<Rightarrow> string" where
  "skip_hex_prefix s =
     (case s of
        z # x # rest \<Rightarrow>
          if z = CHR ''0'' \<and> (x = CHR ''x'' \<or> x = CHR ''X'')
          then (case rest of u # rest' \<Rightarrow> if u = CHR ''_'' then rest' else rest | [] \<Rightarrow> rest)
          else s
      | _ \<Rightarrow> s)"

definition py_int_base :: "nat \<Rightarrow> string \<Rightarrow> int option" where
  "py_int_base b s =
     (case split_sign (strip_with is_space s) of
        (neg, t) \<Rightarrow>
          map_option (\<lambda>n. if neg then - int n else int n)
            (digits_value b 0 True (if b = 16 then skip_hex_prefix t else t)))"

definition py_int :: "string \<Rightarrow> int result" where
  "py_int s = (case py_int_base 10 s of
                 None \<Rightarrow> Inl (ValueError ''invalid literal for int()'')
               | Some i \<Rightarrow> Inr i)"

subsection \<open>Reading back what was printed\<close>

lemma dropWhile_hd: "xs \<noteq> [] \<Longrightarrow> \<not> p (hd xs) \<Longrightarrow> dropWhile p xs = xs"
  by (cases xs) auto

lemma strip_with_ident:
  assumes "xs \<noteq> []" and "\<not> p (hd xs)" and "\<not> p (last xs)"
  shows "strip_with p xs = xs"
  using assms by (simp add: strip_with_def dropWhile_hd hd_rev)

lemma digits_value_append:
  "\<lbrakk>digits_value b acc us xs = Some v\<rbrakk> \<Longrightarrow>
     digits_value b acc us (xs @ ys) = digits_value b v False ys"
  by (induction xs arbitrary: acc us) (auto split: if_splits option.splits)

lemma digits_value_map:
  assumes "\<forall>d \<in> set ds. d < b" and "b \<le> 16" and "ds \<noteq> [] \<or> \<not> us"
  shows "digits_value b acc us (map digit_char ds) = Some (foldl (\<lambda>a d. a * b + d) acc ds)"
  using assms
proof (induction ds arbitrary: acc us)
  case Nil
  then show ?case by simp
next
  case (Cons d ds)
  have d16: "d < 16" using Cons.prems by simp
  have "digit_char d \<noteq> CHR ''_''"
    using digit_char_mem [OF d16] digit_plainD by blast
  with d16 Cons show ?case by simp
qed

lemma str_nat_digits: "\<exists>ds. str_nat n = map digit_char ds \<and> ds \<noteq> [] \<and> (\<forall>d \<in> set ds. d < 10)
    \<and> foldl (\<lambda>a d. a * 10 + d) 0 ds = n"
proof (induction n rule: str_nat.induct)
  case (1 n)
  show ?case
  proof (cases "n < 10")
    case True
    then show ?thesis by (intro exI [of _ "[n]"]) (simp add: str_nat.simps)
  next
    case False
    with 1 obtain ds where ds: "str_nat (n div 10) = map digit_char ds" "ds \<noteq> []"
      "\<forall>d \<in> set ds. d < 10" "foldl (\<lambda>a d. a * 10 + d) 0 ds = n div 10" by blast
    with False show ?thesis
      by (intro exI [of _ "ds @ [n mod 10]"]) (simp add: str_nat.simps [of n])
  qed
qed

lemma str_nat_chars: "set (str_nat n) \<subseteq> set digit_table"
proof -
  obtain ds where "str_nat n = map digit_char ds" "\<forall>d \<in> set ds. d < 10"
    using str_nat_digits by blast
  then show ?thesis by (fastforce intro: digit_char_mem)
qed

lemma str_nat_nonempty [simp]: "str_nat n \<noteq> []"
  using str_nat_digits [of n] by auto

lemma digit_not_space: "c \<in> set digit_table \<Longrightarrow> \<not> is_space c"
  by (auto simp: digit_table_def is_space_def)

lemma split_sign_digit: "c \<in> set digit_table \<Longrightarrow> split_sign (c # cs) = (False, c # cs)"
  by (auto dest: digit_plainD)

lemma digits_strip:
  assumes "s \<noteq> []" and "set s \<subseteq> set digit_table"
  shows "strip_with is_space s = s" and "split_sign s = (False, s)" and "skip_hex_prefix s = s"
proof -
  have hd: "hd s \<in> set digit_table" and last: "last s \<in> set digit_table"
    using assms by auto
  show "strip_with is_space s = s"
    using assms(1) digit_not_space [OF hd] digit_not_space [OF last] by (simp add: strip_with_ident)
  show "split_sign s = (False, s)"
    using assms hd by (cases s) (auto dest: digit_plainD)
  show "skip_hex_prefix s = s"
    using assms(2) by (auto simp: skip_hex_prefix_def dest: digit_plainD split: list.splits)
qed

lemma py_int_base_digits:
  assumes "\<forall>d \<in> set ds. d < b" and "b \<le> 16" and "ds \<noteq> []"
  shows "py_int_base b (map digit_char ds) = Some (int (foldl (\<lambda>a d. a * b + d) 0 ds))"
proof -
  have "set (map digit_char ds) \<subseteq> set digit_table"
    using assms(1,2) by (auto intro!: digit_char_mem)
  moreover have "map digit_char ds \<noteq> []" using assms(3) by simp
  ultimately show ?thesis
    using digits_value_map [OF assms(1,2), of True 0] assms(3)
    by (cases "b = 16") (simp_all add: py_int_base_def digits_strip del: list.set_map)
qed

lemma py_int_str_nat [simp]: "py_int (str_nat n) = Inr (int n)"
proof -
  obtain ds where ds: "str_nat n = map digit_char ds" "ds \<noteq> []" "\<forall>d \<in> set ds. d < 10"
    "foldl (\<lambda>a d. a * 10 + d) 0 ds = n" using str_nat_digits by blast
  then show ?thesis by (simp add: py_int_def py_int_base_digits)
qed

lemma str_nat_inject [simp]: "str_nat m = str_nat n \<longleftrightarrow> m = n"
proof
  assume "str_nat m = str_nat n"
  then have "py_int (str_nat m) = py_int (str_nat n)" by simp
  then show "m = n" by simp
qed simp

lemma str_nat_no_char: "c \<notin> set digit_table \<Longrightarrow> c \<notin> set (str_nat n)"
  using str_nat_chars by blast

lemma str_int_of_nat [simp]: "str_int (int n) = str_nat n"
  by (simp add: str_int_def)

section \<open>Removing and splitting\<close>

text \<open>\<open>s.replace(pat, '')\<close>: every non-overlapping occurrence, from the left.\<close>

function remove_sub :: "string \<Rightarrow> string \<Rightarrow> string" where
  "remove_sub pat [] = []"
| "remove_sub pat (c # cs) =
     (if pat \<noteq> [] \<and> prefix pat (c # cs) then remove_sub pat (drop (length pat) (c # cs))
      else c # remove_sub pat cs)"
  by pat_completeness auto
termination
  by (relation "measure (\<lambda>(p, s). length s)") (auto simp: neq_Nil_conv)

lemma remove_sub_ident: "pat \<noteq> [] \<Longrightarrow> hd pat \<notin> set s \<Longrightarrow> remove_sub pat s = s"
  by (induction s) (auto simp: prefix_Cons neq_Nil_conv)

lemma remove_sub_single: "remove_sub [c] s = filter (\<lambda>x. x \<noteq> c) s"
  by (induction s) auto

lemma remove_sub_keeps: "c \<in> set s \<Longrightarrow> c \<notin> set pat \<Longrightarrow> c \<in> set (remove_sub pat s)"
proof (induction pat s rule: remove_sub.induct)
  case (1 pat)
  then show ?case by simp
next
  case (2 pat x xs)
  show ?case
  proof (cases "pat \<noteq> [] \<and> prefix pat (x # xs)")
    case True
    then obtain zs where zs: "x # xs = pat @ zs" by (auto simp: prefix_def)
    with "2.prems" have "c \<in> set (drop (length pat) (x # xs))" by auto
    with True "2.IH"(1) "2.prems"(2) show ?thesis by simp
  next
    case False
    with "2" show ?thesis by auto
  qed
qed

text \<open>\<open>s.split(c)\<close> for a one-character separator: always at least one piece.\<close>

fun split_on :: "char \<Rightarrow> string \<Rightarrow> string list" where
  "split_on c [] = [[]]"
| "split_on c (x # xs) =
     (if x = c then [] # split_on c xs
      else case split_on c xs of p # ps \<Rightarrow> (x # p) # ps | [] \<Rightarrow> [[x]])"

lemma split_on_nonempty [simp]: "split_on c s \<noteq> []"
  by (induction s) (auto split: list.splits)

text \<open>\<open>sep.join(parts)\<close>.\<close>

fun join_with :: "string \<Rightarrow> string list \<Rightarrow> string" where
  "join_with sep [] = []"
| "join_with sep [p] = p"
| "join_with sep (p # q # ps) = p @ sep @ join_with sep (q # ps)"

lemma join_split: "join_with [c] (split_on c s) = s"
proof (induction s)
  case Nil
  then show ?case by simp
next
  case (Cons x xs)
  obtain p ps where p: "split_on c xs = p # ps"
    by (cases "split_on c xs") auto
  with Cons show ?case by (cases ps) auto
qed

lemma split_on_free: "c \<notin> set s \<Longrightarrow> split_on c s = [s]"
  by (induction s) auto

lemma split_on_append: "c \<notin> set p \<Longrightarrow> split_on c (p @ c # s) = p # split_on c s"
  by (induction p) auto

lemma split_join:
  assumes "ps \<noteq> []" and "\<forall>p \<in> set ps. c \<notin> set p"
  shows "split_on c (join_with [c] ps) = ps"
  using assms
proof (induction "[c]" ps rule: join_with.induct)
  case 1
  then show ?case by simp
next
  case (2 p)
  then show ?case by (simp add: split_on_free)
next
  case (3 p q ps)
  then show ?case by (simp add: split_on_append)
qed

lemma split_on_parts: "p \<in> set (split_on c s) \<Longrightarrow> c \<notin> set p"
proof (induction s arbitrary: p)
  case Nil
  then show ?case by simp
next
  case (Cons x xs)
  obtain q qs where "split_on c xs = q # qs"
    by (cases "split_on c xs") auto
  with Cons show ?case by (auto split: if_splits)
qed

section \<open>UUIDs\<close>

text \<open>
  A \<open>uuid.UUID\<close> is a 128-bit number. \<open>uuid_str\<close> is its \<open>str()\<close>: 32 lower-case
  hexadecimal digits with hyphens after the 8th, 12th, 16th and 20th. \<open>uuid_of_str\<close> is
  the constructor applied to text: it drops \<open>urn:\<close>, \<open>uuid:\<close>, surrounding braces and
  every hyphen, insists on 32 characters and reads them with \<open>int(_, 16)\<close>.
\<close>

type_synonym uuid = "128 word"

fun hex_digits :: "nat \<Rightarrow> nat \<Rightarrow> nat list" where
  "hex_digits 0 n = []"
| "hex_digits (Suc k) n = hex_digits k (n div 16) @ [n mod 16]"

definition uuid_hex :: "uuid \<Rightarrow> string" where
  "uuid_hex u = map digit_char (hex_digits 32 (unat u))"

definition uuid_str :: "uuid \<Rightarrow> string" where
  "uuid_str u =
     (let h = uuid_hex u in
        take 8 h @ ''-'' @ take 4 (drop 8 h) @ ''-'' @ take 4 (drop 12 h) @ ''-''
        @ take 4 (drop 16 h) @ ''-'' @ drop 20 h)"

definition uuid_of_str :: "string \<Rightarrow> uuid option" where
  "uuid_of_str s =
     (let h = remove_sub ''-'' (strip_with (\<lambda>c. c = CHR ''{'' \<or> c = CHR ''}'')
                (remove_sub ''uuid:'' (remove_sub ''urn:'' s)))
      in if length h \<noteq> 32 then None
         else case py_int_base 16 h of
                None \<Rightarrow> None
              | Some i \<Rightarrow> if 0 \<le> i \<and> i < 2 ^ 128 then Some (of_int i) else None)"

lemma length_hex_digits [simp]: "length (hex_digits k n) = k"
  by (induction k arbitrary: n) auto

lemma hex_digits_bound: "d \<in> set (hex_digits k n) \<Longrightarrow> d < 16"
  by (induction k arbitrary: n) auto

lemma foldl_hex_digits: "foldl (\<lambda>a d. a * 16 + d) 0 (hex_digits k n) = n mod 16 ^ k"
proof (induction k arbitrary: n)
  case 0
  then show ?case by simp
next
  case (Suc k)
  have "n div 16 mod 16 ^ k * 16 + n mod 16 = n mod (16 * 16 ^ k)"
    by (simp add: mod_mult2_eq mult.commute)
  with Suc show ?case by simp
qed

lemma length_uuid_hex [simp]: "length (uuid_hex u) = 32"
  by (simp add: uuid_hex_def)

lemma uuid_hex_chars: "set (uuid_hex u) \<subseteq> set digit_table"
  by (auto simp: uuid_hex_def intro: digit_char_mem hex_digits_bound)

lemma py_int_uuid_hex: "py_int_base 16 (uuid_hex u) = Some (int (unat u))"
proof -
  have "unat u < 16 ^ 32" using unsigned_less [of u] by (simp add: unsigned_less [where 'a = nat])
  moreover have "hex_digits 32 (unat u) \<noteq> []"
    by (metis length_hex_digits list.size(3) zero_neq_numeral)
  ultimately show ?thesis
    unfolding uuid_hex_def
    by (subst py_int_base_digits) (auto dest: hex_digits_bound simp: foldl_hex_digits)
qed

lemma filter_hyphen_hex: "set xs \<subseteq> set digit_table \<Longrightarrow> filter (\<lambda>x. x \<noteq> CHR ''-'') xs = xs"
  by (rule filter_ident) (auto dest!: subsetD digit_plainD)

lemma uuid_str_chars: "set (uuid_str u) \<subseteq> insert (CHR ''-'') (set digit_table)"
  using uuid_hex_chars [of u]
  by (auto simp: uuid_str_def Let_def dest!: in_set_takeD in_set_dropD)

lemma take_drop_step: "take n (drop m xs) @ drop (m + n) xs = drop m xs"
  by (metis append_take_drop_id drop_drop add.commute)

lemma uuid_str_strip: "filter (\<lambda>x. x \<noteq> CHR ''-'') (uuid_str u) = uuid_hex u"
proof -
  let ?h = "uuid_hex u"
  have sub: "set (take n (drop m ?h)) \<subseteq> set digit_table" "set (drop m ?h) \<subseteq> set digit_table"
    "set (take n ?h) \<subseteq> set digit_table" for n m
    using uuid_hex_chars [of u] by (auto dest!: in_set_takeD in_set_dropD)
  have "filter (\<lambda>x. x \<noteq> CHR ''-'') (uuid_str u) =
      take 8 ?h @ take 4 (drop 8 ?h) @ take 4 (drop 12 ?h) @ take 4 (drop 16 ?h) @ drop 20 ?h"
    by (simp add: uuid_str_def Let_def filter_hyphen_hex sub)
  also have "\<dots> = ?h"
    using take_drop_step [of 8 0 ?h] take_drop_step [of 4 8 ?h] take_drop_step [of 4 12 ?h]
      take_drop_step [of 4 16 ?h] by simp
  finally show ?thesis .
qed

lemma uuid_str_hd_last: "uuid_str u \<noteq> []" "hd (uuid_str u) \<in> set digit_table"
  "last (uuid_str u) \<in> set digit_table"
proof -
  let ?h = "uuid_hex u"
  have ne: "take 8 ?h \<noteq> []" "drop 20 ?h \<noteq> []"
    by (simp_all flip: length_greater_0_conv)
  then show "uuid_str u \<noteq> []" by (simp add: uuid_str_def Let_def)
  have "hd (uuid_str u) = hd (take 8 ?h)" "last (uuid_str u) = last (drop 20 ?h)"
    using ne by (simp_all add: uuid_str_def Let_def)
  moreover have "hd (take 8 ?h) \<in> set ?h" "last (drop 20 ?h) \<in> set ?h"
    using ne by (meson hd_in_set last_in_set in_set_takeD in_set_dropD)+
  ultimately show "hd (uuid_str u) \<in> set digit_table" "last (uuid_str u) \<in> set digit_table"
    using uuid_hex_chars by auto
qed

lemma uuid_str_plain:
  "c \<in> set (uuid_str u) \<Longrightarrow>
     c \<noteq> CHR ''u'' \<and> c \<noteq> CHR '':'' \<and> c \<noteq> CHR ''/'' \<and> c \<noteq> CHR ''{'' \<and> c \<noteq> CHR ''}'' \<and> c \<noteq> CHR ''*''"
  using uuid_str_chars [of u] by (auto simp: digit_table_def)

theorem uuid_of_str_uuid_str [simp]: "uuid_of_str (uuid_str u) = Some u"
proof -
  let ?brace = "\<lambda>c. c = CHR ''{'' \<or> c = CHR ''}''"
  have noU: "CHR ''u'' \<notin> set (uuid_str u)"
    using uuid_str_plain by blast
  then have "remove_sub ''uuid:'' (remove_sub ''urn:'' (uuid_str u)) = uuid_str u"
    by (simp add: remove_sub_ident)
  moreover have "strip_with ?brace (uuid_str u) = uuid_str u"
    using uuid_str_hd_last [of u] by (intro strip_with_ident) (auto dest: digit_plainD)
  moreover have "remove_sub ''-'' (uuid_str u) = uuid_hex u"
    by (simp add: remove_sub_single uuid_str_strip)
  moreover have "int (unat u) < 2 ^ 128"
    using unsigned_less [of u] by (simp add: unsigned_less [where 'a = int])
  ultimately show ?thesis
    by (simp add: uuid_of_str_def Let_def py_int_uuid_hex)
qed

lemma uuid_str_inject [simp]: "uuid_str u = uuid_str v \<longleftrightarrow> u = v"
  by (metis option.inject uuid_of_str_uuid_str)

text \<open>Text that reads as a UUID holds none of the characters that separate keys or paths.\<close>

lemma digits_value_chars:
  "digits_value b acc us s = Some v \<Longrightarrow> c \<in> set s \<Longrightarrow> c = CHR ''_'' \<or> digit_val c \<noteq> None"
  by (induction s arbitrary: acc us) (auto split: if_splits option.splits)

lemma dropWhile_keeps: "c \<in> set s \<Longrightarrow> \<not> p c \<Longrightarrow> c \<in> set (dropWhile p s)"
  by (induction s) auto

lemma strip_with_keeps: "c \<in> set s \<Longrightarrow> \<not> p c \<Longrightarrow> c \<in> set (strip_with p s)"
  unfolding strip_with_def by (simp add: dropWhile_keeps)

lemma split_sign_keeps:
  "split_sign s = (neg, t) \<Longrightarrow> c \<in> set s \<Longrightarrow> c \<noteq> CHR ''-'' \<Longrightarrow> c \<noteq> CHR ''+'' \<Longrightarrow> c \<in> set t"
  by (cases s) (auto split: if_splits)

lemma skip_hex_prefix_keeps:
  "c \<in> set s \<Longrightarrow> c \<noteq> CHR ''0'' \<Longrightarrow> c \<noteq> CHR ''x'' \<Longrightarrow> c \<noteq> CHR ''X'' \<Longrightarrow> c \<noteq> CHR ''_''
     \<Longrightarrow> c \<in> set (skip_hex_prefix s)"
  by (auto simp: skip_hex_prefix_def split: list.splits)

lemma py_int_base_no_slash:
  assumes "py_int_base b s = Some i"
  shows "CHR ''/'' \<notin> set s"
proof
  assume "CHR ''/'' \<in> set s"
  then have 1: "CHR ''/'' \<in> set (strip_with is_space s)"
    by (rule strip_with_keeps) (simp add: is_space_def)
  obtain neg t where t: "split_sign (strip_with is_space s) = (neg, t)" by fastforce
  with 1 have "CHR ''/'' \<in> set t" by (auto intro: split_sign_keeps)
  then have "CHR ''/'' \<in> set (if b = 16 then skip_hex_prefix t else t)"
    by (simp add: skip_hex_prefix_keeps)
  moreover obtain v where "digits_value b 0 True (if b = 16 then skip_hex_prefix t else t) = Some v"
    using assms t by (auto simp: py_int_base_def)
  ultimately have "digit_val (CHR ''/'') \<noteq> None"
    by (blast dest: digits_value_chars)
  then show False by (simp add: digit_val_def digit_table_def upt_conv_Cons)
qed

lemma uuid_of_str_no_slash:
  assumes "uuid_of_str s = Some u"
  shows "CHR ''/'' \<notin> set s"
proof
  assume "CHR ''/'' \<in> set s"
  then have "CHR ''/'' \<in> set (remove_sub ''uuid:'' (remove_sub ''urn:'' s))"
    by (intro remove_sub_keeps) simp_all
  then have "CHR ''/'' \<in> set (remove_sub ''-'' (strip_with (\<lambda>c. c = CHR ''{'' \<or> c = CHR ''}'')
      (remove_sub ''uuid:'' (remove_sub ''urn:'' s))))"
    by (rule remove_sub_keeps [OF strip_with_keeps]) simp_all
  with assms show False
    by (auto simp: uuid_of_str_def Let_def split: if_splits option.splits dest: py_int_base_no_slash)
qed

end
