(* ===== verification/Models.thy ===== *)
theory Models
  imports PyText "HOL-Library.AList"
begin

text \<open>
  \<open>control_plane/delegates/models.py\<close>: the five tables of the control plane and the
  status values of delegates and executions, as one database record. Primary keys are the
  code's: the token text, and UUIDs. Delegates are kept as an association list because the
  dispatcher lists them; audit events and log lines are kept in the order they are
  created. The \<open>created_at\<close> and \<open>updated_at\<close> columns, which no code of the repository
  decides anything by, are left out.
\<close>

section \<open>Rows\<close>

record registration_token =
  t_tenant_id :: string
  t_expires_at :: int
  t_used_at :: "int option"

datatype delegate_status = STATUS_ACTIVE | STATUS_REVOKED

record delegate =
  d_tenant_id :: string
  d_name :: string
  d_queue :: string
  d_concurrency :: int
  d_cert_serial :: string
  d_cert_pem :: string
  d_cert_expires_at :: int
  d_status :: delegate_status

datatype execution_status =
    STATUS_QUEUED
  | STATUS_TRANSFERRING
  | STATUS_TRANSFER_FAILED
  | STATUS_RUNNING
  | STATUS_SUCCEEDED
  | STATUS_FAILED

fun status_text :: "execution_status \<Rightarrow> string" where
  "status_text STATUS_QUEUED = ''QUEUED''"
| "status_text STATUS_TRANSFERRING = ''TRANSFERRING''"
| "status_text STATUS_TRANSFER_FAILED = ''TRANSFER_FAILED''"
| "status_text STATUS_RUNNING = ''RUNNING''"
| "status_text STATUS_SUCCEEDED = ''SUCCEEDED''"
| "status_text STATUS_FAILED = ''FAILED''"

definition TERMINAL_STATUSES :: "execution_status set" where
  "TERMINAL_STATUSES = {STATUS_SUCCEEDED, STATUS_FAILED, STATUS_TRANSFER_FAILED}"

record execution =
  e_tenant_id :: string
  e_delegate_id :: "uuid option"
  e_workspace_fixture :: string
  e_status :: execution_status
  e_transfer_id :: string
  e_transfer_attempts :: int
  e_output_path :: string
  e_output_checksum :: string

record execution_log =
  l_execution :: uuid
  l_seq :: int
  l_line :: string

record audit_event =
  a_event_type :: string
  a_tenant_id :: string
  a_delegate_id :: string
  a_execution_id :: string
  a_detail :: string

record db =
  tokens :: "string \<rightharpoonup> registration_token"
  delegates :: "(uuid \<times> delegate) list"
  executions :: "uuid \<rightharpoonup> execution"
  logs :: "execution_log list"
  audits :: "audit_event list"

section \<open>Queries\<close>

text \<open>
  A lookup by a UUID column first turns its text into a UUID; text that is not one raises
  \<open>ValidationError\<close>, in \<open>get\<close> as in \<open>filter\<close>.
\<close>

definition to_uuid :: "string \<Rightarrow> uuid result" where
  "to_uuid s = (case uuid_of_str s of
                  None \<Rightarrow> Inl (ValidationError ''is not a valid UUID'')
                | Some u \<Rightarrow> Inr u)"

definition find_delegate :: "db \<Rightarrow> uuid \<Rightarrow> delegate option" where
  "find_delegate d u = map_of (delegates d) u"

definition put_delegate :: "uuid \<Rightarrow> delegate \<Rightarrow> db \<Rightarrow> db" where
  "put_delegate u row d = d\<lparr>delegates := AList.update u row (delegates d)\<rparr>"

definition put_execution :: "uuid \<Rightarrow> execution \<Rightarrow> db \<Rightarrow> db" where
  "put_execution u row d = d\<lparr>executions := (executions d)(u \<mapsto> row)\<rparr>"

text \<open>\<open>Execution.objects.filter(execution_id=\<dots>).update(\<dots>)\<close>: no row, no effect.\<close>

definition update_execution :: "uuid \<Rightarrow> (execution \<Rightarrow> execution) \<Rightarrow> db \<Rightarrow> db" where
  "update_execution u g d =
     (case executions d u of None \<Rightarrow> d | Some row \<Rightarrow> put_execution u (g row) d)"

definition audit :: "audit_event \<Rightarrow> db \<Rightarrow> db" where
  "audit a d = d\<lparr>audits := audits d @ [a]\<rparr>"

text \<open>An audit event, its optional columns at their default.\<close>

definition event :: "string \<Rightarrow> audit_event" where
  "event ty = \<lparr>a_event_type = ty, a_tenant_id = [], a_delegate_id = [], a_execution_id = [], a_detail = []\<rparr>"

text \<open>\<open>Delegate.objects.filter(status=ACTIVE).values_list("id")\<close>.\<close>

definition active_ids :: "db \<Rightarrow> uuid list" where
  "active_ids d = map fst (filter (\<lambda>(u, row). d_status row = STATUS_ACTIVE) (delegates d))"

definition empty_db :: db where
  "empty_db = \<lparr>tokens = Map.empty, delegates = [], executions = Map.empty, logs = [], audits = []\<rparr>"

section \<open>Laws of the tables\<close>

lemma status_text_inject: "status_text a = status_text b \<longleftrightarrow> a = b"
  by (cases a; cases b) simp_all

lemma find_put_delegate [simp]:
  "find_delegate (put_delegate u row d) v = (if v = u then Some row else find_delegate d v)"
  by (simp add: find_delegate_def put_delegate_def update_conv')

lemma find_delegate_frame [simp]:
  "find_delegate (audit a d) = find_delegate d"
  "find_delegate (put_execution e x d) = find_delegate d"
  "find_delegate (update_execution e g d) = find_delegate d"
  "find_delegate (d\<lparr>tokens := t\<rparr>) = find_delegate d"
  "find_delegate (d\<lparr>logs := l\<rparr>) = find_delegate d"
  by (simp_all add: find_delegate_def audit_def put_execution_def update_execution_def fun_eq_iff
      split: option.splits)

lemma executions_frame [simp]:
  "executions (audit a d) = executions d"
  "executions (put_delegate u row d) = executions d"
  "executions (put_execution e x d) = (executions d)(e \<mapsto> x)"
  by (simp_all add: audit_def put_delegate_def put_execution_def)

lemma executions_update [simp]:
  "executions (update_execution e g d) v = (if v = e then map_option g (executions d e) else executions d v)"
  by (simp add: update_execution_def split: option.splits)

lemma tokens_frame [simp]:
  "tokens (audit a d) = tokens d" "tokens (put_delegate u row d) = tokens d"
  "tokens (put_execution e x d) = tokens d" "tokens (update_execution e g d) = tokens d"
  by (simp_all add: audit_def put_delegate_def put_execution_def update_execution_def split: option.splits)

lemma audits_frame [simp]:
  "audits (audit a d) = audits d @ [a]" "audits (put_delegate u row d) = audits d"
  "audits (put_execution e x d) = audits d" "audits (update_execution e g d) = audits d"
  by (simp_all add: audit_def put_delegate_def put_execution_def update_execution_def split: option.splits)

lemma logs_frame [simp]:
  "logs (audit a d) = logs d" "logs (put_delegate u row d) = logs d"
  "logs (put_execution e x d) = logs d" "logs (update_execution e g d) = logs d"
  by (simp_all add: audit_def put_delegate_def put_execution_def update_execution_def split: option.splits)

lemma delegates_frame [simp]:
  "delegates (audit a d) = delegates d"
  "delegates (put_execution e x d) = delegates d" "delegates (update_execution e g d) = delegates d"
  by (simp_all add: audit_def put_execution_def update_execution_def split: option.splits)

text \<open>The delegate table has one row per id; every operation keeps it so.\<close>

definition delegates_wf :: "db \<Rightarrow> bool" where
  "delegates_wf d = distinct (map fst (delegates d))"

lemma delegates_wf_put [simp]: "delegates_wf d \<Longrightarrow> delegates_wf (put_delegate u row d)"
  by (simp add: delegates_wf_def put_delegate_def distinct_update)

lemma active_ids_iff:
  assumes "delegates_wf d"
  shows "u \<in> set (active_ids d) \<longleftrightarrow> (\<exists>row. find_delegate d u = Some row \<and> d_status row = STATUS_ACTIVE)"
proof -
  have "u \<in> set (active_ids d) \<longleftrightarrow> (\<exists>row. (u, row) \<in> set (delegates d) \<and> d_status row = STATUS_ACTIVE)"
    by (force simp: active_ids_def)
  then show ?thesis
    using assms by (simp add: find_delegate_def delegates_wf_def)
qed

lemma to_uuid_str [simp]: "to_uuid (uuid_str u) = Inr u"
  by (simp add: to_uuid_def)

lemma to_uuid_eq_Inr: "to_uuid s = Inr u \<longleftrightarrow> uuid_of_str s = Some u"
  by (simp add: to_uuid_def split: option.splits)

end
