(* ===== verification/Streams.thy ===== *)
theory Streams
  imports PyText
begin

text \<open>
  \<open>shared/delegate_protocol/streams.py\<close>: the names of the Redis keys. Every key of a
  delegate starts with \<open>delegate:<delegate_id>:\<close>, the four streams of an execution follow
  below it, and one stream is global. The lemmas show that names never collide: the
  delegate and the execution can be read back from a key.
\<close>

section \<open>Stream names\<close>

definition GLOBAL_EXECUTION_EVENTS_STREAM :: string where
  "GLOBAL_EXECUTION_EVENTS_STREAM = ''global:execution_events''"

definition delegate_prefix :: "string \<Rightarrow> string" where
  "delegate_prefix delegate_id = ''delegate:'' @ delegate_id @ '':''"

text \<open>The dictionary the code returns, with its four keys as fields.\<close>

record stream_names =
  events_key :: string
  log_key :: string
  status_key :: string
  output_key :: string

definition stream_keys :: "string \<Rightarrow> string \<Rightarrow> stream_names" where
  "stream_keys execution_id delegate_id =
     (let base = delegate_prefix delegate_id @ ''execution:'' @ execution_id in
        \<lparr>events_key = base @ '':events'',
         log_key = base @ '':log'',
         status_key = base @ '':status'',
         output_key = base @ '':output''\<rparr>)"

text \<open>\<open>keys.values()\<close>, in insertion order.\<close>

definition key_values :: "stream_names \<Rightarrow> string list" where
  "key_values k = [events_key k, log_key k, status_key k, output_key k]"

section \<open>Names do not collide\<close>

lemma delegate_prefix_inject:
  assumes "CHR '':'' \<notin> set a" and "CHR '':'' \<notin> set b"
    and "delegate_prefix a @ x = delegate_prefix b @ y"
  shows "a = b \<and> x = y"
  using assms prefix_append_unique [of a "CHR '':''" x b y] by (simp add: delegate_prefix_def)

lemma key_values_prefix:
  "k \<in> set (key_values (stream_keys e d)) \<Longrightarrow> prefix (delegate_prefix d) k"
  by (auto simp: key_values_def stream_keys_def Let_def)

lemma key_values_distinct: "distinct (key_values (stream_keys e d))"
  by (simp add: key_values_def stream_keys_def Let_def)

lemma global_not_delegate: "\<not> prefix (delegate_prefix d) GLOBAL_EXECUTION_EVENTS_STREAM"
  by (simp add: delegate_prefix_def GLOBAL_EXECUTION_EVENTS_STREAM_def)

lemma key_value_shape:
  assumes "k \<in> set (key_values (stream_keys e d))"
  shows "\<exists>suf. k = delegate_prefix d @ ''execution:'' @ e @ CHR '':'' # suf
    \<and> suf \<in> {''events'', ''log'', ''status'', ''output''}"
  using assms by (auto simp: key_values_def stream_keys_def Let_def)

lemma key_value_execution:
  assumes "k \<in> set (key_values (stream_keys e d))" and "k \<in> set (key_values (stream_keys e' d'))"
    and "CHR '':'' \<notin> set d" and "CHR '':'' \<notin> set d'"
    and "CHR '':'' \<notin> set e" and "CHR '':'' \<notin> set e'"
  shows "d = d' \<and> e = e'"
proof -
  obtain s where s: "k = delegate_prefix d @ ''execution:'' @ e @ CHR '':'' # s"
    using key_value_shape [OF assms(1)] by blast
  obtain s' where s': "k = delegate_prefix d' @ ''execution:'' @ e' @ CHR '':'' # s'"
    using key_value_shape [OF assms(2)] by blast
  have "d = d' \<and> ''execution:'' @ e @ CHR '':'' # s = ''execution:'' @ e' @ CHR '':'' # s'"
    using delegate_prefix_inject assms(3,4) s s' by metis
  then show ?thesis
    using prefix_append_unique [of e "CHR '':''" s e' s'] assms(5,6) by simp
qed

end
