(* ===== verification/RedisAcl.thy ===== *)
theory RedisAcl
  imports Models Streams "HOL-Library.Sublist"
begin

text \<open>
  \<open>control_plane/delegates/redis_acl.py\<close>: the ACL user of a delegate, its creation,
  removal and the reconciliation with the delegate table. The Redis server is not code of
  the repository: it is the record \<open>acl_server\<close>, whose state type is left open;
  \<open>acl_laws\<close> states what its documentation promises of the four commands.
\<close>

section \<open>Rules of a delegate\<close>

definition DELEGATE_COMMANDS :: "string list" where
  "DELEGATE_COMMANDS =
     [''xadd'', ''xread'',
      ''brpop'', ''lpush'', ''rpush'', ''llen'', ''lrange'', ''lpop'', ''rpop'', ''lrem'',
      ''zadd'', ''zrem'', ''zrangebyscore'', ''zrevrangebyscore'',
      ''hset'', ''hget'', ''hdel'', ''hgetall'', ''hexists'',
      ''sadd'', ''srem'', ''smembers'',
      ''set'', ''get'', ''evalsha'', ''script|load'', ''del'', ''exists'', ''expire'',
      ''multi'', ''exec'', ''discard'', ''watch'', ''unwatch'',
      ''publish'', ''subscribe'', ''psubscribe'', ''unsubscribe'', ''punsubscribe'',
      ''ping'', ''client|setinfo'', ''client|setname'']"

text \<open>The pattern \<open>^[0-9a-f]{8}-\<dots>-[0-9a-f]{12}$\<close>; \<open>$\<close> also matches before a final newline.\<close>

definition lower_hex :: "char \<Rightarrow> bool" where
  "lower_hex c = (c \<in> set digit_table)"

definition uuid_shape :: "string \<Rightarrow> bool" where
  "uuid_shape s =
     (length s = 36
      \<and> (\<forall>i \<in> set [0..<36]. if i \<in> {8, 13, 18, 23} then s ! i = CHR ''-'' else lower_hex (s ! i)))"

definition is_delegate_user :: "string \<Rightarrow> bool" where
  "is_delegate_user name =
     (uuid_shape name
      \<or> (name \<noteq> [] \<and> last name = CHR 0x0A \<and> uuid_shape (butlast name)))"

text \<open>The random password \<open>secrets.token_urlsafe(32)\<close> is an argument.\<close>

definition acl_rules_for :: "string \<Rightarrow> string \<Rightarrow> string list" where
  "acl_rules_for pw delegate_id =
     (let pre = delegate_prefix delegate_id in
      [''reset'', ''on'', CHR ''>'' # pw,
       CHR ''~'' # pre @ ''*'', CHR ''&'' # pre @ ''*'',
       ''%W~'' @ GLOBAL_EXECUTION_EVENTS_STREAM,
       ''-@all''] @ map (\<lambda>c. CHR ''+'' # c) DELEGATE_COMMANDS)"

section \<open>The server\<close>

record 'r acl_server =
  acl_setuser :: "string \<Rightarrow> string list \<Rightarrow> 'r \<Rightarrow> 'r result"
  acl_deluser :: "string \<Rightarrow> 'r \<Rightarrow> (int \<times> 'r) result"
  acl_users :: "'r \<Rightarrow> string list result"
  acl_save :: "'r \<Rightarrow> 'r result"
  acl_table :: "'r \<Rightarrow> (string \<rightharpoonup> string list)"

text \<open>
  What the code relies on, where a command succeeds: SETUSER with a list that starts with
  \<open>reset\<close> makes exactly these rules the user's, DELUSER removes the user and counts it,
  USERS lists all users, SAVE changes nothing. \<open>acl_table\<close> only names the users and their
  rules; the code cannot read it.
\<close>

definition acl_laws :: "'r acl_server \<Rightarrow> bool" where
  "acl_laws srv \<longleftrightarrow>
     (\<forall>u rules r r'. acl_setuser srv u (''reset'' # rules) r = Inr r' \<longrightarrow>
        acl_table srv r' = (acl_table srv r)(u \<mapsto> ''reset'' # rules))
   \<and> (\<forall>u r n r'. acl_deluser srv u r = Inr (n, r') \<longrightarrow>
        acl_table srv r' = (acl_table srv r)(u := None)
        \<and> n = (if acl_table srv r u = None then 0 else 1))
   \<and> (\<forall>r us. acl_users srv r = Inr us \<longrightarrow> set us = dom (acl_table srv r))
   \<and> (\<forall>r r'. acl_save srv r = Inr r' \<longrightarrow> acl_table srv r' = acl_table srv r)"

section \<open>Operations\<close>

text \<open>A failing ACL SAVE is logged and swallowed.\<close>

definition save :: "'r acl_server \<Rightarrow> 'r \<Rightarrow> 'r" where
  "save srv r = (case acl_save srv r of Inl e \<Rightarrow> r | Inr r' \<Rightarrow> r')"

definition provision_delegate :: "'r acl_server \<Rightarrow> string \<Rightarrow> uuid \<Rightarrow> 'r \<Rightarrow> 'r result" where
  "provision_delegate srv pw delegate_id r =
     (let d = uuid_str delegate_id in
      ebind (acl_setuser srv d (acl_rules_for pw d) r) (\<lambda>r'. Inr (save srv r')))"

definition revoke_delegate_acl :: "'r acl_server \<Rightarrow> uuid \<Rightarrow> 'r \<Rightarrow> (int \<times> 'r) result" where
  "revoke_delegate_acl srv delegate_id r =
     ebind (acl_deluser srv (uuid_str delegate_id) r) (\<lambda>(deleted, r'). Inr (deleted, save srv r'))"

text \<open>
  The two loops of \<open>reconcile\<close>. They stop at the first command that fails, leaving the
  server as it is then. The sets of the code are lists here, in the order the loop takes.
\<close>

fun del_users :: "'r acl_server \<Rightarrow> string list \<Rightarrow> 'r \<Rightarrow> 'r \<times> unit result" where
  "del_users srv [] r = (r, Inr ())"
| "del_users srv (u # us) r =
     (case acl_deluser srv u r of Inl e \<Rightarrow> (r, Inl e) | Inr (n, r') \<Rightarrow> del_users srv us r')"

fun set_users :: "'r acl_server \<Rightarrow> (string \<Rightarrow> string) \<Rightarrow> string list \<Rightarrow> 'r \<Rightarrow> 'r \<times> unit result" where
  "set_users srv pw [] r = (r, Inr ())"
| "set_users srv pw (u # us) r =
     (case acl_setuser srv u (acl_rules_for (pw u) u) r of
        Inl e \<Rightarrow> (r, Inl e) | Inr r' \<Rightarrow> set_users srv pw us r')"

record acl_report =
  provisioned :: "string set"
  removed :: "string set"

definition reconcile :: "'r acl_server \<Rightarrow> (string \<Rightarrow> string) \<Rightarrow> uuid list \<Rightarrow> 'r \<Rightarrow> 'r \<times> acl_report result" where
  "reconcile srv pw active_delegate_ids r =
     (let active = map uuid_str active_delegate_ids in
      case acl_users srv r of
        Inl e \<Rightarrow> (r, Inl e)
      | Inr us \<Rightarrow>
          (let existing = filter is_delegate_user us;
               stale = filter (\<lambda>u. u \<notin> set active) existing in
           case del_users srv stale r of
             (r1, Inl e) \<Rightarrow> (r1, Inl e)
           | (r1, Inr _) \<Rightarrow>
               (case set_users srv pw active r1 of
                  (r2, Inl e) \<Rightarrow> (r2, Inl e)
                | (r2, Inr _) \<Rightarrow>
                    (save srv r2, Inr \<lparr>provisioned = set active, removed = set stale\<rparr>))))"

section \<open>Facts\<close>

lemma acl_lawsD:
  assumes "acl_laws srv"
  shows "acl_setuser srv u (''reset'' # rules) r = Inr r' \<Longrightarrow>
           acl_table srv r' = (acl_table srv r)(u \<mapsto> ''reset'' # rules)"
    and "acl_deluser srv u r = Inr (n, r') \<Longrightarrow> acl_table srv r' = (acl_table srv r)(u := None)"
    and "acl_deluser srv u r = Inr (n, r') \<Longrightarrow> n = (if acl_table srv r u = None then 0 else 1)"
    and "acl_users srv r = Inr us \<Longrightarrow> set us = dom (acl_table srv r)"
    and "acl_save srv r = Inr r' \<Longrightarrow> acl_table srv r' = acl_table srv r"
  using assms unfolding acl_laws_def by blast+

lemma acl_rules_for_reset: "acl_rules_for pw d = ''reset'' # tl (acl_rules_for pw d)"
  by (simp add: acl_rules_for_def Let_def)

lemma save_table [simp]: "acl_laws srv \<Longrightarrow> acl_table srv (save srv r) = acl_table srv r"
  by (auto simp: save_def acl_lawsD(5) split: sum.splits)

lemma setuser_table:
  assumes "acl_laws srv" and "acl_setuser srv u (acl_rules_for pw d) r = Inr r'"
  shows "acl_table srv r' = (acl_table srv r)(u \<mapsto> acl_rules_for pw d)"
  using assms acl_lawsD(1) [OF assms(1)] acl_rules_for_reset by metis

lemma del_users_table:
  assumes "acl_laws srv" and "del_users srv us r = (r', Inr x)"
  shows "acl_table srv r' u = (if u \<in> set us then None else acl_table srv r u)"
  using assms(2)
proof (induction us arbitrary: r)
  case Nil
  then show ?case by simp
next
  case (Cons v us)
  then obtain n r1 where r1: "acl_deluser srv v r = Inr (n, r1)" "del_users srv us r1 = (r', Inr x)"
    by (auto split: sum.splits)
  then show ?case
    using Cons.IH [OF r1(2)] acl_lawsD(2) [OF assms(1) r1(1)] by auto
qed

lemma set_users_table:
  assumes "acl_laws srv" and "set_users srv pw us r = (r', Inr x)"
  shows "acl_table srv r' u = (if u \<in> set us then Some (acl_rules_for (pw u) u) else acl_table srv r u)"
  using assms(2)
proof (induction us arbitrary: r)
  case Nil
  then show ?case by simp
next
  case (Cons v us)
  then obtain r1 where r1: "acl_setuser srv v (acl_rules_for (pw v) v) r = Inr r1"
    "set_users srv pw us r1 = (r', Inr x)"
    by (auto split: sum.splits)
  then show ?case
    using Cons.IH [OF r1(2)] setuser_table [OF assms(1) r1(1)] by auto
qed

lemma nth_hyphenated:
  fixes h :: string
  assumes "length h = 32"
  defines "s \<equiv> take 8 h @ ''-'' @ take 4 (drop 8 h) @ ''-'' @ take 4 (drop 12 h) @ ''-''
        @ take 4 (drop 16 h) @ ''-'' @ drop 20 h"
  shows "length s = 36" and "s ! 8 = CHR ''-''" and "s ! 13 = CHR ''-''" and "s ! 18 = CHR ''-''"
    and "s ! 23 = CHR ''-''"
    and "i < 36 \<Longrightarrow> i \<notin> {8, 13, 18, 23} \<Longrightarrow> s ! i \<in> set h"
  using assms by (auto simp: nth_append nth_Cons' intro!: nth_mem)

lemma uuid_shape_str: "uuid_shape (uuid_str u)"
proof -
  note n = nth_hyphenated [OF length_uuid_hex [of u], folded uuid_str_def [unfolded Let_def]]
  show ?thesis
    using n uuid_hex_chars [of u] by (auto simp: uuid_shape_def lower_hex_def dest!: subsetD)
qed

lemma is_delegate_user_str [simp]: "is_delegate_user (uuid_str u)"
  by (simp add: is_delegate_user_def uuid_shape_str)

lemma uuid_str_no_colon: "CHR '':'' \<notin> set (uuid_str u)"
  using uuid_str_plain by blast

lemma reconcile_table:
  assumes "acl_laws srv" and "reconcile srv pw ids r = (r', Inr rep)"
  shows "(\<forall>name. acl_table srv r' name =
      (if name \<in> uuid_str ` set ids then Some (acl_rules_for (pw name) name)
       else if is_delegate_user name then None
       else acl_table srv r name))
    \<and> provisioned rep = uuid_str ` set ids
    \<and> removed rep = {u \<in> dom (acl_table srv r). is_delegate_user u \<and> u \<notin> uuid_str ` set ids}"
proof -
  obtain us where us: "acl_users srv r = Inr us"
    using assms(2) by (auto simp: reconcile_def Let_def split: sum.splits)
  let ?stale = "filter (\<lambda>u. u \<notin> set (map uuid_str ids)) (filter is_delegate_user us)"
  obtain r1 where r1: "del_users srv ?stale r = (r1, Inr ())"
    using assms(2) us by (auto simp: reconcile_def Let_def split: sum.splits prod.splits)
  obtain r2 where r2: "set_users srv pw (map uuid_str ids) r1 = (r2, Inr ())"
    using assms(2) us r1 by (auto simp: reconcile_def Let_def split: sum.splits prod.splits)
  have res: "r' = save srv r2" "rep = \<lparr>provisioned = set (map uuid_str ids), removed = set ?stale\<rparr>"
    using assms(2) us r1 r2 by (auto simp: reconcile_def Let_def)
  have dom: "set us = dom (acl_table srv r)"
    using acl_lawsD(4) [OF assms(1) us] .
  have "acl_table srv r' name =
      (if name \<in> uuid_str ` set ids then Some (acl_rules_for (pw name) name)
       else if is_delegate_user name then None else acl_table srv r name)" for name
    using del_users_table [OF assms(1) r1, of name] set_users_table [OF assms(1) r2, of name] dom
    by (auto simp: res(1) assms(1) dom_def)
  then show ?thesis
    using dom by (auto simp: res(2))
qed

text \<open>C28: Reconciliation. When \<open>reconcile\<close> returns, every active delegate has an ACL user with exactly
  the rules of a fresh registration, no other user with the shape of a delegate id is left,
  every other user (\<open>cp-admin\<close>, \<open>default\<close>) is as it was, and the report names the users set
  and removed.\<close>

theorem reconcile_correct:
  assumes "acl_laws srv" and "reconcile srv pw ids r = (r', Inr rep)"
  shows "(\<forall>name. acl_table srv r' name =
      (if name \<in> uuid_str ` set ids then Some (acl_rules_for (pw name) name)
       else if is_delegate_user name then None
       else acl_table srv r name))
    \<and> provisioned rep = uuid_str ` set ids
    \<and> removed rep = {u \<in> dom (acl_table srv r). is_delegate_user u \<and> u \<notin> uuid_str ` set ids}"
  using assms by (rule reconcile_table)

text \<open>A server that keeps its users in a list meets the laws.\<close>

definition list_acl_server :: "(string \<times> string list) list acl_server" where
  "list_acl_server =
     \<lparr>acl_setuser = (\<lambda>u rules r. Inr (AList.update u rules r)),
      acl_deluser = (\<lambda>u r. Inr (if map_of r u = None then 0 else 1, AList.delete u r)),
      acl_users = (\<lambda>r. Inr (map fst r)), acl_save = Inr, acl_table = map_of\<rparr>"

lemma list_acl_server_laws: "acl_laws list_acl_server"
  by (auto simp: acl_laws_def list_acl_server_def update_conv' delete_conv' dom_map_of_conv_image_fst)

lemma list_server_total:
  "\<exists>r'. del_users list_acl_server us r = (r', Inr ())" "\<exists>r'. set_users list_acl_server pw us r = (r', Inr ())"
  by (induction us arbitrary: r) (auto simp: list_acl_server_def)

lemma list_server_reconcile: "\<exists>r' rep. reconcile list_acl_server pw ids r = (r', Inr rep)"
proof -
  let ?stale = "filter (\<lambda>u. u \<notin> set (map uuid_str ids)) (filter is_delegate_user (map fst r))"
  obtain r1 where "del_users list_acl_server ?stale r = (r1, Inr ())"
    using list_server_total(1) by blast
  moreover obtain r2 where "set_users list_acl_server pw (map uuid_str ids) r1 = (r2, Inr ())"
    using list_server_total(2) by blast
  moreover have "acl_users list_acl_server r = Inr (map fst r)"
    by (simp add: list_acl_server_def)
  ultimately show ?thesis
    by (simp add: reconcile_def Let_def)
qed

text \<open>A stale user of a revoked delegate goes, the administrator's stays.\<close>

lemma reconcile_correct_witness:
  "\<exists>r' rep. reconcile list_acl_server (\<lambda>_. ''pw'') [3] [(''cp-admin'', [''on'']), (uuid_str 7, [''on''])]
      = (r', Inr rep)
    \<and> acl_table list_acl_server r' (uuid_str 7) = None
    \<and> acl_table list_acl_server r' ''cp-admin'' = Some [''on'']
    \<and> acl_table list_acl_server r' (uuid_str 3) = Some (acl_rules_for ''pw'' (uuid_str 3))"
proof -
  let ?r = "[(''cp-admin'', [''on'']), (uuid_str 7, [''on''])]"
  obtain r' rep where rec: "reconcile list_acl_server (\<lambda>_. ''pw'') [3] ?r = (r', Inr rep)"
    using list_server_reconcile by blast
  have admin: "\<not> is_delegate_user ''cp-admin''"
    by (simp add: is_delegate_user_def uuid_shape_def)
  then have "''cp-admin'' \<noteq> uuid_str 3"
    using is_delegate_user_str by metis
  with reconcile_correct [OF list_acl_server_laws rec] admin rec show ?thesis
    by (simp add: list_acl_server_def)
qed

section \<open>Confinement\<close>

text \<open>
  How Redis reads key rules, as its documentation states it: a key is allowed only through
  a \<open>~\<close> pattern, or for writing through a \<open>%W~\<close> pattern, that matches it; a pattern
  without special characters matches itself only, and with one \<open>*\<close> after it matches what
  starts with it.
\<close>

definition plain_pattern :: "string \<Rightarrow> bool" where
  "plain_pattern p = (\<forall>c \<in> set p. c \<notin> {CHR ''*'', CHR ''?'', CHR ''['', CHR '']'', CHR 0x5C, CHR ''^''})"

definition glob_law :: "(string \<Rightarrow> string \<Rightarrow> bool) \<Rightarrow> bool" where
  "glob_law glob \<longleftrightarrow> (\<forall>p k. plain_pattern p \<longrightarrow>
     (glob (p @ ''*'') k \<longleftrightarrow> prefix p k) \<and> (glob p k \<longleftrightarrow> k = p))"

definition key_law :: "(string list \<Rightarrow> bool \<Rightarrow> string \<Rightarrow> bool) \<Rightarrow> (string \<Rightarrow> string \<Rightarrow> bool) \<Rightarrow> bool" where
  "key_law permits glob \<longleftrightarrow> (\<forall>rules wr k. permits rules wr k \<longrightarrow>
     (\<exists>p. CHR ''~'' # p \<in> set rules \<and> glob p k) \<or> (wr \<and> (\<exists>p. ''%W~'' @ p \<in> set rules \<and> glob p k)))"

lemma plain_delegate_prefix: "plain_pattern (delegate_prefix (uuid_str u))"
  using uuid_str_chars [of u]
  by (auto simp: plain_pattern_def delegate_prefix_def digit_table_def)

lemma plain_global: "plain_pattern GLOBAL_EXECUTION_EVENTS_STREAM"
  by (simp add: plain_pattern_def GLOBAL_EXECUTION_EVENTS_STREAM_def)

lemma delegate_key_rules:
  "CHR ''~'' # p \<in> set (acl_rules_for pw d) \<Longrightarrow> p = delegate_prefix d @ ''*''"
  "''%W~'' @ p \<in> set (acl_rules_for pw d) \<Longrightarrow> p = GLOBAL_EXECUTION_EVENTS_STREAM"
  by (auto simp: acl_rules_for_def Let_def)

lemma rules_confine:
  assumes "glob_law glob" and "key_law permits glob"
    and "permits (acl_rules_for pw (uuid_str u)) wr k"
  shows "prefix (delegate_prefix (uuid_str u)) k \<or> (wr \<and> k = GLOBAL_EXECUTION_EVENTS_STREAM)"
proof -
  consider p where "CHR ''~'' # p \<in> set (acl_rules_for pw (uuid_str u))" "glob p k"
    | p where "wr" "''%W~'' @ p \<in> set (acl_rules_for pw (uuid_str u))" "glob p k"
    using assms(2,3) unfolding key_law_def by blast
  then show ?thesis
  proof cases
    case 1
    with assms(1) show ?thesis
      using delegate_key_rules(1) [OF 1(1)] plain_delegate_prefix by (simp add: glob_law_def)
  next
    case 2
    with assms(1) show ?thesis
      using delegate_key_rules(2) [OF 2(2)] plain_global by (simp add: glob_law_def)
  qed
qed


text \<open>A reading of the rules that meets the two laws: the last character of a pattern is a
  wildcard if it is a star.\<close>

definition star_glob :: "string \<Rightarrow> string \<Rightarrow> bool" where
  "star_glob p k = (if p \<noteq> [] \<and> last p = CHR ''*'' then prefix (butlast p) k else k = p)"

definition rule_permits :: "string list \<Rightarrow> bool \<Rightarrow> string \<Rightarrow> bool" where
  "rule_permits rules wr k =
     (\<exists>rule \<in> set rules.
        (prefix ''~'' rule \<and> star_glob (drop 1 rule) k)
        \<or> (wr \<and> prefix ''%W~'' rule \<and> star_glob (drop 3 rule) k))"

lemma star_glob_law: "glob_law star_glob"
  unfolding glob_law_def
proof (intro allI impI conjI)
  fix p k :: string
  assume p: "plain_pattern p"
  show "star_glob (p @ ''*'') k \<longleftrightarrow> prefix p k"
    by (simp add: star_glob_def)
  have "p \<noteq> [] \<Longrightarrow> last p \<noteq> CHR ''*''"
    using p last_in_set by (fastforce simp: plain_pattern_def)
  then show "star_glob p k \<longleftrightarrow> k = p"
    by (auto simp: star_glob_def)
qed

lemma rule_permits_law: "key_law rule_permits star_glob"
  unfolding key_law_def rule_permits_def by (auto simp: prefix_def)


end
