(* ===== verification/Base64.thy ===== *)
theory Base64
  imports Prelude "HOL-Library.Word"
begin

text \<open>
  \<open>base64.b64encode\<close> and \<open>base64.b64decode\<close> of Python's standard library, with which the
  transfer protocol carries chunk bytes as text. The decoder is the lenient one the code
  calls (\<open>validate\<close> left at its default): characters outside the alphabet are skipped, a
  complete padding ends the input, and a group left incomplete raises \<open>binascii.Error\<close>, a
  \<open>ValueError\<close>. The last section proves that decoding undoes encoding.
\<close>

type_synonym byte = "8 word"
type_synonym bytes = "byte list"

section \<open>The alphabet\<close>

definition b64_alphabet :: string where
  "b64_alphabet = ''ABCDEFGHIJKLMNOPQRSTUVWXYZabcdefghijklmnopqrstuvwxyz0123456789+/''"

definition b64_char :: "nat \<Rightarrow> char" where
  "b64_char v = b64_alphabet ! v"

definition b64_val :: "char \<Rightarrow> nat option" where
  "b64_val c = map_of (zip b64_alphabet [0..<64]) c"

lemma b64_alphabet_distinct: "distinct b64_alphabet"
  unfolding b64_alphabet_def by simp

lemma b64_alphabet_length [simp]: "length b64_alphabet = 64"
  by (simp add: b64_alphabet_def)

lemma b64_alphabet_chars: "\<forall>c \<in> set b64_alphabet. c \<noteq> CHR ''='' \<and> (of_char c :: nat) < 128"
  by code_simp

lemma b64_char_mem: "v < 64 \<Longrightarrow> b64_char v \<in> set b64_alphabet"
  by (simp add: b64_char_def)

lemma b64_val_char [simp]: "v < 64 \<Longrightarrow> b64_val (b64_char v) = Some v"
  by (simp add: b64_val_def b64_char_def map_of_zip_nth b64_alphabet_distinct)

lemma b64_char_not_pad [simp]: "v < 64 \<Longrightarrow> b64_char v \<noteq> CHR ''=''"
  using b64_char_mem b64_alphabet_chars by blast

section \<open>Encoding\<close>

text \<open>Three bytes give four characters; a last group of one or two bytes is padded.\<close>

fun b64encode :: "bytes \<Rightarrow> string" where
  "b64encode [] = []"
| "b64encode [a] =
     (let x = unat a in
        [b64_char (x div 4), b64_char (x mod 4 * 16), CHR ''='', CHR ''=''])"
| "b64encode [a, b] =
     (let x = unat a; y = unat b in
        [b64_char (x div 4), b64_char (x mod 4 * 16 + y div 16), b64_char (y mod 16 * 4), CHR ''=''])"
| "b64encode (a # b # c # rest) =
     (let x = unat a; y = unat b; z = unat c in
        [b64_char (x div 4), b64_char (x mod 4 * 16 + y div 16),
         b64_char (y mod 16 * 4 + z div 64), b64_char (z mod 64)] @ b64encode rest)"

section \<open>Decoding\<close>

text \<open>
  The decoder's state is the position in the current group of four, the bits of the last
  character not yet written, and the number of padding characters seen in a row.
\<close>

definition b64_error :: exn where
  "b64_error = ValueError ''Incorrect padding''"

fun b64_loop :: "nat \<Rightarrow> nat \<Rightarrow> nat \<Rightarrow> string \<Rightarrow> bytes result" where
  "b64_loop quad_pos leftchar pads [] = (if quad_pos = 0 then Inr [] else Inl b64_error)"
| "b64_loop quad_pos leftchar pads (ch # rest) =
     (if ch = CHR ''='' then
        (if 2 \<le> quad_pos then
           (if 4 \<le> quad_pos + (pads + 1) then Inr []
            else b64_loop quad_pos leftchar (pads + 1) rest)
         else b64_loop quad_pos leftchar pads rest)
      else case b64_val ch of
             None \<Rightarrow> b64_loop quad_pos leftchar pads rest
           | Some v \<Rightarrow>
               (if quad_pos = 0 then b64_loop 1 v 0 rest
                else if quad_pos = 1 then
                  emap (Cons (word_of_nat (leftchar * 4 + v div 16))) (b64_loop 2 (v mod 16) 0 rest)
                else if quad_pos = 2 then
                  emap (Cons (word_of_nat (leftchar * 16 + v div 4))) (b64_loop 3 (v mod 4) 0 rest)
                else
                  emap (Cons (word_of_nat (leftchar * 64 + v))) (b64_loop 0 0 0 rest)))"

text \<open>Text with a character beyond ASCII is refused before it is decoded.\<close>

definition b64decode :: "string \<Rightarrow> bytes result" where
  "b64decode s =
     (if \<exists>c \<in> set s. 128 \<le> (of_char c :: nat)
      then Inl (ValueError ''string argument should contain only ASCII characters'')
      else b64_loop 0 0 0 s)"

section \<open>Round trip\<close>

lemma byte_lt: "unat (a :: byte) < 256"
  using unsigned_less [of a] by simp

lemma byte_join4: "word_of_nat (unat a div 4 * 4 + unat (a :: byte) mod 4) = a"
  by (simp add: div_mult_mod_eq)

lemma byte_join16: "word_of_nat (unat a div 16 * 16 + unat (a :: byte) mod 16) = a"
  by (simp add: div_mult_mod_eq)

lemma byte_join64: "word_of_nat (unat a div 64 * 64 + unat (a :: byte) mod 64) = a"
  by (simp add: div_mult_mod_eq)

lemma sextet_bounds:
  fixes a b :: byte
  shows "unat a div 4 < 64" "unat a mod 4 * 16 + unat b div 16 < 64"
    "unat a mod 16 * 4 + unat b div 64 < 64" "unat a mod 64 < 64"
    "unat a mod 4 * 16 < 64" "unat a mod 16 * 4 < 64"
  using byte_lt [of a] byte_lt [of b] by auto

lemma sextet_parts:
  fixes a b :: byte
  shows "(unat a mod 4 * 16 + unat b div 16) div 16 = unat a mod 4"
    "(unat a mod 4 * 16 + unat b div 16) mod 16 = unat b div 16"
    "(unat a mod 16 * 4 + unat b div 64) div 4 = unat a mod 16"
    "(unat a mod 16 * 4 + unat b div 64) mod 4 = unat b div 64"
  using byte_lt [of b] by auto

lemma byte_div_mod: "unat (a :: byte) div 16 mod 16 = unat a div 16"
  "unat (a :: byte) div 64 mod 4 = unat a div 64"
  using byte_lt [of a] by auto

lemma b64_loop_encode: "b64_loop 0 0 0 (b64encode bs) = Inr bs"
proof (induction bs rule: b64encode.induct)
  case 1
  then show ?case by simp
next
  case (2 a)
  then show ?case
    by (simp add: Let_def sextet_bounds byte_join4 del: of_nat_add of_nat_mult)
next
  case (3 a b)
  then show ?case
    by (simp add: Let_def sextet_bounds sextet_parts byte_div_mod byte_join4 byte_join16
        del: of_nat_add of_nat_mult)
next
  case (4 a b c rest)
  then show ?case
    by (simp add: Let_def sextet_bounds sextet_parts byte_div_mod byte_join4 byte_join16 byte_join64
        del: of_nat_add of_nat_mult)
qed

lemma b64_char_ascii: "v < 64 \<Longrightarrow> (of_char (b64_char v) :: nat) < 128"
  using b64_char_mem b64_alphabet_chars by blast

lemma b64encode_ascii: "c \<in> set (b64encode bs) \<Longrightarrow> (of_char c :: nat) < 128"
  by (induction bs rule: b64encode.induct)
    (auto simp: Let_def sextet_bounds intro: b64_char_ascii)

theorem b64decode_b64encode [simp]: "b64decode (b64encode bs) = Inr bs"
proof -
  have "\<not> (\<exists>c \<in> set (b64encode bs). 128 \<le> (of_char c :: nat))"
    using b64encode_ascii by (meson not_le)
  then show ?thesis by (simp add: b64decode_def b64_loop_encode)
qed

end
