(* ===== verification/PosixPath.thy ===== *)
theory PosixPath
  imports PyText Base64
begin

text \<open>
  \<open>os.path\<close> on POSIX, as far as the code uses it: \<open>join\<close>, \<open>normpath\<close>, \<open>abspath\<close>,
  \<open>relpath\<close> and \<open>commonpath\<close> of two paths, all on text. The operating system's file
  system and the ZIP codec are not code of the repository: they are the record
  \<open>host\<close>, an argument of every definition that reads files.
\<close>

section \<open>Paths as text\<close>

definition slash :: char where
  "slash = CHR ''/''"

definition isabs :: "string \<Rightarrow> bool" where
  "isabs p = prefix [slash] p"

definition py_join :: "string \<Rightarrow> string \<Rightarrow> string" where
  "py_join a b =
     (if isabs b then b
      else if a = [] \<or> last a = slash then a @ b
      else a @ [slash] @ b)"

text \<open>The non-trivial components of a path.\<close>

definition comps :: "string \<Rightarrow> string list" where
  "comps p = filter (\<lambda>c. c \<noteq> [] \<and> c \<noteq> ''.'') (split_on slash p)"

fun norm_comps :: "bool \<Rightarrow> string list \<Rightarrow> string list \<Rightarrow> string list" where
  "norm_comps absl acc [] = acc"
| "norm_comps absl acc (c # cs) =
     (if c = [] \<or> c = ''.'' then norm_comps absl acc cs
      else if c \<noteq> ''..'' \<or> (\<not> absl \<and> acc = []) \<or> (acc \<noteq> [] \<and> last acc = ''..'')
      then norm_comps absl (acc @ [c]) cs
      else norm_comps absl (butlast acc) cs)"

definition initial_slashes :: "string \<Rightarrow> nat" where
  "initial_slashes p =
     (if \<not> isabs p then 0
      else if prefix [slash, slash] p \<and> \<not> prefix [slash, slash, slash] p then 2 else 1)"

definition normpath :: "string \<Rightarrow> string" where
  "normpath p =
     (if p = [] then ''.''
      else let n = initial_slashes p;
               r = replicate n slash @ join_with [slash] (norm_comps (0 < n) [] (split_on slash p))
           in if r = [] then ''.'' else r)"

definition abspath :: "string \<Rightarrow> string \<Rightarrow> string" where
  "abspath cwd p = normpath (if isabs p then p else py_join cwd p)"

text \<open>\<open>relpath(p, start)\<close>, with the working directory as an argument.\<close>

definition relpath :: "string \<Rightarrow> string \<Rightarrow> string \<Rightarrow> string" where
  "relpath cwd p start =
     (let sl = filter (\<lambda>x. x \<noteq> []) (split_on slash (abspath cwd start));
          pl = filter (\<lambda>x. x \<noteq> []) (split_on slash (abspath cwd p));
          i = length (longest_common_prefix sl pl);
          rel = replicate (length sl - i) ''..'' @ drop i pl
      in case rel of [] \<Rightarrow> ''.'' | r # rs \<Rightarrow> foldl py_join r rs)"

text \<open>\<open>commonpath([a, b])\<close>.\<close>

definition commonpath :: "string \<Rightarrow> string \<Rightarrow> string result" where
  "commonpath a b =
     (if isabs a \<noteq> isabs b then Inl (ValueError ''Can't mix absolute and relative paths'')
      else Inr ((if isabs a then [slash] else [])
                @ join_with [slash] (longest_common_prefix (comps a) (comps b))))"

section \<open>The host: file system and ZIP codec\<close>

text \<open>
  \<open>read_file\<close> gives the content that opening a path yields, links followed; \<open>realpath\<close>
  resolves links, and raises \<open>ValueError\<close> on a path with a NUL character; \<open>walk\<close> is the
  sequence of directories \<open>os.walk\<close> yields with the files in each. \<open>zip_write\<close> is the
  archive \<open>zipfile\<close> makes of the named entries and \<open>zip_read\<close> what it reads back.
\<close>

record host =
  cwd :: string
  realpath :: "string \<Rightarrow> string result"
  isfile :: "string \<Rightarrow> bool"
  isdir :: "string \<Rightarrow> bool"
  read_file :: "string \<Rightarrow> bytes result"
  walk :: "string \<Rightarrow> (string \<times> string list) list"
  zip_write :: "(string \<times> bytes) list \<Rightarrow> bytes result"
  zip_read :: "bytes \<Rightarrow> (string \<times> bytes) list result"

text \<open>A host for examples: every path is an existing empty file and no directory lists any.\<close>

definition sample_host :: host where
  "sample_host =
     \<lparr>cwd = ''/'', realpath = Inr, isfile = (\<lambda>_. True), isdir = (\<lambda>_. True), read_file = (\<lambda>_. Inr []),
      walk = (\<lambda>_. []), zip_write = (\<lambda>_. Inr []), zip_read = (\<lambda>_. Inr [])\<rparr>"

section \<open>Facts about paths\<close>

lemma isabs_simps [simp]: "isabs (slash # p)" "\<not> isabs []"
  by (simp_all add: isabs_def)

lemma py_join_abs: "isabs b \<Longrightarrow> py_join a b = b"
  by (simp add: py_join_def)

lemma isabs_py_join: "isabs a \<Longrightarrow> isabs (py_join a b)"
  by (auto simp: py_join_def isabs_def prefix_def)

lemma py_join_inject:
  assumes "\<not> isabs b" and "\<not> isabs c"
  shows "py_join a b = py_join a c \<longleftrightarrow> b = c"
  using assms by (simp add: py_join_def)

lemma comps_parts: "c \<in> set (comps p) \<Longrightarrow> c \<noteq> [] \<and> c \<noteq> ''.'' \<and> slash \<notin> set c"
  by (auto simp: comps_def dest: split_on_parts)

lemma comps_join:
  assumes "\<forall>c \<in> set cs. c \<noteq> [] \<and> c \<noteq> ''.'' \<and> slash \<notin> set c"
  shows "comps (join_with [slash] cs) = cs" and "comps (slash # join_with [slash] cs) = cs"
proof -
  have *: "filter (\<lambda>c. c \<noteq> [] \<and> c \<noteq> ''.'') (split_on slash (join_with [slash] cs)) = cs"
  proof (cases "cs = []")
    case True
    then show ?thesis by simp
  next
    case False
    with assms have "split_on slash (join_with [slash] cs) = cs"
      by (intro split_join) auto
    then show ?thesis using assms by (simp add: filter_ident)
  qed
  show "comps (join_with [slash] cs) = cs"
    using * by (simp add: comps_def)
  show "comps (slash # join_with [slash] cs) = cs"
    using * by (simp add: comps_def)
qed

text \<open>The guard the code builds from \<open>commonpath\<close> says what it should: the second path is
  below the first, component by component.\<close>

theorem commonpath_eq_first:
  assumes "commonpath a b = Inr a"
  shows "prefix (comps a) (comps b)"
proof -
  let ?l = "longest_common_prefix (comps a) (comps b)"
  have pre: "prefix ?l (comps a)" "prefix ?l (comps b)"
    by (rule longest_common_prefix_prefix1, rule longest_common_prefix_prefix2)
  then have parts: "\<forall>c \<in> set ?l. c \<noteq> [] \<and> c \<noteq> ''.'' \<and> slash \<notin> set c"
    by (metis comps_parts set_mono_prefix subsetD)
  have "a = (if isabs a then [slash] else []) @ join_with [slash] ?l"
    using assms by (simp add: commonpath_def split: if_splits)
  then have "comps a = comps ((if isabs a then [slash] else []) @ join_with [slash] ?l)"
    by (rule arg_cong)
  also have "\<dots> = ?l"
    using comps_join [OF parts] by simp
  finally show ?thesis using pre(2) by simp
qed

end
