(* ===== verification/Clients.thy ===== *)
theory Clients
  imports Streams
begin

text \<open>
  Connections to Redis: \<open>shared/delegate_protocol/redis_client.py\<close>, the worker's defaults in
  \<open>worker/worker_app/__init__.py\<close>, and \<open>control_plane/delegates/celery_client.py\<close>, the cache
  of one Celery client per delegate. The process environment is a map of text; a client is
  the configuration it was built with.
\<close>

section \<open>TLS configuration\<close>

type_synonym environ = "string \<rightharpoonup> string"

definition truthy_var :: "environ \<Rightarrow> string \<Rightarrow> string option" where
  "truthy_var env k = (case env k of Some v \<Rightarrow> if v = [] then None else Some v | None \<Rightarrow> None)"

definition tls_paths :: "environ \<Rightarrow> (string \<times> string \<times> string) option" where
  "tls_paths env =
     (case (truthy_var env ''REDIS_TLS_CA'', truthy_var env ''REDIS_TLS_CERT'', truthy_var env ''REDIS_TLS_KEY'') of
        (Some ca, Some cert, Some key) \<Rightarrow> Some (ca, cert, key)
      | _ \<Rightarrow> None)"

record tls_options =
  ssl_ca_certs :: string
  ssl_certfile :: string
  ssl_keyfile :: string
  ssl_cert_required :: bool
  ssl_check_hostname :: bool

record connection =
  conn_url :: string
  decode_responses :: bool
  conn_tls :: "tls_options option"

definition get_redis :: "environ \<Rightarrow> string \<Rightarrow> connection" where
  "get_redis env url =
     \<lparr>conn_url = url, decode_responses = True,
      conn_tls =
        (if prefix ''rediss://'' url
         then map_option (\<lambda>(ca, cert, key).
                \<lparr>ssl_ca_certs = ca, ssl_certfile = cert, ssl_keyfile = key,
                 ssl_cert_required = True, ssl_check_hostname = True\<rparr>) (tls_paths env)
         else None)\<rparr>"

text \<open>The broker options carry no hostname check; the fields are those of the dictionary.\<close>

definition broker_ssl_options :: "environ \<Rightarrow> tls_options option" where
  "broker_ssl_options env =
     map_option (\<lambda>(ca, cert, key).
       \<lparr>ssl_ca_certs = ca, ssl_certfile = cert, ssl_keyfile = key,
        ssl_cert_required = True, ssl_check_hostname = False\<rparr>) (tls_paths env)"

text \<open>The worker points the three variables at its own certificate directory, unless they are set.\<close>

definition setdefault :: "string \<Rightarrow> string \<Rightarrow> environ \<Rightarrow> environ" where
  "setdefault k v env = (case env k of None \<Rightarrow> env(k \<mapsto> v) | Some _ \<Rightarrow> env)"

definition worker_environ :: "(string \<Rightarrow> string \<Rightarrow> string) \<Rightarrow> environ \<Rightarrow> environ" where
  "worker_environ join env =
     (let dir = (case env ''CERT_DIR'' of None \<Rightarrow> ''/app/certs'' | Some d \<Rightarrow> d) in
      setdefault ''REDIS_TLS_KEY'' (join dir ''delegate.key'')
        (setdefault ''REDIS_TLS_CERT'' (join dir ''delegate.crt'')
          (setdefault ''REDIS_TLS_CA'' (join dir ''ca.crt'') env)))"

section \<open>One Celery client per delegate\<close>

record celery_client =
  client_name :: string
  client_broker :: string
  client_prefix :: string
  client_ssl :: "tls_options option"

type_synonym clients = "string \<rightharpoonup> celery_client"

definition new_client :: "environ \<Rightarrow> string \<Rightarrow> string \<Rightarrow> celery_client" where
  "new_client env redis_url delegate_id =
     \<lparr>client_name = ''control_plane_client_'' @ delegate_id, client_broker = redis_url,
      client_prefix = delegate_prefix delegate_id, client_ssl = broker_ssl_options env\<rparr>"

definition client_for :: "environ \<Rightarrow> string \<Rightarrow> string \<Rightarrow> clients \<Rightarrow> celery_client \<times> clients" where
  "client_for env redis_url delegate_id cs =
     (case cs delegate_id of
        Some client \<Rightarrow> (client, cs)
      | None \<Rightarrow> (let client = new_client env redis_url delegate_id
                 in (client, cs(delegate_id \<mapsto> client))))"

text \<open>
  A task message on the broker: the key prefix of the connection, the queue and the
  arguments. The task's \<open>file_name\<close> is passed on as it was given, so its type is open.
\<close>

record 'a task =
  task_prefix :: string
  task_queue :: string
  task_name :: string
  task_execution_id :: string
  task_file_name :: 'a

definition send_execute_task ::
    "environ \<Rightarrow> string \<Rightarrow> string \<Rightarrow> string \<Rightarrow> string \<Rightarrow> 'a \<Rightarrow> clients \<Rightarrow> 'a task \<times> clients" where
  "send_execute_task env redis_url execution_id delegate_id queue file_name cs =
     (case client_for env redis_url delegate_id cs of
        (client, cs') \<Rightarrow>
          (\<lparr>task_prefix = client_prefix client, task_queue = queue,
            task_name = ''worker_app.tasks.execute_task'',
            task_execution_id = execution_id, task_file_name = file_name\<rparr>, cs'))"

section \<open>Facts\<close>

text \<open>Every cached client has the prefix of the delegate it is cached for.\<close>

definition clients_wf :: "clients \<Rightarrow> bool" where
  "clients_wf cs = (\<forall>d c. cs d = Some c \<longrightarrow> client_prefix c = delegate_prefix d)"

lemma clients_wf_empty: "clients_wf Map.empty"
  by (simp add: clients_wf_def)

lemma send_execute_task_wf:
  assumes "clients_wf cs" and "send_execute_task env url e d q fn cs = (t, cs')"
  shows "clients_wf cs'" and "task_prefix t = delegate_prefix d"
    and "task_queue t = q" and "task_execution_id t = e" and "task_file_name t = fn"
  using assms
  by (auto simp: clients_wf_def send_execute_task_def client_for_def new_client_def Let_def
      split: option.splits if_splits)

text \<open>A sequence of sends through one cache, each task with the delegate it was sent to.\<close>

fun send_all :: "environ \<Rightarrow> string \<Rightarrow> (string \<times> string \<times> string \<times> 'a) list \<Rightarrow> clients
    \<Rightarrow> (string \<times> 'a task) list" where
  "send_all env redis_url [] cs = []"
| "send_all env redis_url ((e, d, q, fname) # requests) cs =
     (case send_execute_task env redis_url e d q fname cs of
        (t, cs') \<Rightarrow> (d, t) # send_all env redis_url requests cs')"

lemma send_all_prefix:
  "clients_wf cs \<Longrightarrow> (d, t) \<in> set (send_all env url requests cs) \<Longrightarrow> task_prefix t = delegate_prefix d"
  by (induction env url requests cs rule: send_all.induct)
    (auto split: prod.splits dest: send_execute_task_wf [OF _ sym] sym)

text \<open>A task for a delegate lands below that delegate's key prefix only: whatever tasks are sent
  through one cache of clients, in whatever order, each task's prefix is the one of the
  delegate it is sent to.\<close>

theorem tasks_stay_in_keyspace:
  "(d, t) \<in> set (send_all env redis_url requests Map.empty) \<Longrightarrow> task_prefix t = delegate_prefix d"
  by (rule send_all_prefix [OF clients_wf_empty])

lemma tasks_stay_in_keyspace_witness:
  "\<exists>t. (''a'', t) \<in> set (send_all Map.empty ''redis://r'' [(''e1'', ''b'', ''q'', ''*''), (''e2'', ''a'', ''q'', ''*'')] Map.empty)
     \<and> task_prefix t = ''delegate:a:''"
proof -
  let ?sent = "send_all Map.empty ''redis://r'' [(''e1'', ''b'', ''q'', ''*''), (''e2'', ''a'', ''q'', ''*'')] Map.empty"
  have "\<exists>t. (''a'', t) \<in> set ?sent"
    by (auto simp: split_beta)
  then obtain t where t: "(''a'', t) \<in> set ?sent" by blast
  with tasks_stay_in_keyspace [OF t] show ?thesis
    by (auto simp: delegate_prefix_def)
qed

end
