(* ===== verification/Json.thy ===== *)
theory Json
  imports PyText
begin

text \<open>
  Decoded JSON as the request handlers see it: the values \<open>json.loads\<close> builds, their
  truth value, \<open>dict.get\<close>, and the conversions Django and the handlers apply to them. The
  decoder itself, and the text of lists, objects and fractions, are arguments.
\<close>

datatype json =
    JNull
  | JBool bool
  | JInt int
  | JFloat int int
  | JStr string
  | JList "json list"
  | JObj "(string \<times> json) list"

text \<open>\<open>JFloat m e\<close> is the fraction \<open>m * 10 ^ e\<close>.\<close>

fun truthy :: "json \<Rightarrow> bool" where
  "truthy JNull = False"
| "truthy (JBool b) = b"
| "truthy (JInt i) = (i \<noteq> 0)"
| "truthy (JFloat m e) = (m \<noteq> 0)"
| "truthy (JStr s) = (s \<noteq> [])"
| "truthy (JList xs) = (xs \<noteq> [])"
| "truthy (JObj kv) = (kv \<noteq> [])"

text \<open>\<open>body.get(k, d)\<close>: only an object has it.\<close>

fun body_get :: "json \<Rightarrow> string \<Rightarrow> json \<Rightarrow> json result" where
  "body_get (JObj kv) k d = Inr (case map_of kv k of None \<Rightarrow> d | Some v \<Rightarrow> v)"
| "body_get _ k d = Inl (AttributeError ''get'')"

text \<open>\<open>str(value)\<close>, with which a text column stores a value; \<open>repr\<close> prints the rest.\<close>

fun json_text :: "(json \<Rightarrow> string) \<Rightarrow> json \<Rightarrow> string" where
  "json_text repr (JStr s) = s"
| "json_text repr (JInt i) = str_int i"
| "json_text repr (JBool b) = (if b then ''True'' else ''False'')"
| "json_text repr JNull = ''None''"
| "json_text repr j = repr j"

text \<open>\<open>int(value)\<close>.\<close>

fun json_int :: "json \<Rightarrow> int result" where
  "json_int (JInt i) = Inr i"
| "json_int (JBool b) = Inr (if b then 1 else 0)"
| "json_int (JFloat m e) =
     Inr (if 0 \<le> e then m * 10 ^ nat e else sgn m * (\<bar>m\<bar> div 10 ^ nat (- e)))"
| "json_int (JStr s) = py_int s"
| "json_int _ = Inl (TypeError ''int() argument must be a string or a number'')"

text \<open>The value of a UUID column: numbers, and text in any form \<open>uuid.UUID\<close> reads; a value that
  is none raises \<open>ValidationError\<close>.\<close>

definition uuid_of_int :: "int \<Rightarrow> uuid result" where
  "uuid_of_int i =
     (if 0 \<le> i \<and> i < 2 ^ 128 then Inr (of_int i) else Inl (ValidationError ''is not a valid UUID''))"

fun json_uuid :: "json \<Rightarrow> uuid result" where
  "json_uuid (JStr s) =
     (case uuid_of_str s of None \<Rightarrow> Inl (ValidationError ''is not a valid UUID'') | Some u \<Rightarrow> Inr u)"
| "json_uuid (JInt i) = uuid_of_int i"
| "json_uuid (JBool b) = uuid_of_int (if b then 1 else 0)"
| "json_uuid _ = Inl (ValidationError ''is not a valid UUID'')"

text \<open>The names of the required fields that are absent or false, in order.\<close>

fun missing_fields :: "json \<Rightarrow> string list \<Rightarrow> string list result" where
  "missing_fields body [] = Inr []"
| "missing_fields body (k # ks) =
     ebind (body_get body k JNull) (\<lambda>v.
     ebind (missing_fields body ks) (\<lambda>ms. Inr (if truthy v then ms else k # ms)))"

text \<open>\<open>body[k]\<close> for a field found present before.\<close>

definition body_req :: "json \<Rightarrow> string \<Rightarrow> json result" where
  "body_req body k =
     (case body of
        JObj kv \<Rightarrow> (case map_of kv k of None \<Rightarrow> Inl (KeyError k) | Some v \<Rightarrow> Inr v)
      | _ \<Rightarrow> Inl (TypeError ''not subscriptable''))"

lemma json_uuid_str [simp]: "json_uuid (JStr (uuid_str u)) = Inr u"
  by simp

lemma missing_fields_Nil:
  "missing_fields (JObj kv) ks = Inr [] \<longleftrightarrow> (\<forall>k \<in> set ks. \<exists>v. map_of kv k = Some v \<and> truthy v)"
  by (induction ks) (auto simp: ebind_eq_Inr split: option.splits)

lemma missing_fields_obj: "\<exists>ms. missing_fields (JObj kv) ks = Inr ms"
  by (induction ks) auto

lemma missing_fields_obj_only: "ks \<noteq> [] \<Longrightarrow> missing_fields body ks = Inr ms \<Longrightarrow> \<exists>kv. body = JObj kv"
  by (cases ks; cases body) auto

lemma missing_fields_non_obj: "k \<in> set ks \<Longrightarrow> (\<nexists>kv. body = JObj kv) \<Longrightarrow>
    missing_fields body ks = Inl (AttributeError ''get'')"
  by (cases ks; cases body) auto

end
