(* ===== verification/Views.thy ===== *)
theory Views
  imports RedisAcl Ca Clients Json
begin

text \<open>
  \<open>control_plane/delegates/views.py\<close>: the HTTP API. The state of the control plane is its
  database, the Redis ACL server, the CA directory, the cache of Celery clients and the
  tasks on the broker. A handler takes the randomness and the clock reading it uses as
  arguments and returns the new state with its response, or with the exception that
  escapes it (which Django answers with status 500). Work done before an exception stays.
\<close>

section \<open>State and environment\<close>

record 'r cp =
  cp_db :: db
  cp_acl :: 'r
  cp_ca :: ca_files
  cp_clients :: clients
  cp_tasks :: "json task list"

record 'r web =
  json_loads :: "bytes \<Rightarrow> json option result"
  repr :: "json \<Rightarrow> string"
  web_crypto :: crypto
  web_acl :: "'r acl_server"
  web_host :: host
  web_environ :: environ
  CA_DIR :: string
  WORKSPACE_FIXTURES_DIR :: string
  REDIS_URL :: string
  DELEGATE_CERT_VALIDITY_DAYS :: int
  REGISTRATION_TOKEN_TTL_SECONDS :: int

record request =
  req_method :: string
  req_body :: bytes

record response =
  resp_status :: nat
  resp_body :: "(string \<times> json) list"

definition json_response :: "nat \<Rightarrow> (string \<times> json) list \<Rightarrow> response" where
  "json_response st body = \<lparr>resp_status = st, resp_body = body\<rparr>"

definition error_response :: "nat \<Rightarrow> string \<Rightarrow> response" where
  "error_response st msg = json_response st [(''error'', JStr msg)]"

text \<open>\<open>_json_body\<close>: None (JSON null) when the text does not decode, so that a body of
  \<open>null\<close> is the same. An empty body counts as an empty object.\<close>

definition json_body :: "'r web \<Rightarrow> request \<Rightarrow> json result" where
  "json_body w req =
     (if req_body req = [] then Inr (JObj [])
      else ebind (json_loads w (req_body req)) (\<lambda>r.
             Inr (case r of None \<Rightarrow> JNull | Some j \<Rightarrow> j)))"

definition require_http_method :: "string \<Rightarrow> request \<Rightarrow> 's \<Rightarrow> 's \<times> response result \<Rightarrow> 's \<times> response result" where
  "require_http_method meth req s handled =
     (if req_method req \<noteq> meth then (s, Inr (json_response 405 [])) else handled)"

text \<open>The list of names in \<open>missing fields: [...]\<close>.\<close>

definition name_list :: "string list \<Rightarrow> string" where
  "name_list ns = ''['' @ join_with '', '' (map (\<lambda>n. CHR 0x27 # n @ [CHR 0x27]) ns) @ '']''"

section \<open>issue_registration_token\<close>

text \<open>\<open>objects.create\<close> inserts: a row with the same primary key makes it raise.\<close>

definition integrity_error :: exn where
  "integrity_error = OtherError ''IntegrityError''"

definition issue_registration_token ::
    "'r web \<Rightarrow> int \<Rightarrow> string \<Rightarrow> request \<Rightarrow> 'r cp \<Rightarrow> 'r cp \<times> response result" where
  "issue_registration_token w now token req s =
     require_http_method ''POST'' req s
       (case json_body w req of
          Inl e \<Rightarrow> (s, Inl e)
        | Inr body \<Rightarrow>
            if body = JNull then (s, Inr (error_response 400 ''tenant_id is required''))
            else case body_get body ''tenant_id'' JNull of
              Inl e \<Rightarrow> (s, Inl e)
            | Inr tenant \<Rightarrow>
                if \<not> truthy tenant then (s, Inr (error_response 400 ''tenant_id is required''))
                else
                  let tenant_id = json_text (repr w) tenant;
                      expires = now + REGISTRATION_TOKEN_TTL_SECONDS w;
                      row = \<lparr>t_tenant_id = tenant_id, t_expires_at = expires, t_used_at = None\<rparr>;
                      d = cp_db s;
                      d1 = d\<lparr>tokens := (tokens d)(token \<mapsto> row)\<rparr>;
                      d2 = audit ((event ''REGISTRATION_TOKEN_ISSUED'')
                                  \<lparr>a_tenant_id := tenant_id, a_detail := ''token='' @ token\<rparr>) d1
                  in if tokens d token \<noteq> None then (s, Inl integrity_error)
                     else (s\<lparr>cp_db := d2\<rparr>,
                           Inr (json_response 200 [(''token'', JStr token), (''expires_at'', JInt expires)])))"

section \<open>register_delegate\<close>

text \<open>The random choices of one registration.\<close>

record reg_random =
  rr_delegate_id :: uuid
  rr_root :: fresh
  rr_serial :: nat
  rr_password :: string

definition rejected :: "'r web \<Rightarrow> json \<Rightarrow> string \<Rightarrow> nat \<Rightarrow> string \<Rightarrow> 'r cp \<Rightarrow> 'r cp \<times> response result" where
  "rejected w tenant detail st msg s =
     (s\<lparr>cp_db := audit ((event ''REGISTRATION_REJECTED'')
          \<lparr>a_tenant_id := json_text (repr w) tenant, a_detail := detail\<rparr>) (cp_db s)\<rparr>,
      Inr (error_response st msg))"

text \<open>The checks on the token, in the order of the code; \<open>None\<close> when all hold.\<close>

definition token_problem :: "db \<Rightarrow> int \<Rightarrow> string \<Rightarrow> json \<Rightarrow> (string \<times> string) option" where
  "token_problem d now token tenant =
     (case tokens d token of
        None \<Rightarrow> Some (''unknown token'', ''invalid registration token'')
      | Some t \<Rightarrow>
          if t_used_at t \<noteq> None then Some (''token already used'', ''registration token already used'')
          else if t_expires_at t < now then Some (''token expired'', ''registration token expired'')
          else if JStr (t_tenant_id t) \<noteq> tenant then Some (''tenant mismatch'', ''tenant_id does not match token'')
          else None)"

text \<open>Signing: a CSR that is not text has no \<open>encode\<close>.\<close>

definition sign_for :: "'r web \<Rightarrow> int \<Rightarrow> reg_random \<Rightarrow> json \<Rightarrow> ca_files
    \<Rightarrow> ca_files \<times> (string \<times> string \<times> int) result" where
  "sign_for w now rr csr_json fs =
     (case csr_json of
        JStr csr_pem \<Rightarrow>
          sign_csr (web_crypto w) (CA_DIR w) now (rr_root rr) (rr_serial rr) csr_pem
            (uuid_str (rr_delegate_id rr)) (DELEGATE_CERT_VALIDITY_DAYS w) fs
      | _ \<Rightarrow>
          (let fs1 = ensure_root_ca (CA_DIR w) now (rr_root rr) fs in
           (fs1, ebind (load_ca (CA_DIR w) fs1) (\<lambda>_. Inl (AttributeError ''encode'')))))"

definition is_value_error :: "exn \<Rightarrow> bool" where
  "is_value_error e = (case e of ValueError _ \<Rightarrow> True | _ \<Rightarrow> False)"

text \<open>The columns of the new row, in the order their values are computed: a null queue breaks
  the column's constraint, and SQLite's integers have 64 bits.\<close>

definition delegate_row :: "'r web \<Rightarrow> json \<Rightarrow> json \<Rightarrow> string \<Rightarrow> string \<Rightarrow> int \<Rightarrow> delegate result" where
  "delegate_row w body tenant cert_pem serial not_after =
     ebind (body_req body ''name'') (\<lambda>name.
     ebind (body_get body ''queue'' (JStr ''default'')) (\<lambda>queue.
     ebind (body_get body ''concurrency'' (JInt 1)) (\<lambda>conc.
     ebind (json_int conc) (\<lambda>concurrency.
       if queue = JNull then Inl integrity_error
       else if \<not> (- (2 ^ 63) \<le> concurrency \<and> concurrency < 2 ^ 63) then Inl (OtherError ''OverflowError'')
       else Inr \<lparr>d_tenant_id = json_text (repr w) tenant, d_name = json_text (repr w) name,
                 d_queue = json_text (repr w) queue, d_concurrency = concurrency,
                 d_cert_serial = serial, d_cert_pem = cert_pem, d_cert_expires_at = not_after,
                 d_status = STATUS_ACTIVE\<rparr>))))"

text \<open>
  The handler after the body has been decoded and its required fields found: check the
  token; sign; provision Redis; create the row; use up the token; audit; answer. The part
  from the row on is \<open>register_commit\<close>.
\<close>

definition register_commit ::
    "'r web \<Rightarrow> int \<Rightarrow> uuid \<Rightarrow> string \<Rightarrow> string \<Rightarrow> delegate \<Rightarrow> 'r cp \<Rightarrow> 'r cp \<times> response result" where
  "register_commit w now uid token tenant_id row s =
     (let d = cp_db s;
          d1 = put_delegate uid row d;
          d2 = (case tokens d1 token of
                  None \<Rightarrow> d1
                | Some t \<Rightarrow> d1\<lparr>tokens := (tokens d1)(token \<mapsto> t\<lparr>t_used_at := Some now\<rparr>)\<rparr>);
          did = uuid_str uid;
          d3 = audit ((event ''DELEGATE_REGISTERED'')
                 \<lparr>a_tenant_id := tenant_id, a_delegate_id := did,
                  a_detail := ''name='' @ d_name row @ '' serial='' @ d_cert_serial row\<rparr>) d2;
          d4 = audit ((event ''REDIS_ACL_PROVISIONED'')
                 \<lparr>a_tenant_id := tenant_id, a_delegate_id := did,
                  a_detail := ''scope=delegate:'' @ did @ '':*''\<rparr>) d3
      in (s\<lparr>cp_db := d4\<rparr>,
          ebind (ca_cert_pem (web_crypto w) (CA_DIR w) (cp_ca s)) (\<lambda>ca_pem.
            Inr (json_response 200
              [(''delegate_id'', JStr did), (''cert_pem'', JStr (d_cert_pem row)),
               (''ca_cert_pem'', JStr ca_pem), (''cert_expires_at'', JInt (d_cert_expires_at row))]))))"

definition register_checked ::
    "'r web \<Rightarrow> int \<Rightarrow> reg_random \<Rightarrow> json \<Rightarrow> string \<Rightarrow> json \<Rightarrow> json \<Rightarrow> 'r cp \<Rightarrow> 'r cp \<times> response result" where
  "register_checked w now rr body token tenant csr_json s =
     (case token_problem (cp_db s) now token tenant of
        Some (detail, msg) \<Rightarrow> rejected w tenant detail 403 msg s
      | None \<Rightarrow>
          (case sign_for w now rr csr_json (cp_ca s) of
             (fs, Inl e) \<Rightarrow>
               (let s1 = s\<lparr>cp_ca := fs\<rparr> in
                if is_value_error e then rejected w tenant (exn_text e) 400 (exn_text e) s1
                else (s1, Inl e))
           | (fs, Inr (cert_pem, serial, not_after)) \<Rightarrow>
               (let s1 = s\<lparr>cp_ca := fs\<rparr> in
                case provision_delegate (web_acl w) (rr_password rr) (rr_delegate_id rr) (cp_acl s1) of
                  Inl e \<Rightarrow> rejected w tenant (''redis ACL provisioning failed: '' @ exn_text e) 503
                             ''could not provision Redis access'' s1
                | Inr acl \<Rightarrow>
                    (let s2 = s1\<lparr>cp_acl := acl\<rparr> in
                     case delegate_row w body tenant cert_pem serial not_after of
                       Inl e \<Rightarrow> (s2, Inl e)
                     | Inr row \<Rightarrow>
                         if find_delegate (cp_db s2) (rr_delegate_id rr) \<noteq> None
                         then (s2, Inl integrity_error)
                         else register_commit w now (rr_delegate_id rr) token
                                (json_text (repr w) tenant) row s2))))"

definition register_delegate ::
    "'r web \<Rightarrow> int \<Rightarrow> reg_random \<Rightarrow> request \<Rightarrow> 'r cp \<Rightarrow> 'r cp \<times> response result" where
  "register_delegate w now rr req s =
     require_http_method ''POST'' req s
       (case json_body w req of
          Inl e \<Rightarrow> (s, Inl e)
        | Inr body \<Rightarrow>
            if body = JNull then (s, Inr (error_response 400 ''invalid JSON''))
            else case missing_fields body [''token'', ''tenant_id'', ''name'', ''csr_pem''] of
              Inl e \<Rightarrow> (s, Inl e)
            | Inr missing \<Rightarrow>
                if missing \<noteq> [] then
                  (s, Inr (error_response 400 (''missing fields: '' @ name_list missing)))
                else
                  case (body_req body ''token'', body_req body ''tenant_id'', body_req body ''csr_pem'') of
                    (Inr token, Inr tenant, Inr csr_json) \<Rightarrow>
                      register_checked w now rr body (json_text (repr w) token) tenant csr_json s
                  | _ \<Rightarrow> (s, Inl (KeyError ''token'')))"

section \<open>revoke_delegate\<close>

text \<open>
  The id comes from the URL and is a UUID already. \<open>gateway\<close> is the outcome of the POST to
  the restart gateway: what its answer says under \<open>disconnected\<close>, or the exception.
\<close>

definition revoke_delegate ::
    "'r web \<Rightarrow> json result \<Rightarrow> request \<Rightarrow> uuid \<Rightarrow> 'r cp \<Rightarrow> 'r cp \<times> response result" where
  "revoke_delegate w gateway req uid s =
     require_http_method ''POST'' req s
       (case find_delegate (cp_db s) uid of
          None \<Rightarrow> (s, Inr (error_response 404 ''not found''))
        | Some row \<Rightarrow>
            let about = (\<lambda>ty detail. (event ty)\<lparr>a_tenant_id := d_tenant_id row,
                           a_delegate_id := uuid_str uid, a_detail := detail\<rparr>);
                d1 = audit (about ''DELEGATE_REVOKED'' [])
                       (put_delegate uid (row\<lparr>d_status := STATUS_REVOKED\<rparr>) (cp_db s));
                s1 = s\<lparr>cp_db := d1\<rparr>;
                (s2, acl_removed) =
                  (case revoke_delegate_acl (web_acl w) uid (cp_acl s1) of
                     Inl e \<Rightarrow> (s1\<lparr>cp_db := audit (about ''REDIS_ACL_REVOKE_FAILED'' (exn_text e)) (cp_db s1)\<rparr>, False)
                   | Inr (n, acl) \<Rightarrow>
                       (s1\<lparr>cp_acl := acl,
                           cp_db := audit (about ''REDIS_ACL_REVOKED''
                             (''user_deleted='' @ (if 0 < n then ''True'' else ''False'')
                              @ '' (open connections terminated)'')) (cp_db s1)\<rparr>, 0 < n));
                (s3, disconnected) =
                  (case gateway of
                     Inl e \<Rightarrow> (s2\<lparr>cp_db := audit (about ''GATEWAY_DISCONNECT_FAILED'' (exn_text e)) (cp_db s2)\<rparr>, JBool False)
                   | Inr j \<Rightarrow> (s2, j))
            in (s3, Inr (json_response 200 [(''status'', JStr ''revoked''),
                     (''redis_acl_removed'', JBool acl_removed), (''gateway_disconnected'', disconnected)])))"

section \<open>create_execution\<close>

text \<open>\<open>os.path.join\<close> refuses a second part that is not text.\<close>

definition join_json :: "string \<Rightarrow> json \<Rightarrow> string result" where
  "join_json dir j = (case j of JStr p \<Rightarrow> Inr (py_join dir p) | _ \<Rightarrow> Inl (TypeError ''join''))"

text \<open>\<open>broker\<close> says whether the broker takes the task.\<close>

definition create_checked ::
    "'r web \<Rightarrow> uuid \<Rightarrow> unit result \<Rightarrow> json \<Rightarrow> json \<Rightarrow> uuid \<Rightarrow> json \<Rightarrow> 'r cp \<Rightarrow> 'r cp \<times> response result" where
  "create_checked w new_id broker body tenant uid fixture s =
     (case find_delegate (cp_db s) uid of
        None \<Rightarrow> (s, Inr (error_response 404 ''unknown delegate_id''))
      | Some row \<Rightarrow>
          if JStr (d_tenant_id row) \<noteq> tenant then
            (s, Inr (error_response 403 ''delegate does not belong to tenant''))
          else if d_status row \<noteq> STATUS_ACTIVE then
            (s, Inr (error_response 403 ''delegate is not active''))
          else (case join_json (WORKSPACE_FIXTURES_DIR w) fixture of
            Inl e \<Rightarrow> (s, Inl e)
          | Inr fixture_path \<Rightarrow>
              if \<not> isdir (web_host w) fixture_path then
                (s, Inr (error_response 400 (''workspace fixture not found: '' @ fixture_path)))
              else (case body_get body ''file_name'' (JStr ''*'') of
                Inl e \<Rightarrow> (s, Inl e)
              | Inr file_name \<Rightarrow>
                  let row' = \<lparr>e_tenant_id = json_text (repr w) tenant, e_delegate_id = Some uid,
                              e_workspace_fixture = json_text (repr w) fixture,
                              e_status = STATUS_QUEUED, e_transfer_id = [], e_transfer_attempts = 0,
                              e_output_path = [], e_output_checksum = []\<rparr>;
                      s1 = s\<lparr>cp_db := put_execution new_id row' (cp_db s)\<rparr>;
                      eid = uuid_str new_id; did = uuid_str uid;
                      (task, cs) = send_execute_task (web_environ w) (REDIS_URL w) eid did
                                     (d_queue row) file_name (cp_clients s1);
                      s2 = s1\<lparr>cp_clients := cs\<rparr>
                  in if executions (cp_db s) new_id \<noteq> None then (s, Inl integrity_error)
                     else (case broker of
                        Inl e \<Rightarrow> (s2, Inl e)
                      | Inr _ \<Rightarrow>
                          (s2\<lparr>cp_tasks := cp_tasks s2 @ [task],
                              cp_db := audit ((event ''EXECUTION_CREATED'')
                                \<lparr>a_tenant_id := e_tenant_id row', a_delegate_id := did,
                                 a_execution_id := eid,
                                 a_detail := ''file_name='' @ json_text (repr w) file_name\<rparr>) (cp_db s2)\<rparr>,
                           Inr (json_response 200 [(''execution_id'', JStr eid),
                                  (''status'', JStr (status_text (e_status row')))]))))))"

definition create_execution ::
    "'r web \<Rightarrow> uuid \<Rightarrow> unit result \<Rightarrow> request \<Rightarrow> 'r cp \<Rightarrow> 'r cp \<times> response result" where
  "create_execution w new_id broker req s =
     require_http_method ''POST'' req s
       (case json_body w req of
          Inl e \<Rightarrow> (s, Inl e)
        | Inr body \<Rightarrow>
            if body = JNull then (s, Inr (error_response 400 ''invalid JSON''))
            else case missing_fields body [''tenant_id'', ''delegate_id'', ''workspace_fixture''] of
              Inl e \<Rightarrow> (s, Inl e)
            | Inr missing \<Rightarrow>
                if missing \<noteq> [] then
                  (s, Inr (error_response 400 (''missing fields: '' @ name_list missing)))
                else
                  case (body_req body ''tenant_id'', ebind (body_req body ''delegate_id'') json_uuid,
                        body_req body ''workspace_fixture'') of
                    (Inr tenant, Inr uid, Inr fixture) \<Rightarrow>
                      create_checked w new_id broker body tenant uid fixture s
                  | (_, Inl e, _) \<Rightarrow> (s, Inl e)
                  | _ \<Rightarrow> (s, Inl (KeyError ''tenant_id'')))"

section \<open>Read-only views\<close>

definition execution_status_view :: "request \<Rightarrow> uuid \<Rightarrow> 'r cp \<Rightarrow> 'r cp \<times> response result" where
  "execution_status_view req eid s =
     require_http_method ''GET'' req s
       (case executions (cp_db s) eid of
          None \<Rightarrow> (s, Inr (error_response 404 ''not found''))
        | Some row \<Rightarrow>
            let lines = map l_line (sort_key l_seq (filter (\<lambda>l. l_execution l = eid) (logs (cp_db s)))) in
            (s, Inr (json_response 200
               [(''execution_id'', JStr (uuid_str eid)), (''tenant_id'', JStr (e_tenant_id row)),
                (''delegate_id'', (case e_delegate_id row of None \<Rightarrow> JNull | Some u \<Rightarrow> JStr (uuid_str u))),
                (''status'', JStr (status_text (e_status row))),
                (''transfer_id'', JStr (e_transfer_id row)),
                (''transfer_attempts'', JInt (e_transfer_attempts row)),
                (''output_path'', JStr (e_output_path row)),
                (''output_checksum'', JStr (e_output_checksum row)),
                (''logs'', JList (map JStr lines))])))"

text \<open>The 200 newest events, newest first.\<close>

definition list_audit_events :: "request \<Rightarrow> 'r cp \<Rightarrow> 'r cp \<times> response result" where
  "list_audit_events req s =
     require_http_method ''GET'' req s
       (s, Inr (json_response 200
          [(''events'', JList (map (\<lambda>a. JObj
              [(''event_type'', JStr (a_event_type a)), (''tenant_id'', JStr (a_tenant_id a)),
               (''delegate_id'', JStr (a_delegate_id a)), (''execution_id'', JStr (a_execution_id a)),
               (''detail'', JStr (a_detail a))]) (take 200 (rev (audits (cp_db s))))))]))"

end
