(* ===== verification/Routes.thy ===== *)
theory Routes
  imports Views
begin

text \<open>
  \<open>control_plane/control_plane/urls.py\<close> and \<open>control_plane/delegates/urls.py\<close>: which handler a
  path reaches, and the whole HTTP API as one function of a request. What Django does with
  a route text is its documented matching: the text up to its end, and for \<open><uuid:...>\<close> 36
  characters of the form \<open>uuid.UUID\<close> prints. The admin site is Django's own.
\<close>

section \<open>Resolving a path\<close>

datatype route =
    ADMIN string
  | ISSUE_TOKEN
  | REGISTER
  | REVOKE uuid
  | CREATE_EXECUTION
  | EXECUTION_STATUS uuid
  | AUDIT_EVENTS

definition uuid_between :: "string \<Rightarrow> string \<Rightarrow> string \<Rightarrow> uuid option" where
  "uuid_between pre post p =
     (let seg = take 36 (drop (length pre) p) in
      if p = pre @ seg @ post \<and> uuid_shape seg then uuid_of_str seg else None)"

definition resolve_delegates :: "string \<Rightarrow> route option" where
  "resolve_delegates p =
     (if p = ''registration-token/'' then Some ISSUE_TOKEN
      else if p = ''register/'' then Some REGISTER
      else case uuid_between ''delegates/'' ''/revoke/'' p of Some u \<Rightarrow> Some (REVOKE u) | None \<Rightarrow>
      if p = ''executions/'' then Some CREATE_EXECUTION
      else case uuid_between ''executions/'' ''/'' p of Some u \<Rightarrow> Some (EXECUTION_STATUS u) | None \<Rightarrow>
      if p = ''audit-events/'' then Some AUDIT_EVENTS else None)"

definition resolve :: "string \<Rightarrow> route option" where
  "resolve path =
     (if prefix ''/admin/'' path then Some (ADMIN (drop 7 path))
      else if prefix ''/api/'' path then resolve_delegates (drop 5 path)
      else None)"

text \<open>The path of a route, as the clients of the repository write it.\<close>

fun url_of :: "route \<Rightarrow> string" where
  "url_of (ADMIN rest) = ''/admin/'' @ rest"
| "url_of ISSUE_TOKEN = ''/api/registration-token/''"
| "url_of REGISTER = ''/api/register/''"
| "url_of (REVOKE u) = ''/api/delegates/'' @ uuid_str u @ ''/revoke/''"
| "url_of CREATE_EXECUTION = ''/api/executions/''"
| "url_of (EXECUTION_STATUS u) = ''/api/executions/'' @ uuid_str u @ ''/''"
| "url_of AUDIT_EVENTS = ''/api/audit-events/''"

section \<open>The API as one function\<close>

text \<open>What one request draws from its surroundings: the clock, random values, the broker's and
  the gateway's answers, and the admin site.\<close>

record 'r inputs =
  in_now :: int
  in_token :: string
  in_random :: reg_random
  in_execution_id :: uuid
  in_broker :: "unit result"
  in_gateway :: "json result"
  in_admin :: "string \<Rightarrow> request \<Rightarrow> 'r cp \<Rightarrow> 'r cp \<times> response result"

definition serve :: "'r web \<Rightarrow> 'r inputs \<Rightarrow> string \<Rightarrow> request \<Rightarrow> 'r cp \<Rightarrow> 'r cp \<times> response result" where
  "serve w i path req s =
     (case resolve path of
        None \<Rightarrow> (s, Inr (json_response 404 []))
      | Some (ADMIN rest) \<Rightarrow> in_admin i rest req s
      | Some ISSUE_TOKEN \<Rightarrow> issue_registration_token w (in_now i) (in_token i) req s
      | Some REGISTER \<Rightarrow> register_delegate w (in_now i) (in_random i) req s
      | Some (REVOKE u) \<Rightarrow> revoke_delegate w (in_gateway i) req u s
      | Some CREATE_EXECUTION \<Rightarrow> create_execution w (in_execution_id i) (in_broker i) req s
      | Some (EXECUTION_STATUS u) \<Rightarrow> execution_status_view req u s
      | Some AUDIT_EVENTS \<Rightarrow> list_audit_events req s)"

section \<open>UUIDs in their printed form\<close>

lemma hex_digits_foldl:
  "\<forall>d \<in> set ds. d < 16 \<Longrightarrow> hex_digits (length ds) (foldl (\<lambda>a d. a * 16 + d) 0 ds) = ds"
  by (induction ds rule: rev_induct) auto

lemma foldl_digits_bound: "\<forall>d \<in> set ds. d < 16 \<Longrightarrow> foldl (\<lambda>a d. a * 16 + d) 0 ds < (16 :: nat) ^ length ds"
  by (induction ds rule: rev_induct) auto

lemma hex_text:
  assumes "length h = 32" and "set h \<subseteq> set digit_table"
  shows "\<exists>u. uuid_hex u = h"
proof -
  have "\<exists>ds. h = map digit_char ds \<and> (\<forall>d \<in> set ds. d < 16)"
    using assms(2)
  proof (induction h)
    case Nil
    then show ?case by simp
  next
    case (Cons c h)
    then obtain ds where ds: "h = map digit_char ds" "\<forall>d \<in> set ds. d < 16" by auto
    obtain i where "i < length digit_table" "digit_table ! i = c"
      using Cons.prems by (auto simp: in_set_conv_nth)
    then have "i < 16" "digit_char i = c" by (simp_all add: digit_char_def digit_table_def)
    with ds show ?case by (intro exI [of _ "i # ds"]) auto
  qed
  then obtain ds where ds: "h = map digit_char ds" "\<forall>d \<in> set ds. d < 16" by blast
  let ?n = "foldl (\<lambda>a d. a * 16 + d) 0 ds"
  have len: "length ds = 32" using assms(1) ds(1) by simp
  have "?n < 2 ^ 128" using foldl_digits_bound [OF ds(2)] len by simp
  then have "unat (of_nat ?n :: uuid) = ?n"
    by (simp add: unsigned_of_nat take_bit_nat_eq_self)
  then have "uuid_hex (of_nat ?n) = h"
    using hex_digits_foldl [OF ds(2)] len ds(1) by (simp add: uuid_hex_def)
  then show ?thesis by blast
qed

text \<open>Text of that form is the printed form of exactly one UUID.\<close>

lemma uuid_shape_iff: "uuid_shape s \<longleftrightarrow> (\<exists>u. s = uuid_str u)"
proof
  assume s: "uuid_shape s"
  then have len: "length s = 36"
    and hyphens: "s ! 8 = CHR ''-''" "s ! 13 = CHR ''-''" "s ! 18 = CHR ''-''" "s ! 23 = CHR ''-''"
    by (auto simp: uuid_shape_def)
  have hex: "s ! i \<in> set digit_table" if "i < 36" "i \<notin> {8, 13, 18, 23}" for i
    using s that by (auto simp: uuid_shape_def lower_hex_def dest!: bspec [of _ _ i])
  let ?h = "take 8 s @ take 4 (drop 9 s) @ take 4 (drop 14 s) @ take 4 (drop 19 s) @ drop 24 s"
  have seg: "set (take k (drop m s)) \<subseteq> set digit_table"
    if "\<forall>i. m \<le> i \<and> i < m + k \<longrightarrow> i < 36 \<and> i \<notin> {8, 13, 18, 23}" for m k
  proof
    fix c
    assume "c \<in> set (take k (drop m s))"
    then obtain i where "i < k" "c = s ! (m + i)"
      using len by (auto simp: in_set_conv_nth)
    with that show "c \<in> set digit_table" using hex [of "m + i"] by simp
  qed
  have "set ?h \<subseteq> set digit_table"
    using seg [of 0 8] seg [of 9 4] seg [of 14 4] seg [of 19 4] seg [of 24 12] len by auto
  moreover have "length ?h = 32" using len by simp
  ultimately obtain u where u: "uuid_hex u = ?h" using hex_text by blast
  have hyphen: "s ! i = CHR ''-''" if "i = 8 \<or> i = 13 \<or> i = 18 \<or> i = 23" for i
    using that hyphens by auto
  have "s = uuid_str u"
    unfolding uuid_str_def Let_def u
    by (rule nth_equalityI)
      (use len in \<open>auto simp: nth_append nth_Cons' less_Suc_eq_le intro!: hyphen\<close>)
  then show "\<exists>u. s = uuid_str u" ..
next
  assume "\<exists>u. s = uuid_str u"
  then show "uuid_shape s" using uuid_shape_str by blast
qed

lemma length_uuid_str [simp]: "length (uuid_str u) = 36"
  using uuid_shape_str [of u] by (simp add: uuid_shape_def)

lemma uuid_between_iff: "uuid_between pre post p = Some u \<longleftrightarrow> p = pre @ uuid_str u @ post"
  by (auto simp: uuid_between_def Let_def uuid_shape_iff split: if_splits)

section \<open>Paths and routes\<close>

lemma resolve_delegates_iff:
  "resolve_delegates p = Some r \<longleftrightarrow> ''/api/'' @ p = url_of r \<and> (\<forall>rest. r \<noteq> ADMIN rest)"
proof -
  have apart: "x @ uuid_str u @ y \<noteq> z" if "length z < length x + 36" for x y z u
    using that by (auto dest: arg_cong [where f = length])
  have len: "length (''delegates/'' @ uuid_str u @ ''/revoke/'') = 54" "length (''executions/'' @ uuid_str u @ ''/'') = 48" for u
    by simp_all
  consider u where "p = ''delegates/'' @ uuid_str u @ ''/revoke/''" | u where "p = ''executions/'' @ uuid_str u @ ''/''"
    | (plain) "uuid_between ''delegates/'' ''/revoke/'' p = None" "uuid_between ''executions/'' ''/'' p = None"
    by (meson not_Some_eq uuid_between_iff)
  then show ?thesis
  proof cases
    case (1 u)
    then have "resolve_delegates p = Some (REVOKE u)"
      using uuid_between_iff [of "''delegates/''" "''/revoke/''" p u] by (simp add: resolve_delegates_def)
    moreover have "''/api/'' @ p = url_of r \<and> (\<forall>rest. r \<noteq> ADMIN rest) \<longleftrightarrow> r = REVOKE u"
      using 1 by (cases r) auto
    ultimately show ?thesis by auto
  next
    case (2 u)
    then have "uuid_between ''delegates/'' ''/revoke/'' p = None"
      by (auto simp: uuid_between_def Let_def)
    then have "resolve_delegates p = Some (EXECUTION_STATUS u)"
      using 2 uuid_between_iff [of "''executions/''" "''/''" p u]
      by (auto simp: resolve_delegates_def dest: arg_cong [where f = length])
    moreover have "''/api/'' @ p = url_of r \<and> (\<forall>rest. r \<noteq> ADMIN rest) \<longleftrightarrow> r = EXECUTION_STATUS u"
      using 2 by (cases r) (auto dest: arg_cong [where f = length])
    ultimately show ?thesis by auto
  next
    case plain
    have "p \<noteq> ''delegates/'' @ uuid_str u @ ''/revoke/''" "p \<noteq> ''executions/'' @ uuid_str u @ ''/''" for u
      using plain uuid_between_iff by (metis option.simps(3))+
    with plain show ?thesis
      by (cases r) (auto simp: resolve_delegates_def)
  qed
qed

lemma resolve_url:
  assumes "\<forall>rest. r \<noteq> ADMIN rest"
  shows "resolve (url_of r) = Some r"
proof -
  have api: "prefix ''/api/'' (url_of r)" "\<not> prefix ''/admin/'' (url_of r)"
    using assms by (cases r; simp)+
  then obtain p where p: "url_of r = ''/api/'' @ p" by (auto simp: prefix_def)
  then have "resolve_delegates p = Some r"
    using resolve_delegates_iff assms by metis
  with p api show ?thesis by (simp add: resolve_def)
qed

text \<open>Paths and routes match one to one. Apart from the admin site, a path reaches a handler
  exactly if it is that handler's path, written with the id in its printed form, lower case
  and with hyphens; so no path reaches two handlers, no id is reached by two paths, and
  \<open>resolve\<close> undoes \<open>url_of\<close>.\<close>

theorem resolve_iff_url:
  assumes "\<forall>rest. r \<noteq> ADMIN rest"
  shows "resolve path = Some r \<longleftrightarrow> path = url_of r"
proof
  assume "resolve path = Some r"
  then have "prefix ''/api/'' path" "resolve_delegates (drop 5 path) = Some r"
    using assms by (auto simp: resolve_def split: if_splits)
  then show "path = url_of r"
    using resolve_delegates_iff by (auto simp: prefix_def)
qed (use resolve_url [OF assms] in simp)

lemma resolve_iff_url_witness:
  "resolve ''/api/executions/'' = Some CREATE_EXECUTION \<and> resolve (url_of (REVOKE 5)) = Some (REVOKE 5)"
  using resolve_iff_url [of CREATE_EXECUTION "''/api/executions/''"] resolve_iff_url [of "REVOKE 5" "url_of (REVOKE 5)"]
  by simp

end
