(* ===== verification/Lifecycle.thy ===== *)
theory Lifecycle
  imports Prelude PyText
begin

text \<open>
  What the control plane promises about tokens and delegates, as a small abstract machine:
  a token is issued once and used up by at most one registration, which makes one delegate
  of the token's tenant active; a delegate can only become revoked. The locale \<open>registry\<close> is
  the contract of any system that behaves like it.
\<close>

section \<open>The abstract machine\<close>

datatype token_state = UNUSED string | USED string

record spec =
  sp_tokens :: "string \<rightharpoonup> token_state"
  sp_delegates :: "uuid \<rightharpoonup> string \<times> bool"

text \<open>A delegate is its tenant and whether it is active.\<close>

inductive spec_step :: "spec \<Rightarrow> spec \<Rightarrow> bool" where
  issue: "sp_tokens a tok = None \<Longrightarrow> spec_step a (a\<lparr>sp_tokens := (sp_tokens a)(tok \<mapsto> UNUSED t)\<rparr>)"
| enrol: "sp_tokens a tok = Some (UNUSED t) \<Longrightarrow> sp_delegates a u = None \<Longrightarrow>
    spec_step a (a\<lparr>sp_tokens := (sp_tokens a)(tok \<mapsto> USED t), sp_delegates := (sp_delegates a)(u \<mapsto> (t, True))\<rparr>)"
| revoke: "sp_delegates a u = Some (t, b) \<Longrightarrow> spec_step a (a\<lparr>sp_delegates := (sp_delegates a)(u \<mapsto> (t, False))\<rparr>)"
| stutter: "spec_step a a"

inductive_cases spec_stepE: "spec_step a b"

definition used_tokens :: "spec \<Rightarrow> string set" where
  "used_tokens a = {tok. \<exists>t. sp_tokens a tok = Some (USED t)}"

definition spec_empty :: spec where
  "spec_empty = \<lparr>sp_tokens = Map.empty, sp_delegates = Map.empty\<rparr>"

lemma spec_step_used: "spec_step a b \<Longrightarrow> sp_tokens a tok = Some (USED t) \<Longrightarrow> sp_tokens b tok = Some (USED t)"
  by (erule spec_stepE) auto

lemma spec_step_revoked:
  "spec_step a b \<Longrightarrow> sp_delegates a u = Some (t, False) \<Longrightarrow> sp_delegates b u = Some (t, False)"
  by (erule spec_stepE) auto

lemma spec_step_tenant:
  "spec_step a b \<Longrightarrow> sp_delegates a u = Some (t, x) \<Longrightarrow> \<exists>y. sp_delegates b u = Some (t, y)"
  by (cases rule: spec_step.cases) (auto split: if_splits)

text \<open>Delegates and the tokens that paid for them: equally many, and of the same tenants.\<close>

definition paid_for :: "spec \<Rightarrow> bool" where
  "paid_for a \<longleftrightarrow>
     (\<exists>f. inj_on f (dom (sp_delegates a)) \<and> f ` dom (sp_delegates a) = used_tokens a
        \<and> (\<forall>u t b. sp_delegates a u = Some (t, b) \<longrightarrow> sp_tokens a (f u) = Some (USED t)))"

lemma paid_for_empty: "paid_for spec_empty"
  by (auto simp: paid_for_def spec_empty_def used_tokens_def)

lemma paid_for_step:
  assumes "spec_step a b" and "paid_for a"
  shows "paid_for b"
proof -
  obtain f where f: "inj_on f (dom (sp_delegates a))" "f ` dom (sp_delegates a) = used_tokens a"
    "\<And>u t x. sp_delegates a u = Some (t, x) \<Longrightarrow> sp_tokens a (f u) = Some (USED t)"
    using assms(2) unfolding paid_for_def by blast
  from assms(1) show ?thesis
  proof cases
    case (issue tok t)
    have "tok \<notin> f ` dom (sp_delegates a)" using f(2) issue(2) by (auto simp: used_tokens_def)
    moreover have "used_tokens b = used_tokens a" using issue by (auto simp: used_tokens_def)
    ultimately show ?thesis
      unfolding paid_for_def using f issue(1) by (intro exI [of _ f]) (auto simp: image_iff)
  next
    case (enrol tok t u)
    let ?f = "f(u := tok)"
    have fresh: "tok \<notin> f ` dom (sp_delegates a)" using f(2) enrol(2) by (auto simp: used_tokens_def)
    have dom: "dom (sp_delegates b) = insert u (dom (sp_delegates a))" "u \<notin> dom (sp_delegates a)"
      using enrol by auto
    have same: "?f ` dom (sp_delegates a) = f ` dom (sp_delegates a)" using dom(2) by auto
    have "inj_on ?f (dom (sp_delegates b))"
      using f(1) fresh dom by (auto simp: inj_on_def)
    moreover have "used_tokens b = insert tok (used_tokens a)"
      using enrol by (auto simp: used_tokens_def)
    then have "?f ` dom (sp_delegates b) = used_tokens b"
      by (simp only: dom(1) image_insert same f(2) fun_upd_same)
    moreover have "sp_tokens b (?f v) = Some (USED t')" if "sp_delegates b v = Some (t', x)" for v t' x
      using that f(3) [of v t' x] enrol fresh by (auto simp: image_iff split: if_splits)
    ultimately show ?thesis unfolding paid_for_def by blast
  next
    case (revoke u t x)
    have "dom (sp_delegates b) = dom (sp_delegates a)" "used_tokens b = used_tokens a" "sp_tokens b = sp_tokens a"
      using revoke by (auto simp: used_tokens_def)
    with f revoke show ?thesis
      unfolding paid_for_def by (intro exI [of _ f]) (auto split: if_splits)
  next
    case stutter
    with assms(2) show ?thesis by simp
  qed
qed

section \<open>The contract\<close>

locale registry =
  fixes step :: "'s \<Rightarrow> 's \<Rightarrow> bool" and view :: "'s \<Rightarrow> spec"
  assumes refines: "step s s' \<Longrightarrow> spec_step (view s) (view s')"
begin

lemma run_keeps:
  assumes "rtranclp step s s'" and "\<And>a b. spec_step a b \<Longrightarrow> P a \<Longrightarrow> P b" and "P (view s)"
  shows "P (view s')"
  using assms(1,3) by (induction rule: rtranclp_induct) (auto intro: assms(2) refines)

lemma used_for_good:
  "rtranclp step s s' \<Longrightarrow> sp_tokens (view s) tok = Some (USED t) \<Longrightarrow> sp_tokens (view s') tok = Some (USED t)"
  by (rule run_keeps [where P = "\<lambda>a. sp_tokens a tok = Some (USED t)"]) (auto intro: spec_step_used)

lemma stays_revoked:
  "rtranclp step s s' \<Longrightarrow> sp_delegates (view s) u = Some (t, False) \<Longrightarrow> sp_delegates (view s') u = Some (t, False)"
  by (rule run_keeps [where P = "\<lambda>a. sp_delegates a u = Some (t, False)"]) (auto intro: spec_step_revoked)

lemma tenant_for_good:
  "rtranclp step s s' \<Longrightarrow> sp_delegates (view s) u = Some (t, x) \<Longrightarrow> \<exists>y. sp_delegates (view s') u = Some (t, y)"
  by (rule run_keeps [where P = "\<lambda>a. \<exists>y. sp_delegates a u = Some (t, y)"]) (auto dest: spec_step_tenant)

lemma all_paid_for: "rtranclp step s s' \<Longrightarrow> paid_for (view s) \<Longrightarrow> paid_for (view s')"
  by (rule run_keeps [where P = paid_for]) (auto intro: paid_for_step)

end

end
