(* ===== verification/Gateway.thy ===== *)
theory Gateway
  imports Models Json "HOL-Library.Sublist"
begin

text \<open>
  \<open>control_plane/delegates/management/commands/restart_gateway.py\<close>: the websocket handler
  of each connection, the two coroutines behind the HTTP control endpoint, and its routing.
  The event loop switches tasks at every \<open>await\<close>, and the lookup of a delegate runs in
  another thread: a handler is therefore a small state machine with one step per stretch
  of code between two awaits, and \<open>gw_step\<close> interleaves the handlers of all connections,
  the control requests and the changes others make to the database. A websocket is a
  number. What a peer receives is the record of messages sent and close codes.
\<close>

section \<open>Peer certificates and lookups\<close>

text \<open>The subject of the peer certificate, as the \<open>ssl\<close> module gives it: a list of name parts,
  each a list of pairs. \<open>None\<close> and the empty dictionary have none.\<close>

type_synonym peercert = "(string \<times> string) list list"

fun first_cn :: "(string \<times> string) list \<Rightarrow> string option" where
  "first_cn [] = None"
| "first_cn ((k, v) # rest) = (if k = ''commonName'' then Some v else first_cn rest)"

definition peer_cert_delegate_id :: "peercert option \<Rightarrow> string option" where
  "peer_cert_delegate_id p = (case p of None \<Rightarrow> None | Some rdns \<Rightarrow> first_cn (concat rdns))"

text \<open>Any exception of the query, such as for text that is no UUID, counts as no delegate.\<close>

definition lookup_active_delegate :: "db \<Rightarrow> string \<Rightarrow> (uuid \<times> delegate) option" where
  "lookup_active_delegate d delegate_id =
     (case to_uuid delegate_id of
        Inl e \<Rightarrow> None
      | Inr u \<Rightarrow>
          (case find_delegate d u of
             None \<Rightarrow> None
           | Some row \<Rightarrow> if d_status row = STATUS_ACTIVE then Some (u, row) else None))"

definition gw_audit :: "string \<Rightarrow> uuid \<times> delegate \<Rightarrow> db \<Rightarrow> db" where
  "gw_audit ty del d =
     (case del of (u, row) \<Rightarrow>
        audit ((event ty)\<lparr>a_tenant_id := d_tenant_id row, a_delegate_id := uuid_str u\<rparr>) d)"

section \<open>State\<close>

text \<open>Where the handler of a connection is: at the top of its loop, waiting for the lookup of a
  claimed id, resumed with its result, waiting for a close it has asked for, or over.\<close>

datatype phase =
    Reading
  | Looking string
  | Looked string "(uuid \<times> delegate) option"
  | Closing
  | Over

record conn =
  cn_cert :: "string option"
  cn_id :: "string option"
  cn_phase :: phase

record gw =
  gw_conns :: "nat \<rightharpoonup> conn"
  CONNECTED :: "(string \<times> nat) list"
  gw_db :: db
  gw_sent :: "(nat \<times> string) list"
  gw_closed :: "(nat \<times> nat) list"

definition gw_init :: "db \<Rightarrow> gw" where
  "gw_init d = \<lparr>gw_conns = Map.empty, CONNECTED = [], gw_db = d, gw_sent = [], gw_closed = []\<rparr>"

abbreviation set_conn :: "nat \<Rightarrow> conn \<Rightarrow> gw \<Rightarrow> gw" where
  "set_conn ws c g \<equiv> g\<lparr>gw_conns := (gw_conns g)(ws \<mapsto> c)\<rparr>"

section \<open>The handler of a connection\<close>

definition gw_accept :: "nat \<Rightarrow> peercert option \<Rightarrow> gw \<Rightarrow> gw" where
  "gw_accept ws cert g =
     set_conn ws \<lparr>cn_cert = peer_cert_delegate_id cert, cn_id = None, cn_phase = Reading\<rparr> g"

text \<open>The \<open>finally\<close> block, which every way out of the handler passes.\<close>

definition gw_finally :: "nat \<Rightarrow> conn \<Rightarrow> gw \<Rightarrow> gw" where
  "gw_finally ws c g =
     (let g1 = (case cn_id c of
                  None \<Rightarrow> g
                | Some d \<Rightarrow>
                    if d \<noteq> [] \<and> map_of (CONNECTED g) d = Some ws
                    then g\<lparr>CONNECTED := AList.delete d (CONNECTED g)\<rparr> else g)
      in set_conn ws (c\<lparr>cn_phase := Over\<rparr>) g1)"

text \<open>One message: \<open>loads\<close> is the outcome of \<open>json.loads\<close>.\<close>

definition gw_message :: "nat \<Rightarrow> conn \<Rightarrow> json result \<Rightarrow> gw \<Rightarrow> gw" where
  "gw_message ws c loads g =
     (case ebind loads (\<lambda>data. ebind (body_get data ''type'' JNull) (\<lambda>ty. Inr (data, ty))) of
        Inl e \<Rightarrow> gw_finally ws c g
      | Inr (data, ty) \<Rightarrow>
          if ty \<noteq> JStr ''HELLO'' then g
          else (case body_get data ''delegate_id'' JNull of
                  Inl e \<Rightarrow> gw_finally ws c g
                | Inr claimed \<Rightarrow>
                    (case cn_cert c of
                       None \<Rightarrow> set_conn ws (c\<lparr>cn_phase := Closing\<rparr>) (g\<lparr>gw_closed := gw_closed g @ [(ws, 4001)]\<rparr>)
                     | Some cert \<Rightarrow>
                         if cert = [] \<or> claimed \<noteq> JStr cert
                         then set_conn ws (c\<lparr>cn_phase := Closing\<rparr>) (g\<lparr>gw_closed := gw_closed g @ [(ws, 4001)]\<rparr>)
                         else set_conn ws (c\<lparr>cn_phase := Looking cert\<rparr>) g)))"

text \<open>The thread that runs the query, and the handler resumed with its result.\<close>

definition gw_lookup :: "nat \<Rightarrow> conn \<Rightarrow> string \<Rightarrow> gw \<Rightarrow> gw" where
  "gw_lookup ws c claimed g =
     set_conn ws (c\<lparr>cn_phase := Looked claimed (lookup_active_delegate (gw_db g) claimed)\<rparr>) g"

definition gw_resume :: "nat \<Rightarrow> conn \<Rightarrow> string \<Rightarrow> (uuid \<times> delegate) option \<Rightarrow> gw \<Rightarrow> gw" where
  "gw_resume ws c claimed del g =
     (case del of
        None \<Rightarrow> set_conn ws (c\<lparr>cn_phase := Closing\<rparr>) (g\<lparr>gw_closed := gw_closed g @ [(ws, 4003)]\<rparr>)
      | Some _ \<Rightarrow>
          set_conn ws (c\<lparr>cn_id := Some claimed, cn_phase := Reading\<rparr>)
            (g\<lparr>CONNECTED := AList.update claimed ws (CONNECTED g)\<rparr>))"

section \<open>The control endpoint\<close>

text \<open>\<open>send_restart\<close> up to its second await, the sending, and after it. Sending raises when the
  peer has gone and the handler has not noticed yet: \<open>send ws\<close> is its outcome.\<close>

definition send_restart :: "(nat \<Rightarrow> unit result) \<Rightarrow> string \<Rightarrow> gw \<Rightarrow> gw \<times> bool result" where
  "send_restart send delegate_id g =
     (case map_of (CONNECTED g) delegate_id of
        None \<Rightarrow> (g, Inr False)
      | Some ws \<Rightarrow>
          (case send ws of
             Inl e \<Rightarrow> (g, Inl e)
           | Inr _ \<Rightarrow> (g\<lparr>gw_sent := gw_sent g @ [(ws, ''RESTART'')]\<rparr>, Inr True)))"

definition audit_restart :: "string \<Rightarrow> gw \<Rightarrow> gw" where
  "audit_restart delegate_id g =
     (case lookup_active_delegate (gw_db g) delegate_id of
        None \<Rightarrow> g
      | Some del \<Rightarrow> g\<lparr>gw_db := gw_audit ''DELEGATE_RESTART_SENT'' del (gw_db g)\<rparr>)"

definition gw_disconnect :: "string \<Rightarrow> gw \<Rightarrow> gw \<times> bool" where
  "gw_disconnect delegate_id g =
     (case map_of (CONNECTED g) delegate_id of
        None \<Rightarrow> (g, False)
      | Some ws \<Rightarrow>
          (g\<lparr>CONNECTED := AList.delete delegate_id (CONNECTED g), gw_closed := gw_closed g @ [(ws, 4003)]\<rparr>, True))"

text \<open>\<open>ControlHandler\<close>: the status and the JSON body of an answer, with \<open>None\<close> for an empty body.
  The coroutines are run to their end before the answer is written; when one raises, the
  handler raises too and there is no answer.\<close>

definition do_GET :: "string \<Rightarrow> gw \<Rightarrow> nat \<times> (string \<times> json) option" where
  "do_GET path g =
     (if path = ''/connected''
      then (200, Some (''connected'', JList (map (JStr \<circ> fst) (CONNECTED g))))
      else (404, None))"

definition do_POST ::
    "(nat \<Rightarrow> unit result) \<Rightarrow> string \<Rightarrow> gw \<Rightarrow> gw \<times> (nat \<times> (string \<times> json) option) result" where
  "do_POST send path g =
     (if prefix ''/restart/'' path then
        (case send_restart send (drop 9 path) g of
           (g1, Inl e) \<Rightarrow> (g1, Inl e)
         | (g1, Inr sent) \<Rightarrow>
             let g2 = (if sent then audit_restart (drop 9 path) g1 else g1)
             in (g2, Inr (if sent then 200 else 404, Some (''sent'', JBool sent))))
      else if prefix ''/disconnect/'' path then
        (case gw_disconnect (drop 12 path) g of (g1, closed) \<Rightarrow>
           (g1, Inr (200, Some (''disconnected'', JBool closed))))
      else (g, Inr (404, None)))"

section \<open>Interleavings\<close>

text \<open>No code makes a revoked delegate active again; this is all that is known of what others do
  to the database.\<close>

definition db_evolves :: "db \<Rightarrow> db \<Rightarrow> bool" where
  "db_evolves d d' =
     (\<forall>u row. find_delegate d u = Some row \<and> d_status row = STATUS_REVOKED \<longrightarrow>
        (\<exists>row'. find_delegate d' u = Some row' \<and> d_status row' = STATUS_REVOKED))"

inductive gw_step :: "gw \<Rightarrow> gw \<Rightarrow> bool" where
  accept: "gw_conns g ws = None \<Longrightarrow> gw_step g (gw_accept ws cert g)"
| message: "gw_conns g ws = Some c \<Longrightarrow> cn_phase c = Reading \<Longrightarrow> gw_step g (gw_message ws c loads g)"
| lookup: "gw_conns g ws = Some c \<Longrightarrow> cn_phase c = Looking claimed \<Longrightarrow> gw_step g (gw_lookup ws c claimed g)"
| resume: "gw_conns g ws = Some c \<Longrightarrow> cn_phase c = Looked claimed del \<Longrightarrow> gw_step g (gw_resume ws c claimed del g)"
| leave: "gw_conns g ws = Some c \<Longrightarrow> cn_phase c \<in> {Reading, Closing} \<Longrightarrow> gw_step g (gw_finally ws c g)"
| restart: "gw_step g (fst (send_restart send d g))"
| restarted: "gw_step g (audit_restart d g)"
| disconnect: "gw_step g (fst (gw_disconnect d g))"
| others: "db_evolves (gw_db g) d \<Longrightarrow> gw_step g (g\<lparr>gw_db := d\<rparr>)"

inductive gw_run :: "gw \<Rightarrow> gw \<Rightarrow> bool" where
  start: "gw_run g g"
| step: "gw_run g g' \<Longrightarrow> gw_step g' g'' \<Longrightarrow> gw_run g g''"

inductive_cases gw_stepE: "gw_step g g'"

section \<open>Connections speak for their certificate\<close>

text \<open>Every registered websocket belongs to an open connection whose certificate names the id it
  is registered under, and no handler looks up any other id.\<close>

definition looks_up :: "conn \<Rightarrow> string \<Rightarrow> bool" where
  "looks_up c d = (cn_phase c = Looking d \<or> (\<exists>del. cn_phase c = Looked d del))"

definition gw_wf :: "gw \<Rightarrow> bool" where
  "gw_wf g =
     (distinct (map fst (CONNECTED g))
      \<and> (\<forall>d ws. map_of (CONNECTED g) d = Some ws \<longrightarrow>
           (\<exists>c. gw_conns g ws = Some c \<and> cn_cert c = Some d \<and> cn_id c = Some d \<and> d \<noteq> [] \<and> cn_phase c \<noteq> Over))
      \<and> (\<forall>ws c d. gw_conns g ws = Some c \<longrightarrow> looks_up c d \<longrightarrow> cn_cert c = Some d \<and> d \<noteq> [])
      \<and> (\<forall>ws c d. gw_conns g ws = Some c \<longrightarrow> cn_id c = Some d \<longrightarrow> cn_cert c = Some d \<and> d \<noteq> []))"

lemma gw_wfD:
  assumes "gw_wf g"
  shows "distinct (map fst (CONNECTED g))"
    and "map_of (CONNECTED g) d = Some ws \<Longrightarrow>
           \<exists>c. gw_conns g ws = Some c \<and> cn_cert c = Some d \<and> cn_id c = Some d \<and> d \<noteq> [] \<and> cn_phase c \<noteq> Over"
    and "gw_conns g ws = Some c \<Longrightarrow> looks_up c d \<Longrightarrow> cn_cert c = Some d \<and> d \<noteq> []"
    and "gw_conns g ws = Some c \<Longrightarrow> cn_id c = Some d \<Longrightarrow> cn_cert c = Some d \<and> d \<noteq> []"
  using assms unfolding gw_wf_def by blast+

text \<open>A step of one handler that keeps its certificate and id, is not its end, and looks up no other
  id, keeps this; the fields that are not mentioned do not matter.\<close>

lemma gw_wf_set_conn:
  assumes "gw_wf g" and "gw_conns g ws = Some c" and "gw_conns g' = (gw_conns g)(ws \<mapsto> c')"
    and "CONNECTED g' = CONNECTED g" and "cn_cert c' = cn_cert c" and "cn_id c' = cn_id c" and "cn_phase c' \<noteq> Over"
    and "\<And>d. looks_up c' d \<Longrightarrow> cn_cert c = Some d \<and> d \<noteq> []"
  shows "gw_wf g'"
  unfolding gw_wf_def
proof (intro conjI allI impI)
  show "distinct (map fst (CONNECTED g'))" using gw_wfD(1) [OF assms(1)] assms(4) by simp
next
  fix d v
  assume "map_of (CONNECTED g') d = Some v"
  with gw_wfD(2) [OF assms(1)] assms(4) obtain c1 where c1: "gw_conns g v = Some c1" "cn_cert c1 = Some d"
    "cn_id c1 = Some d" "d \<noteq> []" "cn_phase c1 \<noteq> Over" by metis
  then show "\<exists>c. gw_conns g' v = Some c \<and> cn_cert c = Some d \<and> cn_id c = Some d \<and> d \<noteq> [] \<and> cn_phase c \<noteq> Over"
    using assms(2,3,5,6,7) by (cases "v = ws") auto
next
  fix v c1 d
  assume c1: "gw_conns g' v = Some c1" "looks_up c1 d"
  have "cn_cert c1 = Some d \<and> d \<noteq> []"
  proof (cases "v = ws")
    case True
    with c1 assms(3,5,8) show ?thesis by auto
  next
    case False
    with c1 assms(3) gw_wfD(3) [OF assms(1)] show ?thesis by simp
  qed
  then show "cn_cert c1 = Some d" "d \<noteq> []" by simp_all
next
  fix v c1 d
  assume c1: "gw_conns g' v = Some c1" "cn_id c1 = Some d"
  have "cn_cert c1 = Some d \<and> d \<noteq> []"
  proof (cases "v = ws")
    case True
    with c1 assms(3) have "c1 = c'" by simp
    with c1(2) assms(5,6) gw_wfD(4) [OF assms(1,2), of d] show ?thesis by simp
  next
    case False
    with c1 assms(3) gw_wfD(4) [OF assms(1), of v c1 d] show ?thesis by simp
  qed
  then show "cn_cert c1 = Some d" "d \<noteq> []" by simp_all
qed

lemma gw_wf_finally:
  assumes "gw_wf g" and "gw_conns g ws = Some c"
  shows "gw_wf (gw_finally ws c g)"
proof -
  let ?g = "gw_finally ws c g"
  have conns: "gw_conns ?g = (gw_conns g)(ws \<mapsto> c\<lparr>cn_phase := Over\<rparr>)"
    by (simp add: gw_finally_def Let_def split: option.splits)
  have dist: "distinct (map fst (CONNECTED ?g))"
    using gw_wfD(1) [OF assms(1)]
    by (auto simp: gw_finally_def Let_def distinct_delete split: option.splits)
  have sub: "map_of (CONNECTED g) d = Some v \<and> v \<noteq> ws" if "map_of (CONNECTED ?g) d = Some v" for d v
  proof -
    have old: "map_of (CONNECTED g) d = Some v"
      using that by (auto simp: gw_finally_def Let_def delete_conv' split: option.splits if_splits)
    have "v \<noteq> ws"
    proof
      assume "v = ws"
      with old gw_wfD(2) [OF assms(1), of d ws] assms(2) have "cn_id c = Some d" "d \<noteq> []" by simp_all
      with that old \<open>v = ws\<close> show False
        by (auto simp: gw_finally_def Let_def delete_conv' split: if_splits)
    qed
    with old show ?thesis by simp
  qed
  show ?thesis
    unfolding gw_wf_def
  proof (intro conjI allI impI)
    show "distinct (map fst (CONNECTED ?g))" by (rule dist)
  next
    fix d v
    assume "map_of (CONNECTED ?g) d = Some v"
    from sub [OF this] gw_wfD(2) [OF assms(1)] show
      "\<exists>c. gw_conns ?g v = Some c \<and> cn_cert c = Some d \<and> cn_id c = Some d \<and> d \<noteq> [] \<and> cn_phase c \<noteq> Over"
      by (auto simp: conns)
  next
    fix v c1 d
    assume "gw_conns ?g v = Some c1" "looks_up c1 d"
    then have "gw_conns g v = Some c1" "looks_up c1 d"
      by (auto simp: conns looks_up_def split: if_splits)
    then show "cn_cert c1 = Some d" "d \<noteq> []" using gw_wfD(3) [OF assms(1)] by simp_all
  next
    fix v c1 d
    assume "gw_conns ?g v = Some c1" "cn_id c1 = Some d"
    then show "cn_cert c1 = Some d" "d \<noteq> []"
      using gw_wfD(4) [OF assms(1,2)] gw_wfD(4) [OF assms(1), of v c1] by (auto simp: conns split: if_splits)
  qed
qed

lemma gw_wf_message:
  assumes "gw_wf g" and "gw_conns g ws = Some c" and "cn_phase c = Reading"
  shows "gw_wf (gw_message ws c loads g)"
proof -
  note setc = gw_wf_set_conn [OF assms(1,2)]
  have "gw_wf (set_conn ws (c\<lparr>cn_phase := Closing\<rparr>) (g\<lparr>gw_closed := cl\<rparr>))" for cl
    by (rule setc [where c' = "c\<lparr>cn_phase := Closing\<rparr>"]) (simp_all add: looks_up_def)
  moreover have "gw_wf (set_conn ws (c\<lparr>cn_phase := Looking cert\<rparr>) g)" if "cn_cert c = Some cert" "cert \<noteq> []" for cert
    by (rule setc [where c' = "c\<lparr>cn_phase := Looking cert\<rparr>"]) (use that in \<open>auto simp: looks_up_def\<close>)
  ultimately show ?thesis
    using gw_wf_finally [OF assms(1,2)] assms(1)
    by (auto simp: gw_message_def split: sum.splits option.splits)
qed

lemma gw_wf_resume:
  assumes "gw_wf g" and "gw_conns g ws = Some c" and "cn_phase c = Looked d del"
  shows "gw_wf (gw_resume ws c d del g)"
proof (cases del)
  case None
  have "gw_wf (set_conn ws (c\<lparr>cn_phase := Closing\<rparr>) (g\<lparr>gw_closed := cl\<rparr>))" for cl
    by (rule gw_wf_set_conn [OF assms(1,2), where c' = "c\<lparr>cn_phase := Closing\<rparr>"]) (simp_all add: looks_up_def)
  with None show ?thesis by (simp add: gw_resume_def)
next
  case (Some row)
  let ?g = "gw_resume ws c d del g"
  have cert: "cn_cert c = Some d" "d \<noteq> []" using gw_wfD(3) [OF assms(1,2)] assms(3) by (simp_all add: looks_up_def)
  have conns: "gw_conns ?g = (gw_conns g)(ws \<mapsto> c\<lparr>cn_id := Some d, cn_phase := Reading\<rparr>)"
    and con: "CONNECTED ?g = AList.update d ws (CONNECTED g)"
    by (simp_all add: gw_resume_def Some)
  show ?thesis
    unfolding gw_wf_def
  proof (intro conjI allI impI)
    show "distinct (map fst (CONNECTED ?g))" using gw_wfD(1) [OF assms(1)] by (simp add: con distinct_update)
  next
    fix e v
    assume e: "map_of (CONNECTED ?g) e = Some v"
    show "\<exists>c. gw_conns ?g v = Some c \<and> cn_cert c = Some e \<and> cn_id c = Some e \<and> e \<noteq> [] \<and> cn_phase c \<noteq> Over"
    proof (cases "e = d")
      case True
      with e con conns cert show ?thesis by (simp add: update_conv')
    next
      case False
      with e con have "map_of (CONNECTED g) e = Some v" by (simp add: update_conv')
      with gw_wfD(2) [OF assms(1)] obtain c1 where c1: "gw_conns g v = Some c1" "cn_cert c1 = Some e"
        "cn_id c1 = Some e" "e \<noteq> []" "cn_phase c1 \<noteq> Over" by blast
      with cert assms(2) False have "v \<noteq> ws" by auto
      with c1 conns show ?thesis by simp
    qed
  next
    fix v c1 e
    assume "gw_conns ?g v = Some c1" "looks_up c1 e"
    then have "gw_conns g v = Some c1" "looks_up c1 e"
      by (auto simp: conns looks_up_def split: if_splits)
    then show "cn_cert c1 = Some e" "e \<noteq> []" using gw_wfD(3) [OF assms(1)] by simp_all
  next
    fix v c1 e
    assume "gw_conns ?g v = Some c1" "cn_id c1 = Some e"
    then show "cn_cert c1 = Some e" "e \<noteq> []"
      using gw_wfD(4) [OF assms(1)] cert by (auto simp: conns split: if_splits)
  qed
qed

lemma gw_wf_lookup:
  assumes "gw_wf g" and "gw_conns g ws = Some c" and "cn_phase c = Looking d"
  shows "gw_wf (gw_lookup ws c d g)"
  unfolding gw_lookup_def
  by (rule gw_wf_set_conn [OF assms(1,2), where c' = "c\<lparr>cn_phase := Looked d (lookup_active_delegate (gw_db g) d)\<rparr>"])
    (use gw_wfD(3) [OF assms(1,2)] assms(3) in \<open>auto simp: looks_up_def\<close>)

lemma gw_wf_accept:
  assumes "gw_wf g" and "gw_conns g ws = None"
  shows "gw_wf (gw_accept ws cert g)"
proof -
  let ?g = "gw_accept ws cert g"
  have new: "gw_conns ?g v = (if v = ws then Some \<lparr>cn_cert = peer_cert_delegate_id cert, cn_id = None, cn_phase = Reading\<rparr>
      else gw_conns g v)" "CONNECTED ?g = CONNECTED g" for v
    by (simp_all add: gw_accept_def)
  show ?thesis
    unfolding gw_wf_def
  proof (intro conjI allI impI)
    show "distinct (map fst (CONNECTED ?g))" using gw_wfD(1) [OF assms(1)] by (simp add: new)
  next
    fix d v
    assume "map_of (CONNECTED ?g) d = Some v"
    with gw_wfD(2) [OF assms(1)] new(2) obtain c1 where "gw_conns g v = Some c1" "cn_cert c1 = Some d"
      "cn_id c1 = Some d" "d \<noteq> []" "cn_phase c1 \<noteq> Over" by metis
    then show "\<exists>c. gw_conns ?g v = Some c \<and> cn_cert c = Some d \<and> cn_id c = Some d \<and> d \<noteq> [] \<and> cn_phase c \<noteq> Over"
      using assms(2) new(1) [of v] by (cases "v = ws") auto
  next
    fix v c1 d
    assume "gw_conns ?g v = Some c1" "looks_up c1 d"
    then show "cn_cert c1 = Some d" "d \<noteq> []"
      using gw_wfD(3) [OF assms(1), of v c1 d] by (auto simp: new(1) looks_up_def split: if_splits)
  next
    fix v c1 d
    assume "gw_conns ?g v = Some c1" "cn_id c1 = Some d"
    then show "cn_cert c1 = Some d" "d \<noteq> []"
      using gw_wfD(4) [OF assms(1), of v c1 d] by (auto simp: new(1) split: if_splits)
  qed
qed

lemma gw_wf_shrink:
  assumes "gw_wf g" and "gw_conns g' = gw_conns g" and "distinct (map fst (CONNECTED g'))"
    and "\<And>d ws. map_of (CONNECTED g') d = Some ws \<Longrightarrow> map_of (CONNECTED g) d = Some ws"
  shows "gw_wf g'"
  using assms(1) gw_wfD(2) [OF assms(1) assms(4)] assms(2,3)
  by (simp add: gw_wf_def)

lemma gw_wf_same: "gw_wf g \<Longrightarrow> gw_conns g' = gw_conns g \<Longrightarrow> CONNECTED g' = CONNECTED g \<Longrightarrow> gw_wf g'"
  by (simp add: gw_wf_def)

lemma gw_wf_disconnect: "gw_wf g \<Longrightarrow> gw_wf (fst (gw_disconnect d g))"
  by (rule gw_wf_shrink, assumption)
    (auto simp: gw_disconnect_def delete_conv' distinct_delete dest: gw_wfD(1) split: option.splits if_splits)

theorem gw_step_wf: "gw_step g g' \<Longrightarrow> gw_wf g \<Longrightarrow> gw_wf g'"
proof (induction rule: gw_step.induct)
  case (restart g send d)
  then show ?case by (rule gw_wf_same) (simp_all add: send_restart_def split: option.splits sum.splits)
next
  case (restarted g d)
  then show ?case by (rule gw_wf_same) (simp_all add: audit_restart_def split: option.splits)
next
  case (others g d)
  then show ?case by (simp add: gw_wf_same [of g])
qed (simp_all add: gw_wf_accept gw_wf_message gw_wf_lookup gw_wf_resume gw_wf_finally gw_wf_disconnect)

interpretation wf_inv: invariant_of gw_step gw_wf
  by unfold_locales (rule gw_step_wf)

lemma gw_run_steps: "gw_run g g' \<Longrightarrow> rtranclp gw_step g g'"
  by (induction rule: gw_run.induct) (auto intro: rtranclp.rtrancl_into_rtrancl)

lemmas gw_run_wf = wf_inv.run_keeps_inv [OF gw_run_steps]

lemma gw_wf_init: "gw_wf (gw_init d)"
  by (simp add: gw_wf_def gw_init_def)

text \<open>C30: A restart goes to the delegate's own agent. In every state the gateway can reach, a RESTART
  sent for a delegate goes down exactly one websocket, which is open and whose TLS client
  certificate names that delegate; websockets of two delegates are never the same, and an id
  nobody's certificate names gets nothing.\<close>

theorem restart_reaches_certified:
  assumes "gw_run (gw_init d) g"
  shows "case send_restart send did g of
      (g1, Inr False) \<Rightarrow> g1 = g \<and> did \<notin> fst ` set (CONNECTED g)
    | (g1, Inl e) \<Rightarrow> g1 = g \<and> did \<in> fst ` set (CONNECTED g)
    | (g1, Inr True) \<Rightarrow> \<exists>ws c. gw_sent g1 = gw_sent g @ [(ws, ''RESTART'')] \<and> gw_conns g ws = Some c
        \<and> cn_cert c = Some did \<and> cn_phase c \<noteq> Over
        \<and> (\<forall>e. map_of (CONNECTED g) e = Some ws \<longrightarrow> e = did)"
proof (cases "map_of (CONNECTED g) did")
  case None
  then have "did \<notin> fst ` set (CONNECTED g)" by (simp add: map_of_eq_None_iff)
  with None show ?thesis by (simp add: send_restart_def)
next
  case (Some ws)
  then have key: "did \<in> fst ` set (CONNECTED g)" by (metis map_of_eq_None_iff option.distinct(1))
  note wf = gw_run_wf [OF assms gw_wf_init]
  from gw_wfD(2) [OF wf Some] obtain c where c: "gw_conns g ws = Some c" "cn_cert c = Some did" "cn_phase c \<noteq> Over"
    by blast
  have uniq: "\<forall>e. map_of (CONNECTED g) e = Some ws \<longrightarrow> e = did"
    using gw_wfD(2) [OF wf] c(1,2) by fastforce
  show ?thesis
  proof (cases "send ws")
    case (Inl e)
    with Some key show ?thesis by (simp add: send_restart_def)
  next
    case (Inr v)
    have eq: "send_restart send did g = (g\<lparr>gw_sent := gw_sent g @ [(ws, ''RESTART'')]\<rparr>, Inr True)"
      by (simp add: send_restart_def Some Inr)
    show ?thesis
      unfolding eq prod.case sum.case bool.case by (intro exI [of _ ws] exI [of _ c] conjI c uniq) simp
  qed
qed

section \<open>Revoked delegates\<close>

text \<open>A handler that has looked a delegate up while it was active, and has not resumed yet.\<close>

definition pending :: "gw \<Rightarrow> string \<Rightarrow> bool" where
  "pending g d = (\<exists>ws c del. gw_conns g ws = Some c \<and> cn_phase c = Looked d (Some del))"

definition cut_off :: "gw \<Rightarrow> string \<Rightarrow> uuid \<Rightarrow> bool" where
  "cut_off g d u =
     (map_of (CONNECTED g) d = None \<and> \<not> pending g d
      \<and> (\<exists>row. find_delegate (gw_db g) u = Some row \<and> d_status row = STATUS_REVOKED))"

text \<open>A step that registers no one new for \<open>d\<close>, changes no revoked row and moves at most the
  handler of one connection to a phase that is not pending for \<open>d\<close>.\<close>

lemma cut_off_step:
  assumes "cut_off g d u" and "db_evolves (gw_db g) (gw_db g')"
    and "map_of (CONNECTED g') d = None"
    and "gw_conns g' = gw_conns g
      \<or> (\<exists>ws c'. gw_conns g' = (gw_conns g)(ws \<mapsto> c') \<and> (\<forall>del. cn_phase c' \<noteq> Looked d (Some del)))"
  shows "cut_off g' d u"
proof -
  have "\<not> pending g' d"
    using assms(1,4) unfolding cut_off_def pending_def by (auto split: if_splits)
  with assms(1-3) show ?thesis by (auto simp: cut_off_def db_evolves_def)
qed

lemma db_evolves_refl [simp]: "db_evolves d d"
  by (auto simp: db_evolves_def)

lemma lookup_revoked:
  assumes "to_uuid d = Inr u" and "find_delegate db u = Some row" and "d_status row = STATUS_REVOKED"
  shows "lookup_active_delegate db d = None"
  using assms by (simp add: lookup_active_delegate_def)

lemma gw_finally_facts:
  "gw_db (gw_finally ws c g) = gw_db g"
  "gw_conns (gw_finally ws c g) = (gw_conns g)(ws \<mapsto> c\<lparr>cn_phase := Over\<rparr>)"
  "map_of (CONNECTED g) d = None \<Longrightarrow> map_of (CONNECTED (gw_finally ws c g)) d = None"
  by (auto simp: gw_finally_def Let_def delete_conv' split: option.splits)

lemma cut_off_finally: "cut_off g d u \<Longrightarrow> cut_off (gw_finally ws c g) d u"
  by (rule cut_off_step [of g], assumption)
    (auto simp: gw_finally_facts cut_off_def intro!: disjI2 exI [of _ ws] exI [of _ "c\<lparr>cn_phase := Over\<rparr>"])

lemma cut_off_set:
  assumes "cut_off g d u" and "gw_conns g' = (gw_conns g)(ws \<mapsto> c')" and "CONNECTED g' = CONNECTED g" and "gw_db g' = gw_db g"
    and "\<And>del. cn_phase c' \<noteq> Looked d (Some del)"
  shows "cut_off g' d u"
  by (rule cut_off_step [OF assms(1)])
    (use assms in \<open>auto simp: cut_off_def intro!: disjI2 exI [of _ ws] exI [of _ c']\<close>)

lemma cut_off_message:
  assumes "cut_off g d u"
  shows "cut_off (gw_message ws c loads g) d u"
proof -
  have "cut_off (set_conn ws (c\<lparr>cn_phase := Closing\<rparr>) (g\<lparr>gw_closed := cl\<rparr>)) d u" for cl
    by (rule cut_off_set [OF assms, where c' = "c\<lparr>cn_phase := Closing\<rparr>"]) simp_all
  moreover have "cut_off (set_conn ws (c\<lparr>cn_phase := Looking cert\<rparr>) g) d u" for cert
    by (rule cut_off_set [OF assms, where c' = "c\<lparr>cn_phase := Looking cert\<rparr>"]) simp_all
  ultimately show ?thesis
    using cut_off_finally [OF assms] assms by (simp add: gw_message_def split: sum.splits option.splits)
qed

lemma cut_off_lookup:
  assumes "cut_off g d u" and "to_uuid d = Inr u"
  shows "cut_off (gw_lookup ws c e g) d u"
proof -
  have "lookup_active_delegate (gw_db g) d = None"
    using assms lookup_revoked unfolding cut_off_def by blast
  then show ?thesis
    unfolding gw_lookup_def by (intro cut_off_set [OF assms(1)]) auto
qed

lemma cut_off_resume:
  assumes "cut_off g d u" and "gw_conns g ws = Some c" and "cn_phase c = Looked e del"
  shows "cut_off (gw_resume ws c e del g) d u"
proof (cases del)
  case None
  then show ?thesis
    unfolding gw_resume_def by (auto intro!: cut_off_set [OF assms(1)])
next
  case (Some x)
  with assms have "e \<noteq> d" by (cases x) (auto simp: cut_off_def pending_def)
  with Some show ?thesis
    by (intro cut_off_step [OF assms(1)])
      (use assms(1) in \<open>auto simp: gw_resume_def update_conv' cut_off_def
        intro!: disjI2 exI [of _ ws] exI [of _ "c\<lparr>cn_id := Some e, cn_phase := Reading\<rparr>"]\<close>)
qed

lemma cut_off_keeps:
  assumes "gw_step g g'" and "cut_off g d u" and "to_uuid d = Inr u"
  shows "cut_off g' d u"
  using assms
proof (induction rule: gw_step.induct)
  case (accept g ws cert)
  show ?case
    by (rule cut_off_set [OF accept.prems(1), of _ ws "\<lparr>cn_cert = peer_cert_delegate_id cert, cn_id = None, cn_phase = Reading\<rparr>"])
      (simp_all add: gw_accept_def)
next
  case (restart g send e)
  then show ?case by (simp add: send_restart_def cut_off_def pending_def split: option.splits sum.splits)
next
  case (restarted g e)
  then show ?case
    by (auto simp: audit_restart_def cut_off_def pending_def gw_audit_def split: option.splits prod.splits)
next
  case (disconnect g e)
  then show ?case by (auto simp: gw_disconnect_def cut_off_def pending_def delete_conv' split: option.splits)
next
  case (others g db)
  then show ?case by (auto simp: cut_off_def pending_def db_evolves_def)
qed (auto intro: cut_off_message cut_off_lookup cut_off_resume cut_off_finally)

interpretation cut_off_inv: invariant_of gw_step "\<lambda>g. cut_off g d u \<and> to_uuid d = Inr u" for d u
  by unfold_locales (use cut_off_keeps in blast)

text \<open>C32: Revocation ends the restart channel, outside one window. Once a delegate is revoked and
  disconnected, and no handler is between a lookup made before the revocation and its
  registration, no interleaving of connections, messages, lookups and control requests
  connects it again, and no restart is sent for it.\<close>

theorem revoked_stays_disconnected:
  assumes "gw_run g g'" and "to_uuid d = Inr u"
    and "find_delegate (gw_db g) u = Some row" and "d_status row = STATUS_REVOKED"
    and "map_of (CONNECTED g) d = None" and "\<not> pending g d"
  shows "d \<notin> fst ` set (CONNECTED g') \<and> send_restart send d g' = (g', Inr False)"
proof -
  have "cut_off g d u" using assms(3-6) by (simp add: cut_off_def)
  with assms(2) have "cut_off g' d u"
    using cut_off_inv.run_keeps_inv [OF gw_run_steps [OF assms(1)]] by blast
  then have none: "map_of (CONNECTED g') d = None" by (simp add: cut_off_def)
  then have "d \<notin> fst ` set (CONNECTED g')" by (simp add: map_of_eq_None_iff)
  with none show ?thesis by (simp add: send_restart_def)
qed

section \<open>The window\<close>

text \<open>A delegate, its agent's HELLO and the delegate's revocation, for the examples.\<close>

definition sample_active :: delegate where
  "sample_active =
     \<lparr>d_tenant_id = ''acme'', d_name = ''d'', d_queue = ''default'', d_concurrency = 1, d_cert_serial = ''1'',
      d_cert_pem = [], d_cert_expires_at = 0, d_status = STATUS_ACTIVE\<rparr>"

definition active_db :: db where
  "active_db = put_delegate 5 sample_active empty_db"

definition revoked_db :: db where
  "revoked_db = put_delegate 5 (sample_active\<lparr>d_status := STATUS_REVOKED\<rparr>) empty_db"

definition hello :: json where
  "hello = JObj [(''type'', JStr ''HELLO''), (''delegate_id'', JStr (uuid_str 5))]"

lemma sample_db_facts [simp]:
  "find_delegate active_db 5 = Some sample_active" "d_status sample_active = STATUS_ACTIVE"
  "find_delegate revoked_db 5 = Some (sample_active\<lparr>d_status := STATUS_REVOKED\<rparr>)"
  "db_evolves active_db revoked_db"
  by (auto simp: active_db_def revoked_db_def sample_active_def db_evolves_def)

text \<open>The connection of the delegate's agent, up to the lookup.\<close>

definition looked_up :: gw where
  "looked_up = (gw_init active_db)\<lparr>gw_conns := [7 \<mapsto>
     \<lparr>cn_cert = Some (uuid_str 5), cn_id = None, cn_phase = Looked (uuid_str 5) (Some (5, sample_active))\<rparr>]\<rparr>"

lemma looked_up_reachable: "gw_run (gw_init active_db) looked_up"
proof -
  let ?c = "\<lparr>cn_cert = Some (uuid_str 5), cn_id = None, cn_phase = Reading\<rparr>"
  let ?g1 = "gw_accept 7 (Some [[(''commonName'', uuid_str 5)]]) (gw_init active_db)"
  have c1: "gw_conns ?g1 7 = Some ?c" by (simp add: gw_accept_def peer_cert_delegate_id_def)
  let ?g2 = "gw_message 7 ?c (Inr hello) ?g1"
  have g2: "?g2 = set_conn 7 (?c\<lparr>cn_phase := Looking (uuid_str 5)\<rparr>) ?g1"
    using uuid_str_hd_last(1) [of 5] by (simp add: gw_message_def hello_def)
  have "gw_step (gw_init active_db) ?g1" by (rule gw_step.accept) (simp add: gw_init_def)
  then have "gw_run (gw_init active_db) ?g1" by (rule gw_run.step [OF gw_run.start])
  moreover have "gw_step ?g1 ?g2" by (rule gw_step.message [OF c1]) simp
  ultimately have "gw_run (gw_init active_db) ?g2" by (rule gw_run.step)
  moreover have "gw_step ?g2 (gw_lookup 7 (?c\<lparr>cn_phase := Looking (uuid_str 5)\<rparr>) (uuid_str 5) ?g2)"
    by (rule gw_step.lookup) (simp_all add: g2)
  ultimately have "gw_run (gw_init active_db) (gw_lookup 7 (?c\<lparr>cn_phase := Looking (uuid_str 5)\<rparr>) (uuid_str 5) ?g2)"
    by (rule gw_run.step)
  moreover have "gw_lookup 7 (?c\<lparr>cn_phase := Looking (uuid_str 5)\<rparr>) (uuid_str 5) ?g2 = looked_up"
    unfolding g2 by (simp add: gw_lookup_def looked_up_def gw_accept_def gw_init_def lookup_active_delegate_def
        peer_cert_delegate_id_def)
  ultimately show ?thesis by simp
qed

text \<open>C33: The window is real. There is a run in which a delegate is looked up while active, then
  revoked, then disconnected by the revocation, to no effect since it is not registered yet,
  and then registered: it stays connected and receives restarts although it is revoked.\<close>

theorem revoked_can_stay_connected:
  "\<exists>g g1 g2 ws. gw_run (gw_init active_db) g
     \<and> lookup_active_delegate (gw_db g) (uuid_str 5) = None
     \<and> gw_disconnect (uuid_str 5) g = (g1, False) \<and> gw_step g1 g2
     \<and> map_of (CONNECTED g2) (uuid_str 5) = Some ws \<and> snd (send_restart (\<lambda>_. Inr ()) (uuid_str 5) g2) = Inr True"
proof -
  let ?c = "\<lparr>cn_cert = Some (uuid_str 5), cn_id = None, cn_phase = Looked (uuid_str 5) (Some (5, sample_active))\<rparr>"
  let ?g = "looked_up\<lparr>gw_db := revoked_db\<rparr>"
  have "gw_step looked_up ?g"
    by (rule gw_step.others) (simp add: looked_up_def gw_init_def)
  then have "gw_run (gw_init active_db) ?g" using looked_up_reachable gw_run.step by blast
  moreover have "lookup_active_delegate (gw_db ?g) (uuid_str 5) = None"
    by (simp add: lookup_active_delegate_def)
  moreover have "gw_disconnect (uuid_str 5) ?g = (?g, False)"
    by (simp add: gw_disconnect_def looked_up_def gw_init_def)
  moreover have "gw_step ?g (gw_resume 7 ?c (uuid_str 5) (Some (5, sample_active)) ?g)"
    by (rule gw_step.resume) (simp_all add: looked_up_def)
  moreover have "map_of (CONNECTED (gw_resume 7 ?c (uuid_str 5) (Some (5, sample_active)) ?g)) (uuid_str 5) = Some 7"
    by (simp add: gw_resume_def looked_up_def gw_init_def)
  ultimately show ?thesis by (fastforce simp: send_restart_def)
qed

lemma restart_reaches_certified_witness:
  "\<exists>g1. send_restart (\<lambda>_. Inr ()) (uuid_str 5) (gw_resume 7
        \<lparr>cn_cert = Some (uuid_str 5), cn_id = None, cn_phase = Looked (uuid_str 5) (Some (5, sample_active))\<rparr>
        (uuid_str 5) (Some (5, sample_active)) looked_up) = (g1, Inr True)
     \<and> gw_sent g1 = [(7, ''RESTART'')]"
proof -
  let ?c = "\<lparr>cn_cert = Some (uuid_str 5), cn_id = None, cn_phase = Looked (uuid_str 5) (Some (5, sample_active))\<rparr>"
  let ?g = "gw_resume 7 ?c (uuid_str 5) (Some (5, sample_active)) looked_up"
  have "gw_step looked_up ?g" by (rule gw_step.resume) (simp_all add: looked_up_def)
  then have run: "gw_run (gw_init active_db) ?g" using looked_up_reachable gw_run.step by blast
  have g: "gw_sent ?g = []" "map_of (CONNECTED ?g) (uuid_str 5) = Some 7" "gw_conns ?g ws = Some c \<Longrightarrow> ws = 7" for ws c
    by (auto simp: gw_resume_def looked_up_def gw_init_def split: if_splits)
  obtain g1 where "send_restart (\<lambda>_. Inr ()) (uuid_str 5) ?g = (g1, Inr True)" using g(2) by (simp add: send_restart_def)
  with restart_reaches_certified [OF run, of "uuid_str 5" "\<lambda>_. Inr ()"] g show ?thesis by auto
qed

lemma revoked_stays_disconnected_witness:
  "uuid_str 5 \<notin> fst ` set (CONNECTED (gw_accept 7 None (gw_init revoked_db)))"
proof -
  have "gw_step (gw_init revoked_db) (gw_accept 7 None (gw_init revoked_db))"
    by (rule gw_step.accept) (simp add: gw_init_def)
  then have run: "gw_run (gw_init revoked_db) (gw_accept 7 None (gw_init revoked_db))"
    using gw_run.start gw_run.step by blast
  show ?thesis
    using revoked_stays_disconnected [OF run to_uuid_str [of 5]]
    by (simp add: gw_init_def pending_def)
qed

end
