(* ===== verification/Sha256.thy ===== *)
theory Sha256
  imports Base64 PyText
begin

unbundle bit_operations_syntax

text \<open>
  \<open>hashlib.sha256(data).hexdigest()\<close>, the digest with which a transfer is checked: the
  message is padded to whole blocks of 64 bytes, each block is expanded to 64 words and
  folded into eight 32-bit words, and the digest is printed as 64 hexadecimal digits.
\<close>

type_synonym u32 = "32 word"

text \<open>The constants, eight words to a number.\<close>

definition eight_words :: "nat \<Rightarrow> u32 list" where
  "eight_words n = map (\<lambda>i. word_of_nat (n div 2 ^ (32 * (7 - i)))) [0..<8]"

definition sha_k :: "u32 list" where
  "sha_k = concat (map eight_words
     [0x428a2f9871374491b5c0fbcfe9b5dba53956c25b59f111f1923f82a4ab1c5ed5,
      0xd807aa9812835b01243185be550c7dc372be5d7480deb1fe9bdc06a7c19bf174,
      0xe49b69c1efbe47860fc19dc6240ca1cc2de92c6f4a7484aa5cb0a9dc76f988da,
      0x983e5152a831c66db00327c8bf597fc7c6e00bf3d5a7914706ca635114292967,
      0x27b70a852e1b21384d2c6dfc53380d13650a7354766a0abb81c2c92e92722c85,
      0xa2bfe8a1a81a664bc24b8b70c76c51a3d192e819d6990624f40e3585106aa070,
      0x19a4c1161e376c082748774c34b0bcb5391c0cb34ed8aa4a5b9cca4f682e6ff3,
      0x748f82ee78a5636f84c878148cc7020890befffaa4506cebbef9a3f7c67178f2])"

definition sha_init :: "u32 list" where
  "sha_init = eight_words
     0x6a09e667bb67ae853c6ef372a54ff53a510e527f9b05688c1f83d9ab5be0cd19"

definition rotr :: "nat \<Rightarrow> u32 \<Rightarrow> u32" where
  "rotr n w = (drop_bit n w) OR (push_bit (32 - n) w)"

text \<open>Big-endian words from bytes and bytes from a length.\<close>

definition word_of_bytes :: "bytes \<Rightarrow> u32" where
  "word_of_bytes bs = foldl (\<lambda>a b. push_bit 8 a OR ucast b) 0 bs"

fun blocks_of :: "nat \<Rightarrow> bytes \<Rightarrow> nat \<Rightarrow> bytes list" where
  "blocks_of w bs 0 = []"
| "blocks_of w bs (Suc k) = take w bs # blocks_of w (drop w bs) k"

definition be_bytes :: "nat \<Rightarrow> nat \<Rightarrow> bytes" where
  "be_bytes k n = map (\<lambda>i. word_of_nat (n div 256 ^ (k - 1 - i))) [0..<k]"

definition sha_pad :: "bytes \<Rightarrow> bytes" where
  "sha_pad bs =
     (let zeros = (119 - length bs mod 64) mod 64
      in bs @ [0x80] @ replicate zeros 0 @ be_bytes 8 (8 * length bs))"

text \<open>The message schedule, kept newest word first: word \<open>t\<close> comes from words \<open>t-2\<close>,
  \<open>t-7\<close>, \<open>t-15\<close> and \<open>t-16\<close>.\<close>

definition sha_sched_next :: "u32 list \<Rightarrow> u32" where
  "sha_sched_next ws =
     (let w2 = ws ! 1; w15 = ws ! 14;
          s0 = (rotr 7 w15) XOR (rotr 18 w15) XOR (drop_bit 3 w15);
          s1 = (rotr 17 w2) XOR (rotr 19 w2) XOR (drop_bit 10 w2)
      in ws ! 15 + s0 + ws ! 6 + s1)"

fun sha_extend :: "nat \<Rightarrow> u32 list \<Rightarrow> u32 list" where
  "sha_extend 0 ws = ws"
| "sha_extend (Suc k) ws = sha_extend k (sha_sched_next ws # ws)"

fun sha_round :: "u32 list \<Rightarrow> u32 \<times> u32 \<Rightarrow> u32 list" where
  "sha_round [a, b, c, d, e, f, g, h] (k, w) =
     (let s1 = (rotr 6 e) XOR (rotr 11 e) XOR (rotr 25 e);
          ch = (e AND f) XOR ((NOT e) AND g);
          t1 = h + s1 + ch + k + w;
          s0 = (rotr 2 a) XOR (rotr 13 a) XOR (rotr 22 a);
          maj = (a AND b) XOR (a AND c) XOR (b AND c)
      in [t1 + (s0 + maj), a, b, c, d + t1, e, f, g])"
| "sha_round st _ = st"

definition sha_block :: "u32 list \<Rightarrow> bytes \<Rightarrow> u32 list" where
  "sha_block st block =
     (let ws = rev (sha_extend 48 (rev (map word_of_bytes (blocks_of 4 block 16))))
      in map2 (+) st (foldl sha_round st (zip sha_k ws)))"

definition sha256_words :: "bytes \<Rightarrow> u32 list" where
  "sha256_words bs =
     (let p = sha_pad bs in foldl sha_block sha_init (blocks_of 64 p (length p div 64)))"

definition sha256_hexdigest :: "bytes \<Rightarrow> string" where
  "sha256_hexdigest bs =
     concat (map (\<lambda>w. map digit_char (hex_digits 8 (unat w))) (sha256_words bs))"

section \<open>Shape of the digest\<close>

lemma length_sha_round: "length st = 8 \<Longrightarrow> length (sha_round st kw) = 8"
  by (induction st kw rule: sha_round.induct) (auto simp: Let_def)

lemma length_foldl_sha_round: "length st = 8 \<Longrightarrow> length (foldl sha_round st kws) = 8"
  by (induction kws arbitrary: st) (auto simp: length_sha_round)

lemma length_sha_block: "length st = 8 \<Longrightarrow> length (sha_block st b) = 8"
  by (simp add: sha_block_def Let_def length_foldl_sha_round)

lemma length_foldl_sha_block: "length st = 8 \<Longrightarrow> length (foldl sha_block st bs) = 8"
  by (induction bs arbitrary: st) (auto simp: length_sha_block)

lemma length_sha256_words [simp]: "length (sha256_words bs) = 8"
  by (simp add: sha256_words_def Let_def length_foldl_sha_block sha_init_def eight_words_def)

lemma length_sha256_hexdigest [simp]: "length (sha256_hexdigest bs) = 64"
proof -
  have "length (concat (map (\<lambda>w. map digit_char (hex_digits 8 (unat w))) ws)) = 8 * length ws"
    for ws :: "u32 list"
    by (induction ws) auto
  then show ?thesis by (simp add: sha256_hexdigest_def)
qed

lemma sha256_hexdigest_chars: "set (sha256_hexdigest bs) \<subseteq> set digit_table"
  by (auto simp: sha256_hexdigest_def intro: digit_char_mem dest: hex_digits_bound)

text \<open>The padded message is a whole number of blocks.\<close>

lemma sha_pad_blocks: "length (sha_pad bs) mod 64 = 0"
proof -
  have "(n + 1 + (119 - n mod 64) mod 64 + 8) mod 64 = 0" for n :: nat
  proof -
    define r where "r = n mod 64"
    have r: "r < 64" by (simp add: r_def)
    have "(119 - r) mod 64 = (if r \<le> 55 then 55 - r else 119 - r)"
      using r le_mod_geq [of 64 "119 - r"] by auto
    with r have "r + (1 + (119 - r) mod 64 + 8) = 64 \<or> r + (1 + (119 - r) mod 64 + 8) = 128"
      by auto
    then have "(r + (1 + (119 - r) mod 64 + 8)) mod 64 = 0" by (elim disjE ssubst) simp_all
    then show ?thesis
      unfolding r_def by (simp only: mod_add_left_eq add.assoc)
  qed
  from this [of "length bs"] show ?thesis
    by (simp add: sha_pad_def Let_def be_bytes_def ac_simps)
qed

end
