(* ===== verification/Chunked.thy ===== *)
theory Chunked
  imports PosixPath Sha256
begin

text \<open>
  \<open>shared/delegate_protocol/chunked_transfer.py\<close>: packing a workspace, the sender that
  turns a payload into DATA_START, DATA_CHUNK and DATA_END messages, and the receiver that
  puts it together again. What a receiver does with a message is stated once, as the
  reference machine \<open>xfer_step\<close>; the locale \<open>chunk_sink\<close> is the contract of any
  implementation of it, and carries the lemmas on whole transfers.
\<close>

section \<open>Packing files\<close>

definition CHUNK_SIZE :: int where
  "CHUNK_SIZE = 256 * 1024"

text \<open>Reading the named files in order; the first failing read ends the call.\<close>

fun read_entries :: "host \<Rightarrow> (string \<times> string) list \<Rightarrow> (string \<times> bytes) list result" where
  "read_entries h [] = Inr []"
| "read_entries h ((path, arcname) # rest) =
     ebind (read_file h path) (\<lambda>data.
     ebind (read_entries h rest) (\<lambda>es. Inr ((arcname, data) # es)))"

definition zip_directory_to_bytes :: "host \<Rightarrow> string \<Rightarrow> bytes result" where
  "zip_directory_to_bytes h src_dir =
     (let paths = concat (map (\<lambda>(root, files). map (py_join root) files) (walk h src_dir));
          named = map (\<lambda>full. (full, relpath (cwd h) full src_dir)) paths
      in ebind (read_entries h named) (zip_write h))"

definition zip_single_file_to_bytes :: "host \<Rightarrow> string \<Rightarrow> string \<Rightarrow> bytes option result" where
  "zip_single_file_to_bytes h src_dir file_name =
     (let full_path = normpath (py_join src_dir file_name) in
      ebind (realpath h src_dir) (\<lambda>src_dir_real.
      ebind (realpath h full_path) (\<lambda>full_real.
      ebind (commonpath src_dir_real full_real) (\<lambda>common.
        if common \<noteq> src_dir_real then Inr None
        else if \<not> isfile h full_path then Inr None
        else ebind (read_file h full_path) (\<lambda>data.
             ebind (zip_write h [(file_name, data)]) (\<lambda>z. Inr (Some z)))))))"

definition extract_zip_bytes :: "host \<Rightarrow> bytes \<Rightarrow> (string \<times> bytes) list result" where
  "extract_zip_bytes h data = zip_read h data"

definition sha256_bytes :: "bytes \<Rightarrow> string" where
  "sha256_bytes data = ''sha256:'' @ sha256_hexdigest data"

section \<open>The sender\<close>

text \<open>\<open>range(start, stop, step)\<close>.\<close>

definition py_range :: "int \<Rightarrow> int \<Rightarrow> int \<Rightarrow> int list result" where
  "py_range start stop step =
     (if step = 0 then Inl (ValueError ''range() arg 3 must not be zero'')
      else if 0 < step
      then Inr (map (\<lambda>i. start + int i * step) [0..<nat ((stop - start + step - 1) div step)])
      else Inr (map (\<lambda>i. start + int i * step) [0..<nat ((start - stop - step - 1) div (- step))]))"

definition start_msg :: "fields \<Rightarrow> int \<Rightarrow> string \<Rightarrow> bytes \<Rightarrow> fields" where
  "start_msg base chunk_size tid data =
     base(''type'' \<mapsto> ''DATA_START'', ''transfer_id'' \<mapsto> tid,
          ''total_size'' \<mapsto> str_nat (length data), ''chunk_size'' \<mapsto> str_int chunk_size,
          ''checksum'' \<mapsto> sha256_bytes data)"

definition chunk_msg :: "fields \<Rightarrow> string \<Rightarrow> nat \<Rightarrow> bytes \<Rightarrow> fields" where
  "chunk_msg base tid seq chunk =
     base(''type'' \<mapsto> ''DATA_CHUNK'', ''transfer_id'' \<mapsto> tid,
          ''sequence_no'' \<mapsto> str_nat seq, ''chunk_b64'' \<mapsto> b64encode chunk)"

definition end_msg :: "fields \<Rightarrow> string \<Rightarrow> nat \<Rightarrow> fields" where
  "end_msg base tid n =
     base(''type'' \<mapsto> ''DATA_END'', ''transfer_id'' \<mapsto> tid, ''total_chunks'' \<mapsto> str_nat n)"

text \<open>The slice \<open>data[offset: offset + size]\<close> for an offset that is not negative.\<close>

definition slice :: "bytes \<Rightarrow> int \<Rightarrow> int \<Rightarrow> bytes" where
  "slice data offset cs = take (nat cs) (drop (nat offset) data)"

text \<open>The \<open>for\<close> loop, with its counter \<open>seq\<close>.\<close>

fun chunk_loop :: "fields \<Rightarrow> string \<Rightarrow> bytes \<Rightarrow> int \<Rightarrow> nat \<Rightarrow> int list \<Rightarrow> fields list \<times> nat" where
  "chunk_loop base tid data chunk_size seq [] = ([], seq)"
| "chunk_loop base tid data chunk_size seq (offset # rest) =
     (case chunk_loop base tid data chunk_size (seq + 1) rest of
        (ms, n) \<Rightarrow> (chunk_msg base tid seq (slice data offset chunk_size) # ms, n))"

text \<open>
  \<open>send_bytes\<close> yields the messages it added to the stream, in order, and its result. The
  transfer id is \<open>str(uuid.uuid4())\<close>, an argument here. The first message is out before
  \<open>range\<close> can raise.
\<close>

definition send_bytes ::
    "int \<Rightarrow> string \<Rightarrow> bytes \<Rightarrow> fields \<Rightarrow> fields list \<times> (string \<times> string \<times> nat) result" where
  "send_bytes chunk_size tid data base =
     (let total_size = length data; start = start_msg base chunk_size tid data in
      case py_range 0 (int total_size) chunk_size of
        Inl e \<Rightarrow> ([start], Inl e)
      | Inr offsets \<Rightarrow>
          (case chunk_loop base tid data chunk_size 0 offsets of
             (ms, n) \<Rightarrow>
               (start # ms @ [end_msg base tid n],
                Inr (tid, sha256_bytes data, total_size))))"

section \<open>What a receiver does: the reference machine\<close>

text \<open>
  The state of a transfer that has begun, and the effect of one message on it: a
  DATA_START begins anew whatever was there, a DATA_CHUNK of this transfer is appended if
  its number is new, and every other message leaves the state as it is. A DATA_END of
  this transfer closes it (\<open>xfer_closes\<close>); \<open>xfer_valid\<close> is the check made then.
\<close>

record xfer =
  x_tid :: string
  x_total :: int
  x_checksum :: string
  x_buf :: bytes
  x_seen :: "int set"

definition xfer_start :: "fields \<Rightarrow> xfer result" where
  "xfer_start f =
     ebind (field_req f ''transfer_id'') (\<lambda>tid.
     ebind (field_req f ''total_size'') (\<lambda>ts.
     ebind (py_int ts) (\<lambda>sz.
     ebind (field_req f ''checksum'') (\<lambda>ck.
       Inr \<lparr>x_tid = tid, x_total = sz, x_checksum = ck, x_buf = [], x_seen = {}\<rparr>))))"

definition xfer_chunk :: "xfer \<Rightarrow> fields \<Rightarrow> xfer result" where
  "xfer_chunk x f =
     ebind (field_req f ''sequence_no'') (\<lambda>sq.
     ebind (py_int sq) (\<lambda>seq.
       if seq \<in> x_seen x then Inr x
       else ebind (field_req f ''chunk_b64'') (\<lambda>b64.
            ebind (b64decode b64) (\<lambda>chunk.
              Inr (x\<lparr>x_buf := x_buf x @ chunk, x_seen := insert seq (x_seen x)\<rparr>)))))"

definition xfer_step :: "xfer option \<Rightarrow> fields \<Rightarrow> xfer option result" where
  "xfer_step st f =
     (if f ''type'' = Some ''DATA_START'' then emap Some (xfer_start f)
      else case st of
             None \<Rightarrow> Inr None
           | Some x \<Rightarrow>
               if f ''type'' = Some ''DATA_CHUNK'' \<and> f ''transfer_id'' = Some (x_tid x)
               then emap Some (xfer_chunk x f) else Inr (Some x))"

definition xfer_closes :: "xfer option \<Rightarrow> fields \<Rightarrow> bool" where
  "xfer_closes st f =
     (case st of
        None \<Rightarrow> False
      | Some x \<Rightarrow> f ''type'' = Some ''DATA_END'' \<and> f ''transfer_id'' = Some (x_tid x))"

definition xfer_valid :: "xfer \<Rightarrow> bool" where
  "xfer_valid x =
     (int (length (x_buf x)) = x_total x \<and> sha256_bytes (x_buf x) = x_checksum x)"

section \<open>Whole transfers on the reference machine\<close>

lemma xfer_step_other:
  assumes "f ''type'' \<noteq> Some ''DATA_START''"
    and "\<not> (f ''type'' = Some ''DATA_CHUNK'' \<and> f ''transfer_id'' = Some (x_tid x))"
  shows "xfer_step (Some x) f = Inr (Some x)"
  using assms by (auto simp: xfer_step_def)

lemma xfer_step_start_msg:
  "xfer_step st (start_msg base cs tid data) =
     Inr (Some \<lparr>x_tid = tid, x_total = int (length data), x_checksum = sha256_bytes data,
                x_buf = [], x_seen = {}\<rparr>)"
  by (simp add: xfer_step_def xfer_start_def start_msg_def)

lemma xfer_step_chunk_msg:
  assumes "x_tid x = tid" and "int seq \<notin> x_seen x"
  shows "xfer_step (Some x) (chunk_msg base tid seq c) =
     Inr (Some (x\<lparr>x_buf := x_buf x @ c, x_seen := insert (int seq) (x_seen x)\<rparr>))"
  using assms by (simp add: xfer_step_def xfer_chunk_def chunk_msg_def)

lemma chunk_loop_run:
  assumes "chunk_loop base tid data cs seq offs = (ms, n)" and "x_tid x = tid"
    and "\<forall>k \<in> x_seen x. k < int seq"
  shows "fold_res xfer_step (Some x) ms =
    Inr (Some (x\<lparr>x_buf := x_buf x @ concat (map (\<lambda>off. slice data off cs) offs),
                 x_seen := x_seen x \<union> int ` {seq..<n}\<rparr>)) \<and> n = seq + length offs"
  using assms
proof (induction offs arbitrary: seq ms x)
  case Nil
  then show ?case by simp
next
  case (Cons off offs)
  obtain ms' where rec: "chunk_loop base tid data cs (seq + 1) offs = (ms', n)"
    and ms: "ms = chunk_msg base tid seq (slice data off cs) # ms'"
    using Cons.prems(1) by (auto split: prod.splits)
  define x' where "x' = x\<lparr>x_buf := x_buf x @ slice data off cs, x_seen := insert (int seq) (x_seen x)\<rparr>"
  have fresh: "int seq \<notin> x_seen x" using Cons.prems(3) by auto
  have "\<forall>k \<in> x_seen x'. k < int (seq + 1)"
    using Cons.prems(3) by (force simp: x'_def)
  with Cons.IH [OF rec, of x'] Cons.prems(2)
  have run: "fold_res xfer_step (Some x') ms' =
      Inr (Some (x'\<lparr>x_buf := x_buf x' @ concat (map (\<lambda>off. slice data off cs) offs),
                    x_seen := x_seen x' \<union> int ` {seq + 1..<n}\<rparr>))" and n: "n = seq + 1 + length offs"
    by (simp_all add: x'_def)
  have "insert (int seq) (x_seen x) \<union> int ` {seq + 1..<n} = x_seen x \<union> int ` {seq..<n}"
    using n by (auto simp: image_iff)
  with run show ?case
    unfolding ms by (simp add: xfer_step_chunk_msg [OF Cons.prems(2) fresh] n flip: x'_def)
      (simp add: x'_def)
qed

lemma nat_blocks:
  assumes "0 < c"
  shows "n \<le> nat ((int n + int c - 1) div int c) * c"
proof -
  have "int n + int c - 1 = (int n + int c - 1) div int c * int c + (int n + int c - 1) mod int c"
    by simp
  moreover have "(int n + int c - 1) mod int c < int c" using assms by simp
  ultimately have "int n \<le> (int n + int c - 1) div int c * int c" by linarith
  moreover have "0 \<le> (int n + int c - 1) div int c" using assms by (simp add: pos_imp_zdiv_nonneg_iff)
  ultimately show ?thesis by (simp add: le_nat_iff flip: of_nat_le_iff [where 'a = int])
qed

lemma range_slices:
  assumes "0 < cs" and "py_range 0 (int (length data)) cs = Inr offs"
  shows "concat (map (\<lambda>off. slice data off cs) offs) = data"
    and "length offs = nat ((int (length data) + cs - 1) div cs)"
proof -
  define c where "c = nat cs"
  let ?k = "nat ((int (length data) + cs - 1) div cs)"
  have c: "0 < c" "cs = int c" using assms(1) by (simp_all add: c_def)
  have offs: "offs = map (\<lambda>i. int i * cs) [0..<?k]"
    using assms by (simp add: py_range_def)
  then show "length offs = ?k" by simp
  have "concat (map (\<lambda>off. slice data off cs) offs) = concat (map (\<lambda>i. take c (drop (i * c) data)) [0..<?k])"
    by (simp add: offs c slice_def comp_def nat_mult_distrib)
  also have "\<dots> = take (?k * c) data"
    using c(1) by (rule concat_slices)
  also have "\<dots> = data"
    using nat_blocks [OF c(1), of "length data"] by (simp add: c(2))
  finally show "concat (map (\<lambda>off. slice data off cs) offs) = data" .
qed

text \<open>A sender with a positive chunk size: its messages, and what the reference machine makes of them.\<close>

lemma send_bytes_run:
  assumes "0 < cs" and "send_bytes cs tid data base = (ms, res)"
  shows "\<exists>chunks n. ms = start_msg base cs tid data # chunks @ [end_msg base tid n]
    \<and> res = Inr (tid, sha256_bytes data, length data)
    \<and> n = nat ((int (length data) + cs - 1) div cs)
    \<and> fold_res xfer_step st (start_msg base cs tid data # chunks) =
        Inr (Some \<lparr>x_tid = tid, x_total = int (length data), x_checksum = sha256_bytes data,
                   x_buf = data, x_seen = int ` {0..<n}\<rparr>)"
proof -
  obtain offs where offs: "py_range 0 (int (length data)) cs = Inr offs"
    using assms(1) by (auto simp: py_range_def)
  obtain chunks n where loop: "chunk_loop base tid data cs 0 offs = (chunks, n)" by fastforce
  let ?x = "\<lparr>x_tid = tid, x_total = int (length data), x_checksum = sha256_bytes data,
             x_buf = [], x_seen = {}\<rparr>"
  have "fold_res xfer_step (Some ?x) chunks =
      Inr (Some (?x\<lparr>x_buf := data, x_seen := int ` {0..<n}\<rparr>)) \<and> n = length offs"
    using chunk_loop_run [OF loop, of ?x] range_slices(1) [OF assms(1) offs] by simp
  then show ?thesis
    using assms(2) range_slices(2) [OF assms(1) offs]
    by (auto simp: send_bytes_def Let_def offs loop xfer_step_start_msg)
qed

section \<open>The messages of a transfer\<close>

lemma chunk_loop_map:
  "chunk_loop base tid data cs seq offs =
     (map (\<lambda>(k, off). chunk_msg base tid k (slice data off cs)) (zip [seq..<seq + length offs] offs), seq + length offs)"
proof (induction offs arbitrary: seq)
  case Nil
  then show ?case by simp
next
  case (Cons off offs)
  have "[seq..<seq + length (off # offs)] = seq # [seq + 1..<seq + 1 + length offs]"
    by (simp add: upt_rec)
  with Cons show ?case by simp
qed

text \<open>The \<open>i\<close>-th piece of a payload, for a positive chunk size.\<close>

definition piece :: "bytes \<Rightarrow> nat \<Rightarrow> nat \<Rightarrow> bytes" where
  "piece data c i = take c (drop (i * c) data)"

definition pieces :: "bytes \<Rightarrow> nat \<Rightarrow> nat" where
  "pieces data c = (length data + c - 1) div c"

lemma pieces_bounds:
  assumes "0 < c"
  shows "length data \<le> pieces data c * c" and "i < pieces data c \<Longrightarrow> i * c < length data"
proof -
  have eq: "length data + c - 1 = pieces data c * c + (length data + c - 1) mod c"
    by (simp add: pieces_def)
  have "(length data + c - 1) mod c < c" using assms by simp
  with eq assms show "length data \<le> pieces data c * c" by linarith
  have low: "pieces data c * c \<le> length data + c - 1" using eq by linarith
  assume "i < pieces data c"
  then have "(i + 1) * c \<le> pieces data c * c" by (intro mult_le_mono1) simp
  then have "i * c + c \<le> length data + c - 1" using low by simp
  with assms show "i * c < length data" by linarith
qed

lemma send_bytes_messages:
  assumes "0 < c" and "send_bytes (int c) tid data base = (ms, res)"
  shows "ms = start_msg base (int c) tid data # map (\<lambda>i. chunk_msg base tid i (piece data c i)) [0..<pieces data c]
      @ [end_msg base tid (pieces data c)]"
proof -
  obtain offs where offs: "py_range 0 (int (length data)) (int c) = Inr offs"
    using assms(1) by (auto simp: py_range_def)
  have k: "nat ((int (length data) + int c - 1) div int c) = pieces data c"
  proof -
    have "int (length data) + int c - 1 = int (length data + c - 1)" using assms(1) by simp
    then show ?thesis unfolding pieces_def by (metis nat_int zdiv_int)
  qed
  then have eq: "offs = map (\<lambda>i. int i * int c) [0..<pieces data c]"
    using offs assms(1) by (auto simp: py_range_def)
  then have "map (\<lambda>(k, off). chunk_msg base tid k (slice data off (int c))) (zip [0..<length offs] offs) =
      map (\<lambda>i. chunk_msg base tid i (piece data c i)) [0..<pieces data c]"
    by (intro nth_equalityI) (simp_all add: eq slice_def piece_def nat_mult_distrib)
  then show ?thesis
    using assms(2) eq by (simp add: send_bytes_def Let_def offs chunk_loop_map)
qed

text \<open>C38: The shape of a transfer. With a positive chunk size a payload of \<open>n\<close> bytes goes out as one
  DATA_START, exactly \<open>n\<close> divided by the chunk size, rounded up, DATA_CHUNKs numbered from 0,
  and one DATA_END with that count. No chunk is empty or larger than the chunk size, only
  the last may be smaller, and one after the other they are the payload. An empty payload
  has no chunk at all.\<close>

theorem send_bytes_shape:
  assumes "0 < c" and "send_bytes (int c) tid data base = (ms, res)"
  shows "ms = start_msg base (int c) tid data # map (\<lambda>i. chunk_msg base tid i (piece data c i)) [0..<pieces data c]
      @ [end_msg base tid (pieces data c)]
    \<and> concat (map (piece data c) [0..<pieces data c]) = data
    \<and> (\<forall>i < pieces data c. piece data c i \<noteq> [] \<and> length (piece data c i) \<le> c
         \<and> (i + 1 < pieces data c \<longrightarrow> length (piece data c i) = c))
    \<and> (data = [] \<longrightarrow> ms = [start_msg base (int c) tid [], end_msg base tid 0])"
proof (intro conjI allI impI)
  show shape: "ms = start_msg base (int c) tid data # map (\<lambda>i. chunk_msg base tid i (piece data c i)) [0..<pieces data c]
      @ [end_msg base tid (pieces data c)]"
    by (rule send_bytes_messages [OF assms])
  show "concat (map (piece data c) [0..<pieces data c]) = data"
    unfolding piece_def concat_slices [OF assms(1)] using pieces_bounds(1) [OF assms(1)] by simp
  fix i
  assume i: "i < pieces data c"
  show "piece data c i \<noteq> []" using pieces_bounds(2) [OF assms(1) i] assms(1) by (simp add: piece_def)
  show "length (piece data c i) \<le> c" by (simp add: piece_def)
  assume "i + 1 < pieces data c"
  then have "(i + 1) * c < length data" by (rule pieces_bounds(2) [OF assms(1)])
  then show "length (piece data c i) = c" by (simp add: piece_def)
next
  assume "data = []"
  then have "pieces data c = 0" using assms(1) by (simp add: pieces_def)
  with \<open>data = []\<close> show "ms = [start_msg base (int c) tid [], end_msg base tid 0]"
    using send_bytes_messages [OF assms] by simp
qed

lemma send_bytes_shape_witness:
  "map (\<lambda>f. f ''type'') (fst (send_bytes 2 ''t'' [1, 2, 3] Map.empty))
     = [Some ''DATA_START'', Some ''DATA_CHUNK'', Some ''DATA_CHUNK'', Some ''DATA_END'']
   \<and> fst (send_bytes 2 ''t'' [] Map.empty) = [start_msg Map.empty 2 ''t'' [], end_msg Map.empty ''t'' 0]"
proof -
  have types: "start_msg b cs t d ''type'' = Some ''DATA_START''" "chunk_msg b t k ch ''type'' = Some ''DATA_CHUNK''"
    "end_msg b t k ''type'' = Some ''DATA_END''" for b cs t d k ch
    by (simp_all add: start_msg_def chunk_msg_def end_msg_def)
  have send: "\<exists>res. send_bytes (int 2) ''t'' d Map.empty = (fst (send_bytes 2 ''t'' d Map.empty), res)" for d
    by (metis of_nat_numeral surj_pair fst_conv)
  have two: "pieces [1 :: 8 word, 2, 3] 2 = 2" "[0..<2 :: nat] = [0, 1]"
    by (simp_all add: pieces_def upt_rec)
  obtain res where r1: "send_bytes (int 2) ''t'' [1, 2, 3] Map.empty = (fst (send_bytes 2 ''t'' [1, 2, 3] Map.empty), res)"
    using send by blast
  obtain res2 where r2: "send_bytes (int 2) ''t'' [] Map.empty = (fst (send_bytes 2 ''t'' [] Map.empty), res2)"
    using send by blast
  have "fst (send_bytes 2 ''t'' [1, 2, 3] Map.empty) = start_msg Map.empty (int 2) ''t'' [1, 2, 3]
      # map (\<lambda>i. chunk_msg Map.empty ''t'' i (piece [1, 2, 3] 2 i)) [0..<2] @ [end_msg Map.empty ''t'' 2]"
    using send_bytes_shape [OF zero_less_numeral r1] unfolding two(1) by blast
  moreover have "fst (send_bytes 2 ''t'' [] Map.empty) = [start_msg Map.empty (int 2) ''t'' [], end_msg Map.empty ''t'' 0]"
    using send_bytes_shape [OF zero_less_numeral r2] by blast
  ultimately show ?thesis
    unfolding two(2) by (simp only: list.map append.simps types of_nat_numeral)
qed

section \<open>Delivery with repeats and foreign traffic\<close>

text \<open>
  What a reader of the stream may see between the DATA_START and the DATA_END of a
  transfer: its chunks in order, any of them repeated, and messages that are not of this
  transfer. \<open>delivery tid S sent got\<close>: \<open>got\<close> is such a sequence for the chunks \<open>sent\<close>,
  the numbers in \<open>S\<close> having been delivered before.
\<close>

definition foreign :: "string \<Rightarrow> fields \<Rightarrow> bool" where
  "foreign tid f =
     (f ''type'' \<noteq> Some ''DATA_START''
      \<and> \<not> (f ''type'' \<in> {Some ''DATA_CHUNK'', Some ''DATA_END''} \<and> f ''transfer_id'' = Some tid))"

definition chunk_no :: "string \<Rightarrow> fields \<Rightarrow> int option" where
  "chunk_no tid f =
     (if f ''type'' = Some ''DATA_CHUNK'' \<and> f ''transfer_id'' = Some tid
      then (case f ''sequence_no'' of
              None \<Rightarrow> None
            | Some sq \<Rightarrow> (case py_int sq of Inl _ \<Rightarrow> None | Inr n \<Rightarrow> Some n))
      else None)"

inductive delivery :: "string \<Rightarrow> int set \<Rightarrow> fields list \<Rightarrow> fields list \<Rightarrow> bool" where
  finished: "delivery tid S [] []"
| other: "foreign tid f \<Longrightarrow> delivery tid S sent got \<Longrightarrow> delivery tid S sent (f # got)"
| repeated: "chunk_no tid f = Some n \<Longrightarrow> n \<in> S \<Longrightarrow> delivery tid S sent got \<Longrightarrow> delivery tid S sent (f # got)"
| new_chunk: "chunk_no tid f = Some n \<Longrightarrow> delivery tid (insert n S) sent got \<Longrightarrow> delivery tid S (f # sent) (f # got)"

inductive_cases delivery_NilE: "delivery tid S [] got"

lemma chunk_noD:
  assumes "chunk_no tid f = Some n"
  shows "f ''type'' = Some ''DATA_CHUNK''" and "f ''transfer_id'' = Some tid"
    and "\<exists>sq. f ''sequence_no'' = Some sq \<and> py_int sq = Inr n"
  using assms by (auto simp: chunk_no_def split: if_splits option.splits sum.splits)

lemma xfer_step_repeated:
  assumes "chunk_no (x_tid x) f = Some n" and "n \<in> x_seen x"
  shows "xfer_step (Some x) f = Inr (Some x)"
  using chunk_noD [OF assms(1)] assms(2) by (auto simp: xfer_step_def xfer_chunk_def)

lemma xfer_step_next:
  assumes "chunk_no (x_tid x) f = Some n" and "xfer_step (Some x) f = Inr st"
  shows "\<exists>x'. st = Some x' \<and> x_tid x' = x_tid x \<and> x_seen x' = insert n (x_seen x)"
  using chunk_noD [OF assms(1)] assms(2)
  by (auto simp: xfer_step_def xfer_chunk_def ebind_eq_Inr emap_def insert_absorb split: sum.splits if_splits)

lemma xfer_step_foreign: "foreign (x_tid x) f \<Longrightarrow> xfer_step (Some x) f = Inr (Some x)"
  by (rule xfer_step_other) (auto simp: foreign_def)

lemma delivery_run:
  assumes "delivery tid S sent got" and "x_tid x = tid" and "x_seen x = S"
    and "fold_res xfer_step (Some x) sent = Inr st"
  shows "fold_res xfer_step (Some x) got = Inr st"
  using assms
proof (induction arbitrary: x rule: delivery.induct)
  case (finished tid S)
  then show ?case by simp
next
  case (other tid f S sent got)
  then show ?case by (simp add: xfer_step_foreign)
next
  case (repeated tid f n S sent got)
  then show ?case by (simp add: xfer_step_repeated)
next
  case (new_chunk tid f n S sent got)
  then obtain st1 where st1: "xfer_step (Some x) f = Inr st1" and rest: "fold_res xfer_step st1 sent = Inr st"
    by (auto simp: ebind_eq_Inr)
  then obtain x' where "st1 = Some x'" "x_tid x' = tid" "x_seen x' = insert n S"
    using xfer_step_next new_chunk.hyps(1) new_chunk.prems(1,2) by metis
  with new_chunk.IH [of x'] rest st1 show ?case by simp
qed

text \<open>No message of a delivery closes the transfer it belongs to.\<close>

definition open_for :: "string \<Rightarrow> fields \<Rightarrow> bool" where
  "open_for tid f =
     (f ''type'' \<noteq> Some ''DATA_START''
      \<and> \<not> (f ''type'' = Some ''DATA_END'' \<and> f ''transfer_id'' = Some tid))"

lemma delivery_open:
  assumes "delivery tid S sent got"
  shows "\<forall>f \<in> set got. open_for tid f"
  using assms
  by (induction rule: delivery.induct) (auto simp: foreign_def open_for_def dest: chunk_noD(1))

section \<open>The contract of a receiver\<close>

text \<open>
  A receiver is a fallible step on its own state and its own kind of message, with a view
  of that state as a transfer in progress. The contract: while a message does not close
  the transfer, the step is the reference step on the view, exceptions included, and keeps
  the receiver's own invariant.
\<close>

locale chunk_sink =
  fixes feed :: "'s \<Rightarrow> 'm \<Rightarrow> 's result"
    and view :: "'s \<Rightarrow> xfer option"
    and body :: "'m \<Rightarrow> fields"
    and ok :: "'s \<Rightarrow> bool"
  assumes feed_refines: "ok s \<Longrightarrow> \<not> xfer_closes (view s) (body m) \<Longrightarrow>
      emap view (feed s m) = xfer_step (view s) (body m)"
    and feed_ok: "ok s \<Longrightarrow> \<not> xfer_closes (view s) (body m) \<Longrightarrow> feed s m = Inr s' \<Longrightarrow> ok s'"
begin

lemma feed_Inr:
  assumes "ok s" and "\<not> xfer_closes (view s) (body m)" and "xfer_step (view s) (body m) = Inr st"
  shows "\<exists>s'. feed s m = Inr s' \<and> view s' = st \<and> ok s'"
  using feed_refines [OF assms(1,2)] feed_ok [OF assms(1,2)] assms(3)
  by (cases "feed s m") auto

lemma feed_start:
  assumes "ok s" and "body m = start_msg base cs tid data"
  shows "\<exists>s'. feed s m = Inr s' \<and> ok s' \<and> xfer_step (view s) (body m) = Inr (view s')"
proof -
  have "\<not> xfer_closes (view s) (body m)"
    by (simp add: xfer_closes_def assms(2) start_msg_def split: option.splits)
  moreover obtain st where "xfer_step (view s) (body m) = Inr st"
    by (simp add: assms(2) xfer_step_start_msg)
  ultimately show ?thesis using feed_Inr [OF assms(1)] by metis
qed

lemma fold_refines:
  assumes "ok s" and "view s = Some x" and "\<forall>m \<in> set ms. open_for (x_tid x) (body m)"
    and "fold_res xfer_step (Some x) (map body ms) = Inr st"
  shows "\<exists>s'. fold_res feed s ms = Inr s' \<and> view s' = st \<and> ok s'"
  using assms
proof (induction ms arbitrary: s x)
  case Nil
  then show ?case by auto
next
  case (Cons m ms)
  have nc: "\<not> xfer_closes (view s) (body m)"
    using Cons.prems(2,3) by (auto simp: xfer_closes_def open_for_def)
  obtain st1 where st1: "xfer_step (Some x) (body m) = Inr st1"
    and rest: "fold_res xfer_step st1 (map body ms) = Inr st"
    using Cons.prems(4) by (auto simp: ebind_eq_Inr)
  obtain x1 where x1: "st1 = Some x1" "x_tid x1 = x_tid x"
    using st1 Cons.prems(3)
    by (auto simp: xfer_step_def xfer_chunk_def open_for_def ebind_eq_Inr emap_def
        split: sum.splits if_splits)
  obtain s1 where s1: "feed s m = Inr s1" "view s1 = st1" "ok s1"
    using feed_Inr [OF Cons.prems(1) nc] st1 Cons.prems(2) by auto
  have "\<exists>s'. fold_res feed s1 ms = Inr s' \<and> view s' = st \<and> ok s'"
    using Cons.IH [of s1 x1] s1 x1 rest Cons.prems(3) by auto
  then show ?case using s1(1) by simp
qed

text \<open>Whatever the receiver saw before, a transfer that is delivered completely leaves it
  with exactly the bytes sent, ready to accept them at the closing message.\<close>

lemma transfer_complete:
  assumes "0 < cs" and "send_bytes cs tid data base = (start # chunks @ [closing], res)"
    and "ok s" and "body m0 = start" and "delivery tid {} chunks (map body got)"
  shows "\<exists>s' x. fold_res feed s (m0 # got) = Inr s' \<and> ok s' \<and> view s' = Some x
    \<and> x_tid x = tid \<and> x_buf x = data \<and> xfer_valid x"
proof -
  let ?x = "\<lambda>n. \<lparr>x_tid = tid, x_total = int (length data), x_checksum = sha256_bytes data,
                 x_buf = data, x_seen = int ` {0..<n}\<rparr>"
  let ?init = "\<lparr>x_tid = tid, x_total = int (length data), x_checksum = sha256_bytes data,
              x_buf = [], x_seen = {}\<rparr>"
  obtain n where start: "start = start_msg base cs tid data"
    and run: "fold_res xfer_step (view s) (start # chunks) = Inr (Some (?x n))"
    using send_bytes_run [OF assms(1,2), of "view s"] by auto
  obtain s1 where s1: "feed s m0 = Inr s1" "ok s1" "view s1 = Some ?init"
    using feed_start [of s m0 base cs tid data] assms(3,4) start by (auto simp: xfer_step_start_msg)
  have "fold_res xfer_step (Some ?init) chunks = Inr (Some (?x n))"
    using run by (simp add: start xfer_step_start_msg)
  then have "fold_res xfer_step (Some ?init) (map body got) = Inr (Some (?x n))"
    using delivery_run [OF assms(5), of ?init] by simp
  moreover have "\<forall>m \<in> set got. open_for (x_tid ?init) (body m)"
    using delivery_open [OF assms(5)] by simp
  ultimately obtain s' where "fold_res feed s1 got = Inr s'" "view s' = Some (?x n)" "ok s'"
    using fold_refines [OF s1(2,3)] by blast
  then show ?thesis using s1(1) by (auto simp: xfer_valid_def)
qed

text \<open>A transfer that is cut short leaves the receiver running.\<close>

lemma transfer_partial:
  assumes "0 < cs" and "send_bytes cs tid data base = (start # (sent @ unsent) @ [closing], res)"
    and "ok s" and "body m0 = start" and "delivery tid {} sent (map body got)"
  shows "\<exists>s'. fold_res feed s (m0 # got) = Inr s' \<and> ok s'"
proof -
  let ?init = "\<lparr>x_tid = tid, x_total = int (length data), x_checksum = sha256_bytes data,
              x_buf = [], x_seen = {}\<rparr>"
  obtain x where start: "start = start_msg base cs tid data"
    and run: "fold_res xfer_step (view s) (start # (sent @ unsent)) = Inr (Some x)"
    using send_bytes_run [OF assms(1,2), of "view s"] by auto
  obtain s1 where s1: "feed s m0 = Inr s1" "ok s1" "view s1 = Some ?init"
    using feed_start [of s m0 base cs tid data] assms(3,4) start by (auto simp: xfer_step_start_msg)
  obtain st where "fold_res xfer_step (Some ?init) sent = Inr st"
    using run by (auto simp: start xfer_step_start_msg fold_res_append ebind_eq_Inr)
  then have "fold_res xfer_step (Some ?init) (map body got) = Inr st"
    using delivery_run [OF assms(5), of ?init] by simp
  moreover have "\<forall>m \<in> set got. open_for (x_tid ?init) (body m)"
    using delivery_open [OF assms(5)] by simp
  ultimately obtain s' where "fold_res feed s1 got = Inr s'" "ok s'"
    using fold_refines [OF s1(2,3)] by blast
  then show ?thesis using s1(1) by auto
qed

end

end
