(* ===== verification/Dispatcher.thy ===== *)
theory Dispatcher
  imports RedisAcl Chunked
begin

text \<open>
  \<open>control_plane/delegates/management/commands/stream_dispatcher.py\<close>: the handlers of the
  four streams of an execution, the watcher that reads them, and the main loop that starts
  watchers on announcements. The state is the database, the files under the media
  directory, the entries added to streams and the keys deleted, in order. A handler returns
  the new state with its result or the exception that escapes it; an exception ends the
  thread it happens in. The printed progress lines and failing disk writes are left out.
\<close>

section \<open>State\<close>

record ds =
  ds_db :: db
  ds_files :: "string \<rightharpoonup> bytes"
  ds_sent :: "xadd list"
  ds_deleted :: "string list"

abbreviation ds_audit :: "audit_event \<Rightarrow> ds \<Rightarrow> ds" where
  "ds_audit a s \<equiv> s\<lparr>ds_db := audit a (ds_db s)\<rparr>"

definition STATUS_MAPPING :: "string \<rightharpoonup> execution_status" where
  "STATUS_MAPPING = map_of
     [(''TRANSFERRING_INPUT'', STATUS_TRANSFERRING),
      (''EXECUTING'', STATUS_RUNNING),
      (''TRANSFER_FAILED'', STATUS_TRANSFER_FAILED),
      (''TASK_FAILED'', STATUS_FAILED)]"

text \<open>Whether the stream names of an announcement are the ones derived from the database.\<close>

definition announced_keys_match :: "fields \<Rightarrow> stream_names \<Rightarrow> bool" where
  "announced_keys_match f k =
     (f ''events_stream'' = Some (events_key k) \<and> f ''log_stream'' = Some (log_key k)
      \<and> f ''status_stream'' = Some (status_key k) \<and> f ''output_stream'' = Some (output_key k))"

section \<open>DATA_REQUEST\<close>

text \<open>\<open>str(execution.delegate_id)\<close>.\<close>

definition delegate_id_text :: "uuid option \<Rightarrow> string" where
  "delegate_id_text u = (case u of None \<Rightarrow> ''None'' | Some v \<Rightarrow> uuid_str v)"

definition authorized :: "db \<Rightarrow> execution \<Rightarrow> uuid \<Rightarrow> string \<Rightarrow> string \<Rightarrow> bool" where
  "authorized d ex du delegate_id tenant_id =
     (case find_delegate d du of
        None \<Rightarrow> False
      | Some dl \<Rightarrow>
          d_status dl = STATUS_ACTIVE \<and> d_tenant_id dl = tenant_id \<and> e_tenant_id ex = tenant_id
          \<and> delegate_id_text (e_delegate_id ex) = delegate_id)"

text \<open>The bytes to send: the whole directory, or one file of it, \<open>None\<close> when there is no such file.\<close>

definition workspace_zip :: "host \<Rightarrow> string \<Rightarrow> string \<Rightarrow> bytes option result" where
  "workspace_zip h fixture_dir requested_file =
     (if requested_file = ''*'' \<or> requested_file = []
      then emap Some (zip_directory_to_bytes h fixture_dir)
      else zip_single_file_to_bytes h fixture_dir requested_file)"

definition quoted :: "string \<Rightarrow> string" where
  "quoted s = CHR 0x27 # s @ [CHR 0x27]"

definition about_request :: "string \<Rightarrow> string \<Rightarrow> string \<Rightarrow> string \<Rightarrow> string \<Rightarrow> audit_event" where
  "about_request ty tenant_id delegate_id execution_id detail =
     (event ty)\<lparr>a_tenant_id := tenant_id, a_delegate_id := delegate_id,
                a_execution_id := execution_id, a_detail := detail\<rparr>"

definition handle_data_request ::
    "host \<Rightarrow> string \<Rightarrow> string \<Rightarrow> string \<Rightarrow> string \<Rightarrow> fields \<Rightarrow> ds \<Rightarrow> ds \<times> unit result" where
  "handle_data_request h fixtures_dir new_tid execution_id ekey f s =
     (let tenant_id = field_or f ''tenant_id'' [];
          delegate_id = field_or f ''delegate_id'' [];
          about = (\<lambda>ty. about_request ty tenant_id delegate_id execution_id) in
      case to_uuid execution_id of Inl e \<Rightarrow> (s, Inl e) | Inr eu \<Rightarrow>
      case executions (ds_db s) eu of None \<Rightarrow> (s, Inr ()) | Some ex \<Rightarrow>
      case to_uuid delegate_id of Inl e \<Rightarrow> (s, Inl e) | Inr du \<Rightarrow>
      if \<not> authorized (ds_db s) ex du delegate_id tenant_id then
        (ds_audit (about ''DATA_REQUEST_REJECTED'' ''tenant/delegate ownership check failed'') s, Inr ())
      else
        let fixture_dir = py_join fixtures_dir (e_workspace_fixture ex);
            requested_file = field_or f ''requested_file'' ''*'' in
        case workspace_zip h fixture_dir requested_file of
          Inl e \<Rightarrow> (s, Inl e)
        | Inr None \<Rightarrow>
            (ds_audit (about ''DATA_REQUEST_FILE_NOT_FOUND''
               (''requested_file='' @ quoted requested_file @ '' not found in '' @ e_workspace_fixture ex)) s,
             Inr ())
        | Inr (Some zip_bytes) \<Rightarrow>
            (case send_bytes CHUNK_SIZE new_tid zip_bytes
                    [''execution_id'' \<mapsto> execution_id, ''tenant_id'' \<mapsto> tenant_id] of
               (ms, res) \<Rightarrow>
                 let s1 = s\<lparr>ds_sent := ds_sent s @ map (Pair ekey) ms\<rparr> in
                 case res of
                   Inl e \<Rightarrow> (s1, Inl e)
                 | Inr (transfer_id, checksum, total_size) \<Rightarrow>
                     let s2 = s1\<lparr>ds_db := update_execution eu (\<lambda>row.
                                row\<lparr>e_status := STATUS_TRANSFERRING, e_transfer_id := transfer_id,
                                    e_transfer_attempts := e_transfer_attempts ex + 1\<rparr>) (ds_db s1)\<rparr>
                     in (ds_audit (about ''WORKSPACE_TRANSFER_SENT''
                           (''transfer_id='' @ transfer_id @ '' size='' @ str_nat total_size)) s2,
                         Inr ())))"

section \<open>LOG and STATUS\<close>

definition handle_log :: "string \<Rightarrow> fields \<Rightarrow> int \<Rightarrow> ds \<Rightarrow> ds \<times> unit result" where
  "handle_log execution_id f seq s =
     (case to_uuid execution_id of
        Inl e \<Rightarrow> (s, Inl e)
      | Inr eu \<Rightarrow>
          if executions (ds_db s) eu = None then (s, Inl (OtherError ''IntegrityError''))
          else (s\<lparr>ds_db := (ds_db s)\<lparr>logs := logs (ds_db s) @
                    [\<lparr>l_execution = eu, l_seq = seq, l_line = field_or f ''message'' []\<rparr>]\<rparr>\<rparr>, Inr ()))"

definition handle_status :: "string \<Rightarrow> fields \<Rightarrow> ds \<Rightarrow> ds \<times> unit result" where
  "handle_status execution_id f s =
     (let status = field_or f ''status'' [];
          s1 = ds_audit (about_request ''WORKER_STATUS'' (field_or f ''tenant_id'' [])
                 (field_or f ''delegate_id'' []) execution_id status) s
      in case STATUS_MAPPING status of
           None \<Rightarrow> (s1, Inr ())
         | Some new_status \<Rightarrow>
             (case to_uuid execution_id of
                Inl e \<Rightarrow> (s1, Inl e)
              | Inr eu \<Rightarrow>
                  (s1\<lparr>ds_db := update_execution eu (\<lambda>row. row\<lparr>e_status := new_status\<rparr>) (ds_db s1)\<rparr>,
                   Inr ())))"

section \<open>Output\<close>

definition out_path :: "string \<Rightarrow> string \<Rightarrow> string" where
  "out_path media_root execution_id =
     py_join (py_join media_root ''outputs'') (execution_id @ ''.zip'')"

text \<open>The end of an output transfer: store and mark, or mark as failed.\<close>

definition finish_output :: "string \<Rightarrow> string \<Rightarrow> xfer \<Rightarrow> ds \<Rightarrow> ds \<times> unit result" where
  "finish_output media_root execution_id x s =
     (let data = x_buf x;
          valid = (int (length data) = x_total x \<and> sha256_bytes data = x_checksum x);
          path = out_path media_root execution_id;
          about = (\<lambda>ty detail. (event ty)\<lparr>a_execution_id := execution_id, a_detail := detail\<rparr>);
          s1 = (if valid then s\<lparr>ds_files := (ds_files s)(path \<mapsto> data)\<rparr> else s)
      in case to_uuid execution_id of
           Inl e \<Rightarrow> (s1, Inl e)
         | Inr eu \<Rightarrow>
             if valid then
               (ds_audit (about ''OUTPUT_RECEIVED'' (''path='' @ path @ '' size='' @ str_nat (length data)))
                  (s1\<lparr>ds_db := update_execution eu (\<lambda>row. row\<lparr>e_status := STATUS_SUCCEEDED,
                         e_output_path := path, e_output_checksum := x_checksum x\<rparr>) (ds_db s1)\<rparr>), Inr ())
             else
               (ds_audit (about ''OUTPUT_VALIDATION_FAILED'' ''size or checksum mismatch on output transfer'')
                  (s1\<lparr>ds_db := update_execution eu (\<lambda>row. row\<lparr>e_status := STATUS_FAILED\<rparr>) (ds_db s1)\<rparr>), Inr ()))"

definition handle_output_message ::
    "string \<Rightarrow> string \<Rightarrow> fields \<Rightarrow> xfer option \<Rightarrow> ds \<Rightarrow> ds \<times> xfer option result" where
  "handle_output_message media_root execution_id f state s =
     (let mtype = f ''type'' in
      if mtype = Some ''DATA_START'' then
        (s, ebind (field_req f ''transfer_id'') (\<lambda>tid.
            ebind (field_req f ''total_size'') (\<lambda>ts.
            ebind (py_int ts) (\<lambda>sz.
            ebind (field_req f ''checksum'') (\<lambda>ck.
              Inr (Some \<lparr>x_tid = tid, x_total = sz, x_checksum = ck, x_buf = [], x_seen = {}\<rparr>))))))
      else case state of
        None \<Rightarrow> (s, Inr None)
      | Some x \<Rightarrow>
          if mtype = Some ''DATA_CHUNK'' \<and> f ''transfer_id'' = Some (x_tid x) then
            (s, ebind (field_req f ''sequence_no'') (\<lambda>sq.
                ebind (py_int sq) (\<lambda>seq.
                  if seq \<notin> x_seen x
                  then ebind (field_req f ''chunk_b64'') (\<lambda>b64.
                       ebind (b64decode b64) (\<lambda>chunk.
                         Inr (Some (x\<lparr>x_seen := insert seq (x_seen x), x_buf := x_buf x @ chunk\<rparr>))))
                  else Inr (Some x))))
          else if mtype = Some ''DATA_END'' \<and> f ''transfer_id'' = Some (x_tid x) then
            (case finish_output media_root execution_id x s of
               (s1, Inl e) \<Rightarrow> (s1, Inl e)
             | (s1, Inr _) \<Rightarrow> (s1, Inr None))
          else (s, Inr (Some x)))"

section \<open>The watcher\<close>

definition cleanup_execution_streams :: "string \<Rightarrow> stream_names \<Rightarrow> ds \<Rightarrow> ds" where
  "cleanup_execution_streams execution_id keys s =
     ds_audit ((event ''STREAMS_CLEANED'')\<lparr>a_execution_id := execution_id,
                 a_detail := ''deleted '' @ join_with '', '' (key_values keys)\<rparr>)
       (s\<lparr>ds_deleted := ds_deleted s @ key_values keys\<rparr>)"

text \<open>
  The local variables of \<open>watch_execution\<close>. A message comes with the text of a fresh UUID,
  used if it makes the dispatcher send a transfer. A poll is one turn of the loop: the
  clock, what the other threads and processes have done to the state since the last turn,
  and the reply of XREAD or a lost connection.
\<close>

record watch =
  w_last_ids :: "string \<rightharpoonup> string"
  w_log_seq :: int
  w_output :: "xfer option"

type_synonym watch_msg = "string \<times> fields \<times> string"

datatype watch_reply = ConnectionLost | Messages "(string \<times> watch_msg list) list"

record config =
  cfg_host :: host
  cfg_fixtures :: string
  cfg_media :: string

definition watch_message ::
    "config \<Rightarrow> string \<Rightarrow> stream_names \<Rightarrow> string \<Rightarrow> watch_msg \<Rightarrow> ds \<times> watch \<Rightarrow> (ds \<times> watch) \<times> unit result" where
  "watch_message c execution_id keys stream_key m st =
     (case (st, m) of ((s, w0), (msg_id, f, new_tid)) \<Rightarrow>
        let w = w0\<lparr>w_last_ids := (w_last_ids w0)(stream_key \<mapsto> msg_id)\<rparr>; mtype = f ''type'' in
        if stream_key = events_key keys \<and> mtype = Some ''DATA_REQUEST'' then
          (case handle_data_request (cfg_host c) (cfg_fixtures c) new_tid execution_id (events_key keys) f s of
             (s1, r) \<Rightarrow> ((s1, w), r))
        else if stream_key = log_key keys \<and> mtype = Some ''LOG'' then
          (let w1 = w\<lparr>w_log_seq := w_log_seq w + 1\<rparr> in
           case handle_log execution_id f (w_log_seq w1) s of (s1, r) \<Rightarrow> ((s1, w1), r))
        else if stream_key = status_key keys \<and> mtype = Some ''STATUS'' then
          (case handle_status execution_id f s of (s1, r) \<Rightarrow> ((s1, w), r))
        else if stream_key = output_key keys then
          (case handle_output_message (cfg_media c) execution_id f (w_output w) s of
             (s1, Inl e) \<Rightarrow> ((s1, w), Inl e)
           | (s1, Inr out) \<Rightarrow> ((s1, w\<lparr>w_output := out\<rparr>), Inr ()))
        else ((s, w), Inr ()))"

fun watch_messages ::
    "config \<Rightarrow> string \<Rightarrow> stream_names \<Rightarrow> (string \<times> watch_msg) list \<Rightarrow> ds \<times> watch \<Rightarrow> (ds \<times> watch) \<times> unit result" where
  "watch_messages c execution_id keys [] st = (st, Inr ())"
| "watch_messages c execution_id keys ((k, m) # ms) st =
     (case watch_message c execution_id keys k m st of
        (st1, Inl e) \<Rightarrow> (st1, Inl e)
      | (st1, Inr _) \<Rightarrow> watch_messages c execution_id keys ms st1)"

definition flatten_reply :: "(string \<times> watch_msg list) list \<Rightarrow> (string \<times> watch_msg) list" where
  "flatten_reply resp = concat (map (\<lambda>(k, ms). map (Pair k) ms) resp)"

record watch_poll =
  wp_now :: int
  wp_others :: "ds \<Rightarrow> ds"
  wp_reply :: watch_reply

datatype watch_out =
    Watching ds watch
  | Finished ds
  | Died ds exn

definition watch_init :: "stream_names \<Rightarrow> watch" where
  "watch_init keys =
     \<lparr>w_last_ids = map_of (map (\<lambda>k. (k, ''0'')) (key_values keys)), w_log_seq = 0, w_output = None\<rparr>"

definition give_up :: "string \<Rightarrow> stream_names \<Rightarrow> int \<Rightarrow> ds \<Rightarrow> ds" where
  "give_up execution_id keys max_lifetime s =
     cleanup_execution_streams execution_id keys
       (ds_audit ((event ''DISPATCHER_WATCH_TIMED_OUT'')\<lparr>a_execution_id := execution_id,
           a_detail := ''no terminal status reached within '' @ str_int max_lifetime @ ''s''\<rparr>) s)"

fun watch_loop ::
    "config \<Rightarrow> string \<Rightarrow> stream_names \<Rightarrow> int \<Rightarrow> int \<Rightarrow> ds \<Rightarrow> watch \<Rightarrow> watch_poll list \<Rightarrow> watch_out" where
  "watch_loop c execution_id keys deadline max_lifetime s w [] = Watching s w"
| "watch_loop c execution_id keys deadline max_lifetime s0 w (p # ps) =
     (let s = wp_others p s0 in
      if \<not> wp_now p < deadline then Finished (give_up execution_id keys max_lifetime s)
      else case to_uuid execution_id of Inl e \<Rightarrow> Died s e | Inr eu \<Rightarrow>
      case executions (ds_db s) eu of
        None \<Rightarrow> Finished s
      | Some ex \<Rightarrow>
          if e_status ex \<in> TERMINAL_STATUSES then Finished (cleanup_execution_streams execution_id keys s)
          else (case wp_reply p of
                  ConnectionLost \<Rightarrow> watch_loop c execution_id keys deadline max_lifetime s w ps
                | Messages resp \<Rightarrow>
                    (case watch_messages c execution_id keys (flatten_reply resp) (s, w) of
                       ((s1, w1), Inl e) \<Rightarrow> Died s1 e
                     | ((s1, w1), Inr _) \<Rightarrow> watch_loop c execution_id keys deadline max_lifetime s1 w1 ps)))"

definition watch_execution ::
    "config \<Rightarrow> string \<Rightarrow> stream_names \<Rightarrow> int \<Rightarrow> int \<Rightarrow> ds \<Rightarrow> watch_poll list \<Rightarrow> watch_out" where
  "watch_execution c execution_id keys now max_lifetime s polls =
     watch_loop c execution_id keys (now + max_lifetime) max_lifetime s (watch_init keys) polls"

section \<open>Reconciling the ACL users\<close>

definition reconcile_acls :: "'r acl_server \<Rightarrow> (string \<Rightarrow> string) \<Rightarrow> db \<Rightarrow> 'r \<Rightarrow> 'r \<times> acl_report result" where
  "reconcile_acls srv pw d r = reconcile srv pw (active_ids d) r"

text \<open>
  \<open>_reconcile_acls_when_back\<close>: each attempt finds the database and the server in the state
  others have left them in; only a lost connection is caught. \<open>None\<close>: still retrying when
  the attempts listed are over.
\<close>

record 'r attempt =
  at_db :: db
  at_others :: "'r \<Rightarrow> 'r"
  at_passwords :: "string \<Rightarrow> string"

fun reconcile_when_back ::
    "'r acl_server \<Rightarrow> bool \<Rightarrow> 'r attempt list \<Rightarrow> 'r \<Rightarrow> 'r \<times> unit result option" where
  "reconcile_when_back srv retry_forever [] r = (r, None)"
| "reconcile_when_back srv retry_forever (a # rest) r0 =
     (case reconcile_acls srv (at_passwords a) (at_db a) (at_others a r0) of
        (r, Inr _) \<Rightarrow> (r, Some (Inr ()))
      | (r, Inl ConnectionError) \<Rightarrow>
          if \<not> retry_forever then (r, Some (Inr ())) else reconcile_when_back srv retry_forever rest r
      | (r, Inl e) \<Rightarrow> (r, Some (Inl e)))"

section \<open>The main loop\<close>

text \<open>
  The local variables of \<open>Command.handle\<close>, with the threads started so far, in order: a
  thread is its place in that list. An entry of the global stream comes with the threads
  alive when it is looked at.
\<close>

record main =
  mn_last_id :: string
  mn_watched :: "string \<rightharpoonup> nat"
  mn_threads :: "(string \<times> stream_names \<times> int) list"

type_synonym main_msg = "string \<times> fields \<times> nat set"

definition main_init :: main where
  "main_init = \<lparr>mn_last_id = ''0'', mn_watched = Map.empty, mn_threads = []\<rparr>"

definition spawn :: "string \<Rightarrow> stream_names \<Rightarrow> main \<Rightarrow> main" where
  "spawn execution_id keys mn =
     mn\<lparr>mn_threads := mn_threads mn @ [(execution_id, keys, 600)],
        mn_watched := (mn_watched mn)(execution_id \<mapsto> length (mn_threads mn))\<rparr>"

text \<open>\<open>text_of\<close> is the text of the dictionary of announced names, in the audit event.\<close>

definition mismatch_event :: "(fields \<Rightarrow> string) \<Rightarrow> string \<Rightarrow> uuid \<Rightarrow> execution \<Rightarrow> fields \<Rightarrow> audit_event" where
  "mismatch_event text_of execution_id du ex f =
     (event ''ANNOUNCEMENT_STREAM_MISMATCH'')
       \<lparr>a_execution_id := execution_id, a_delegate_id := uuid_str du, a_tenant_id := e_tenant_id ex,
        a_detail := ''announced='' @ text_of f\<rparr>"

definition announcement ::
    "(fields \<Rightarrow> string) \<Rightarrow> main_msg \<Rightarrow> ds \<times> main \<Rightarrow> (ds \<times> main) \<times> unit result" where
  "announcement text_of m st =
     (case (st, m) of ((s, mn0), (msg_id, f, alive)) \<Rightarrow>
        let mn = mn0\<lparr>mn_last_id := msg_id\<rparr>; execution_id = field_or f ''execution_id'' [] in
        if f ''type'' \<noteq> Some ''EXECUTION_STARTED'' then ((s, mn), Inr ())
        else if execution_id = [] then ((s, mn), Inr ())
        else if (\<exists>t \<in> alive. mn_watched mn execution_id = Some t) then ((s, mn), Inr ())
        else case to_uuid execution_id of Inl e \<Rightarrow> ((s, mn), Inl e) | Inr eu \<Rightarrow>
        case executions (ds_db s) eu of None \<Rightarrow> ((s, mn), Inr ()) | Some ex \<Rightarrow>
        case e_delegate_id ex of None \<Rightarrow> ((s, mn), Inr ()) | Some du \<Rightarrow>
          let keys = stream_keys execution_id (uuid_str du);
              s1 = (if announced_keys_match f keys then s
                    else ds_audit (mismatch_event text_of execution_id du ex f) s)
          in ((s1, spawn execution_id keys mn), Inr ()))"

fun announcements ::
    "(fields \<Rightarrow> string) \<Rightarrow> main_msg list \<Rightarrow> ds \<times> main \<Rightarrow> (ds \<times> main) \<times> unit result" where
  "announcements text_of [] st = (st, Inr ())"
| "announcements text_of (m # ms) st =
     (case announcement text_of m st of
        (st1, Inl e) \<Rightarrow> (st1, Inl e)
      | (st1, Inr _) \<Rightarrow> announcements text_of ms st1)"

definition prune :: "nat set \<Rightarrow> main \<Rightarrow> main" where
  "prune alive mn =
     mn\<lparr>mn_watched := (\<lambda>k. case mn_watched mn k of
                            None \<Rightarrow> None
                          | Some t \<Rightarrow> if t \<in> alive then Some t else None)\<rparr>"

text \<open>
  One turn of the loop: what others did to the state, then a reply of XREAD with the
  threads alive at its end, or a lost connection with the one attempt that follows it.
\<close>

datatype 'r main_reply = Lost "'r attempt" | Announced "main_msg list" "nat set"

record 'r main_poll =
  mp_others :: "ds \<times> 'r \<Rightarrow> ds \<times> 'r"
  mp_reply :: "'r main_reply"

datatype 'r main_out = Running ds main 'r | Crashed ds main 'r exn

fun main_loop ::
    "(fields \<Rightarrow> string) \<Rightarrow> 'r acl_server \<Rightarrow> ds \<Rightarrow> main \<Rightarrow> 'r \<Rightarrow> 'r main_poll list \<Rightarrow> 'r main_out" where
  "main_loop text_of srv s mn r [] = Running s mn r"
| "main_loop text_of srv s0 mn r0 (p # ps) =
     (case mp_others p (s0, r0) of (s, r) \<Rightarrow>
      case mp_reply p of
        Lost a \<Rightarrow>
          (case reconcile_when_back srv False [a] r of
             (r1, Some (Inl e)) \<Rightarrow> Crashed s mn r1 e
           | (r1, _) \<Rightarrow> main_loop text_of srv s mn r1 ps)
      | Announced ms alive \<Rightarrow>
          (case announcements text_of ms (s, mn) of
             ((s1, mn1), Inl e) \<Rightarrow> Crashed s1 mn1 r e
           | ((s1, mn1), Inr _) \<Rightarrow> main_loop text_of srv s1 (prune alive mn1) r ps))"

text \<open>
  \<open>Command.handle\<close>: the CA files are made first (\<open>ca_up\<close>, the outcome of
  \<open>ensure_root_ca\<close> and \<open>ensure_control_plane_server_cert\<close>), then the ACL users are
  reconciled, however often it takes; \<open>None\<close> while it has not got that far.
\<close>

definition dispatcher_handle ::
    "(fields \<Rightarrow> string) \<Rightarrow> 'r acl_server \<Rightarrow> unit result \<Rightarrow> 'r attempt list \<Rightarrow> ds \<Rightarrow> 'r
       \<Rightarrow> 'r main_poll list \<Rightarrow> 'r main_out option" where
  "dispatcher_handle text_of srv ca_up attempts s r polls =
     (case ca_up of
        Inl e \<Rightarrow> Some (Crashed s main_init r e)
      | Inr _ \<Rightarrow>
          (case reconcile_when_back srv True attempts r of
             (r1, None) \<Rightarrow> None
           | (r1, Some (Inl e)) \<Rightarrow> Some (Crashed s main_init r1 e)
           | (r1, Some (Inr _)) \<Rightarrow> Some (main_loop text_of srv s main_init r1 polls)))"

section \<open>A small configuration for examples\<close>

definition sample_config :: config where
  "sample_config = \<lparr>cfg_host = sample_host, cfg_fixtures = ''/fixtures'', cfg_media = ''/media''\<rparr>"

definition sample_ds :: ds where
  "sample_ds = \<lparr>ds_db = empty_db, ds_files = Map.empty, ds_sent = [], ds_deleted = []\<rparr>"

end
