(* ===== verification/Receiver.thy ===== *)
theory Receiver
  imports Chunked
begin

text \<open>
  \<open>ChunkReceiver.receive_once\<close> of \<open>shared/delegate_protocol/chunked_transfer.py\<close>. Time is
  read in milliseconds. What the environment supplies is a list of polls: for each turn of
  the \<open>while\<close> loop the clock at its top and the reply of XREAD, every message with the
  clock at the moment it is processed. A run that has used up its polls is still waiting.
\<close>

section \<open>State and messages\<close>

record rx =
  rx_transfer_id :: "string option"
  rx_total_size :: "int option"
  rx_checksum :: "string option"
  rx_started :: bool
  rx_buf :: bytes
  rx_seen :: "int set"
  rx_deadline :: int
  rx_last_id :: string

datatype rx_out =
    Continue rx
  | Return bytes string "string option"
  | Raise exn

type_synonym rx_msg = "string \<times> fields \<times> int"
type_synonym reply = "(string \<times> rx_msg list) list"

definition msg_fields :: "rx_msg \<Rightarrow> fields" where
  "msg_fields m = fst (snd m)"

definition msg_time :: "rx_msg \<Rightarrow> int" where
  "msg_time m = snd (snd m)"

definition raise_or :: "'a result \<Rightarrow> ('a \<Rightarrow> rx_out) \<Rightarrow> rx_out" where
  "raise_or m k = (case m of Inl e \<Rightarrow> Raise e | Inr v \<Rightarrow> k v)"

lemma raise_or_simps [simp]: "raise_or (Inl e) k = Raise e" "raise_or (Inr v) k = k v"
  by (simp_all add: raise_or_def)

definition size_mismatch :: "nat \<Rightarrow> int option \<Rightarrow> string" where
  "size_mismatch received expected =
     ''size mismatch: received '' @ str_nat received @ '' expected ''
       @ (case expected of None \<Rightarrow> ''None'' | Some n \<Rightarrow> str_int n)"

text \<open>One message, with the three branches of the loop body; anything else is skipped.\<close>

definition rx_message :: "int \<Rightarrow> rx \<Rightarrow> rx_msg \<Rightarrow> rx_out" where
  "rx_message wait_timeout r0 m =
     (case m of (msg_id, f, now) \<Rightarrow>
        let r = r0\<lparr>rx_last_id := msg_id\<rparr>; mtype = f ''type'' in
        if mtype = Some ''DATA_START'' then
          raise_or (field_req f ''transfer_id'') (\<lambda>tid.
          raise_or (field_req f ''total_size'') (\<lambda>ts.
          raise_or (py_int ts) (\<lambda>sz.
          raise_or (field_req f ''checksum'') (\<lambda>ck.
            Continue (r\<lparr>rx_transfer_id := Some tid, rx_total_size := Some sz,
                        rx_checksum := Some ck, rx_started := True, rx_buf := [],
                        rx_seen := {}, rx_deadline := now + wait_timeout\<rparr>)))))
        else if mtype = Some ''DATA_CHUNK'' \<and> rx_started r
                \<and> f ''transfer_id'' = rx_transfer_id r then
          raise_or (field_req f ''sequence_no'') (\<lambda>sq.
          raise_or (py_int sq) (\<lambda>seq.
            if seq \<in> rx_seen r then Continue r
            else raise_or (field_req f ''chunk_b64'') (\<lambda>b64.
                 raise_or (b64decode b64) (\<lambda>chunk.
                   Continue (r\<lparr>rx_seen := insert seq (rx_seen r), rx_buf := rx_buf r @ chunk,
                               rx_deadline := now + wait_timeout\<rparr>)))))
        else if mtype = Some ''DATA_END'' \<and> rx_started r
                \<and> f ''transfer_id'' = rx_transfer_id r then
          (let data = rx_buf r in
           if Some (int (length data)) \<noteq> rx_total_size r then
             Raise (TransferFailed (size_mismatch (length data) (rx_total_size r)) (Some msg_id))
           else if Some (sha256_bytes data) \<noteq> rx_checksum r then
             Raise (TransferFailed ''checksum mismatch'' (Some msg_id))
           else Return data msg_id (rx_transfer_id r))
        else Continue r)"

fun rx_batch :: "int \<Rightarrow> rx \<Rightarrow> rx_msg list \<Rightarrow> rx_out" where
  "rx_batch wait_timeout r [] = Continue r"
| "rx_batch wait_timeout r (m # ms) =
     (case rx_message wait_timeout r m of
        Continue r' \<Rightarrow> rx_batch wait_timeout r' ms
      | out \<Rightarrow> out)"

section \<open>The loop\<close>

type_synonym poll = "int \<times> reply"

definition rx_init :: "int \<Rightarrow> int \<Rightarrow> string \<Rightarrow> rx" where
  "rx_init wait_timeout now last_id =
     \<lparr>rx_transfer_id = None, rx_total_size = None, rx_checksum = None, rx_started = False,
      rx_buf = [], rx_seen = {}, rx_deadline = now + wait_timeout, rx_last_id = last_id\<rparr>"

text \<open>How long a turn of the loop lets XREAD block.\<close>

definition block_ms :: "rx \<Rightarrow> int \<Rightarrow> int" where
  "block_ms r now = max (rx_deadline r - now) 100"

fun receive_loop :: "int \<Rightarrow> rx \<Rightarrow> poll list \<Rightarrow> rx_out" where
  "receive_loop wait_timeout r [] = Continue r"
| "receive_loop wait_timeout r ((now, resp) # polls) =
     (if rx_deadline r - now \<le> 0 then
        Raise (TransferFailed ''timeout waiting for transfer progress'' (Some (rx_last_id r)))
      else if resp = [] then receive_loop wait_timeout r polls
      else case rx_batch wait_timeout r (concat (map snd resp)) of
             Continue r' \<Rightarrow> receive_loop wait_timeout r' polls
           | out \<Rightarrow> out)"

definition receive_once :: "int \<Rightarrow> int \<Rightarrow> string \<Rightarrow> poll list \<Rightarrow> rx_out" where
  "receive_once wait_timeout now last_id polls =
     receive_loop wait_timeout (rx_init wait_timeout now last_id) polls"

definition poll_msgs :: "poll list \<Rightarrow> rx_msg list" where
  "poll_msgs polls = concat (map (\<lambda>(now, resp). concat (map snd resp)) polls)"

section \<open>The receiver meets the contract\<close>

definition rx_view :: "rx \<Rightarrow> xfer option" where
  "rx_view r =
     (if rx_started r then
        (case (rx_transfer_id r, rx_total_size r, rx_checksum r) of
           (Some tid, Some sz, Some ck) \<Rightarrow>
             Some \<lparr>x_tid = tid, x_total = sz, x_checksum = ck, x_buf = rx_buf r, x_seen = rx_seen r\<rparr>
         | _ \<Rightarrow> None)
      else None)"

definition rx_ok :: "rx \<Rightarrow> bool" where
  "rx_ok r = (rx_started r \<longrightarrow>
     rx_transfer_id r \<noteq> None \<and> rx_total_size r \<noteq> None \<and> rx_checksum r \<noteq> None)"

definition rx_feed :: "int \<Rightarrow> rx \<Rightarrow> rx_msg \<Rightarrow> rx result" where
  "rx_feed wait_timeout r m =
     (case rx_message wait_timeout r m of
        Continue r' \<Rightarrow> Inr r'
      | Return data last_id tid \<Rightarrow> Inl (OtherError ''returned'')
      | Raise e \<Rightarrow> Inl e)"

lemma rx_ok_init: "rx_ok (rx_init w now last_id)"
  by (simp add: rx_ok_def rx_init_def)

lemma rx_okE:
  assumes "rx_ok r" and "rx_started r"
  obtains tid sz ck where "rx_transfer_id r = Some tid" "rx_total_size r = Some sz" "rx_checksum r = Some ck"
  using assms by (auto simp: rx_ok_def)

lemma rx_feed_start:
  assumes "f ''type'' = Some ''DATA_START''"
  shows "emap rx_view (rx_feed w r (i, f, now)) = emap Some (xfer_start f)"
  using assms
  by (auto simp: rx_feed_def rx_message_def Let_def rx_view_def xfer_start_def field_req_def
      raise_or_def ebind_def emap_def split: option.splits sum.splits)

lemma rx_feed_chunk:
  assumes "f ''type'' = Some ''DATA_CHUNK''" and "rx_view r = Some x" and "f ''transfer_id'' = Some (x_tid x)"
  shows "emap rx_view (rx_feed w r (i, f, now)) = emap Some (xfer_chunk x f)"
  using assms
  by (auto simp: rx_feed_def rx_message_def Let_def rx_view_def xfer_chunk_def field_req_def
      raise_or_def ebind_def emap_def split: option.splits sum.splits if_splits)

lemma rx_view_Some:
  assumes "rx_view r = Some x"
  shows "rx_started r" and "rx_transfer_id r = Some (x_tid x)" and "rx_total_size r = Some (x_total x)"
    and "rx_checksum r = Some (x_checksum x)" and "rx_buf r = x_buf x" and "rx_seen r = x_seen x"
  using assms by (auto simp: rx_view_def split: if_splits option.splits)

lemma rx_view_None: "rx_ok r \<Longrightarrow> rx_view r = None \<longleftrightarrow> \<not> rx_started r"
  by (auto simp: rx_view_def elim: rx_okE split: option.splits)

lemma rx_feed_skip:
  assumes "rx_ok r" and "f ''type'' \<noteq> Some ''DATA_START''" and "\<not> xfer_closes (rx_view r) f"
    and "\<And>x. rx_view r = Some x \<Longrightarrow> \<not> (f ''type'' = Some ''DATA_CHUNK'' \<and> f ''transfer_id'' = Some (x_tid x))"
  shows "rx_feed w r (i, f, now) = Inr (r\<lparr>rx_last_id := i\<rparr>)"
proof (cases "rx_view r")
  case None
  then have "\<not> rx_started r" using assms(1) rx_view_None by blast
  then show ?thesis using assms(2) by (simp add: rx_feed_def rx_message_def Let_def)
next
  case (Some x)
  note v = rx_view_Some [OF Some]
  show ?thesis using assms(2,3) assms(4) [OF Some] v
    by (auto simp: rx_feed_def rx_message_def Let_def xfer_closes_def Some)
qed

lemma rx_view_last_id [simp]: "rx_view (r\<lparr>rx_last_id := i\<rparr>) = rx_view r"
  by (simp add: rx_view_def split: option.splits)

lemma rx_refines:
  assumes "rx_ok r" and "\<not> xfer_closes (rx_view r) (msg_fields m)"
  shows "emap rx_view (rx_feed w r m) = xfer_step (rx_view r) (msg_fields m)"
proof -
  obtain i f now where m: "m = (i, f, now)" by (cases m)
  consider (start) "f ''type'' = Some ''DATA_START''"
    | (chunk) x where "f ''type'' = Some ''DATA_CHUNK''" "rx_view r = Some x" "f ''transfer_id'' = Some (x_tid x)"
    | (skip) "f ''type'' \<noteq> Some ''DATA_START''"
        "\<And>x. rx_view r = Some x \<Longrightarrow> \<not> (f ''type'' = Some ''DATA_CHUNK'' \<and> f ''transfer_id'' = Some (x_tid x))"
    by blast
  then show ?thesis
  proof cases
    case start
    then show ?thesis by (simp add: m msg_fields_def rx_feed_start xfer_step_def)
  next
    case chunk
    then show ?thesis by (simp add: m msg_fields_def rx_feed_chunk xfer_step_def)
  next
    case skip
    then show ?thesis
      using rx_feed_skip [OF assms(1) skip(1) _ skip(2)] assms(2)
      by (auto simp: m msg_fields_def xfer_step_def split: option.splits)
  qed
qed

lemma rx_feed_keeps_ok: "rx_ok r \<Longrightarrow> rx_feed w r m = Inr r' \<Longrightarrow> rx_ok r'"
  by (cases m) (auto simp: rx_feed_def rx_message_def Let_def rx_ok_def raise_or_def
      split: sum.splits if_splits rx_out.splits)

interpretation rxs: chunk_sink "rx_feed w" rx_view msg_fields rx_ok for w
  by unfold_locales (auto intro: rx_refines rx_feed_keeps_ok)

section \<open>From messages to polls\<close>

lemma rx_feed_Inr: "rx_feed w r m = Inr r' \<longleftrightarrow> rx_message w r m = Continue r'"
  by (auto simp: rx_feed_def split: rx_out.splits)

lemma rx_batch_fold: "fold_res (rx_feed w) r ms = Inr r' \<Longrightarrow> rx_batch w r (ms @ rest) = rx_batch w r' rest"
  by (induction ms arbitrary: r) (auto simp: ebind_eq_Inr rx_feed_Inr)

lemma rx_batch_append:
  "rx_batch w r (xs @ ys) = (case rx_batch w r xs of Continue r' \<Rightarrow> rx_batch w r' ys | out \<Rightarrow> out)"
  by (induction xs arbitrary: r) (auto split: rx_out.splits)

lemma rx_batch_Continue_fold: "rx_batch w r ms = Continue r' \<Longrightarrow> fold_res (rx_feed w) r ms = Inr r'"
  by (induction ms arbitrary: r) (auto simp: rx_feed_def split: rx_out.splits)

lemma rx_fold_ok: "fold_res (rx_feed w) r ms = Inr r' \<Longrightarrow> rx_ok r \<Longrightarrow> rx_ok r'"
  by (induction ms arbitrary: r) (auto simp: ebind_eq_Inr intro: rx_feed_keeps_ok)

text \<open>The deadline only ever moves to a message's time plus the timeout.\<close>

lemma rx_message_deadline:
  assumes "rx_message w r m = Continue r'"
  shows "rx_deadline r' = rx_deadline r \<or> rx_deadline r' = msg_time m + w"
  using assms by (cases m) (auto simp: rx_message_def Let_def msg_time_def raise_or_def
      split: sum.splits if_splits)

lemma rx_batch_deadline:
  assumes "rx_batch w r ms = Continue r'"
  shows "rx_deadline r' = rx_deadline r \<or> (\<exists>m \<in> set ms. rx_deadline r' = msg_time m + w)"
  using assms
proof (induction ms arbitrary: r)
  case Nil
  then show ?case by simp
next
  case (Cons m ms)
  then obtain r1 where r1: "rx_message w r m = Continue r1" "rx_batch w r1 ms = Continue r'"
    by (auto split: rx_out.splits)
  with Cons.IH [of r1] rx_message_deadline [OF r1(1)] show ?case by auto
qed

lemma poll_msgs_simps [simp]:
  "poll_msgs [] = []" "poll_msgs ((now, resp) # ps) = concat (map snd resp) @ poll_msgs ps"
  by (simp_all add: poll_msgs_def)

text \<open>While every poll comes before the deadline, the loop processes the messages of the polls
  one after the other.\<close>

lemma receive_loop_flat:
  assumes "\<forall>(now, resp) \<in> set polls. now < d" and "\<forall>m \<in> set (poll_msgs polls). d \<le> msg_time m + w"
    and "d \<le> rx_deadline r"
  shows "receive_loop w r polls = rx_batch w r (poll_msgs polls)"
  using assms
proof (induction polls arbitrary: r)
  case Nil
  then show ?case by simp
next
  case (Cons p ps)
  obtain now resp where p: "p = (now, resp)" by (cases p)
  have intime: "\<not> rx_deadline r - now \<le> 0" using Cons.prems p by auto
  have IH: "d \<le> rx_deadline r' \<Longrightarrow> receive_loop w r' ps = rx_batch w r' (poll_msgs ps)" for r'
    using Cons.IH Cons.prems(1,2) by (auto simp: p)
  have "d \<le> rx_deadline r'" if "rx_batch w r (concat (map snd resp)) = Continue r'" for r'
    using rx_batch_deadline [OF that] Cons.prems(2,3) by (auto simp: p)
  then show ?case
    using intime IH Cons.prems(3)
    by (auto simp: p rx_batch_append split: rx_out.splits)
qed

text \<open>For the examples: one reply with an empty transfer.\<close>

definition sample_reply :: "poll list" where
  "sample_reply =
     [(0, [(''s'', [(''1-0'', start_msg Map.empty 4 ''t'' [], 0), (''1-1'', end_msg Map.empty ''t'' 0, 0)])])]"

lemma sample_send: "send_bytes 4 ''t'' [] Map.empty =
    (start_msg Map.empty 4 ''t'' [] # [] @ [end_msg Map.empty ''t'' 0], Inr (''t'', sha256_bytes [], 0))"
  by (simp add: send_bytes_def Let_def py_range_def)

section \<open>What the receiver guarantees\<close>

text \<open>The closing message, all three outcomes.\<close>

lemma rx_message_end:
  assumes "rx_view r = Some x" and "f ''type'' = Some ''DATA_END''" and "f ''transfer_id'' = Some (x_tid x)"
  shows "rx_message w r (i, f, now) =
    (if int (length (x_buf x)) \<noteq> x_total x then Raise (TransferFailed (size_mismatch (length (x_buf x)) (Some (x_total x))) (Some i))
     else if sha256_bytes (x_buf x) \<noteq> x_checksum x then Raise (TransferFailed ''checksum mismatch'' (Some i))
     else Return (x_buf x) i (Some (x_tid x)))"
  using rx_view_Some [OF assms(1)] assms(2,3) by (auto simp: rx_message_def Let_def)

lemma send_bytes_closing:
  assumes "0 < cs" and "send_bytes cs tid data base = (start # chunks @ [closing], res)"
  shows "start = start_msg base cs tid data \<and> (\<exists>n. closing = end_msg base tid n)"
  using send_bytes_run [OF assms, of None] by auto

text \<open>
  Messages before the transfer (\<open>pre\<close>) may be anything that leaves the receiver running;
  \<open>got\<close> is a delivery of its chunks; \<open>post\<close> is whatever follows in the same polls.
\<close>

lemma receive_transfer:
  assumes "0 < cs"
    and "send_bytes cs tid data base = (start # chunks @ [closing], res)"
    and "poll_msgs polls = pre @ m0 # got @ m1 # post"
    and "rx_batch w (rx_init w t0 last_id) pre = Continue r1"
    and "msg_fields m0 = start" and "msg_fields m1 = closing"
    and "delivery tid {} chunks (map msg_fields got)"
    and "\<forall>(now, resp) \<in> set polls. now < t0 + w" and "\<forall>m \<in> set (poll_msgs polls). t0 \<le> msg_time m"
  shows "receive_once w t0 last_id polls = Return data (fst m1) (Some tid)"
proof -
  have ok1: "rx_ok r1"
    using rx_fold_ok [OF rx_batch_Continue_fold [OF assms(4)]] rx_ok_init by simp
  obtain r2 x where r2: "fold_res (rx_feed w) r1 (m0 # got) = Inr r2" "rx_view r2 = Some x"
    "x_tid x = tid" "x_buf x = data" "xfer_valid x"
    using rxs.transfer_complete [OF assms(1,2) ok1 assms(5,7)] by blast
  obtain n where "closing = end_msg base tid n"
    using send_bytes_closing [OF assms(1,2)] by blast
  then have close: "rx_message w r2 m1 = Return data (fst m1) (Some tid)"
    using rx_message_end [OF r2(2)] r2(3-5) assms(6)
    by (cases m1) (auto simp: msg_fields_def end_msg_def xfer_valid_def)
  have "rx_batch w r1 ((m0 # got) @ m1 # post) = Return data (fst m1) (Some tid)"
    using rx_batch_fold [OF r2(1)] close by simp
  then have "rx_batch w (rx_init w t0 last_id) (poll_msgs polls) = Return data (fst m1) (Some tid)"
    using rx_batch_fold [OF rx_batch_Continue_fold [OF assms(4)]] assms(3) by simp
  moreover have "receive_loop w (rx_init w t0 last_id) polls
      = rx_batch w (rx_init w t0 last_id) (poll_msgs polls)"
    by (rule receive_loop_flat [OF assms(8)]) (use assms(9) in \<open>auto simp: rx_init_def\<close>)
  ultimately show ?thesis by (simp add: receive_once_def)
qed

text \<open>C10: Round trip of the transfer protocol. Whatever the receiver has read before, if the messages
  of one \<open>send_bytes\<close> call reach it in order, with repeated chunks and foreign messages in
  between, while every poll comes within \<open>wait_timeout\<close> of the start, then \<open>receive_once\<close>
  returns exactly the payload, the transfer's id, and the id of its DATA_END as the place
  to resume.\<close>

theorem receive_once_roundtrip:
  assumes "0 < cs"
    and "send_bytes cs tid data base = (start # chunks @ [closing], res)"
    and "poll_msgs polls = pre @ m0 # got @ m1 # post"
    and "rx_batch w (rx_init w t0 last_id) pre = Continue r1"
    and "msg_fields m0 = start" and "msg_fields m1 = closing"
    and "delivery tid {} chunks (map msg_fields got)"
    and "\<forall>(now, resp) \<in> set polls. now < t0 + w" and "\<forall>m \<in> set (poll_msgs polls). t0 \<le> msg_time m"
  shows "receive_once w t0 last_id polls = Return data (fst m1) (Some tid)"
  using assms by (rule receive_transfer)

text \<open>The announcements seen so far explain the receiver's state.\<close>

definition announced :: "fields set \<Rightarrow> string option \<Rightarrow> int option \<Rightarrow> string option \<Rightarrow> bool" where
  "announced H tid sz ck =
     (\<exists>f \<in> H. f ''type'' = Some ''DATA_START'' \<and> f ''transfer_id'' = tid \<and> tid \<noteq> None
        \<and> (\<exists>ts n. f ''total_size'' = Some ts \<and> py_int ts = Inr n \<and> sz = Some n)
        \<and> f ''checksum'' = ck \<and> ck \<noteq> None)"

definition rx_explained :: "fields set \<Rightarrow> rx \<Rightarrow> bool" where
  "rx_explained H r =
     (rx_started r \<longrightarrow> announced H (rx_transfer_id r) (rx_total_size r) (rx_checksum r))"

lemma rx_message_explained:
  assumes "rx_explained H r" and "msg_fields m \<in> H" and "rx_message w r m = Continue r'"
  shows "rx_explained H r'"
proof (cases m)
  case (fields i f now)
  show ?thesis
    using assms unfolding fields
    by (auto simp: rx_explained_def announced_def rx_message_def Let_def msg_fields_def raise_or_def
        field_req_def split: sum.splits if_splits option.splits)
qed

lemma rx_message_Return:
  assumes "rx_explained H r" and "rx_message w r m = Return data lid tid"
  shows "announced H tid (Some (int (length data))) (Some (sha256_bytes data))"
  using assms
  by (cases m) (auto simp: rx_explained_def rx_message_def Let_def raise_or_def
      split: sum.splits if_splits)

lemma rx_batch_explained:
  assumes "rx_explained H r" and "msg_fields ` set ms \<subseteq> H"
  shows "rx_batch w r ms = Continue r' \<Longrightarrow> rx_explained H r'"
    and "rx_batch w r ms = Return data lid tid \<Longrightarrow>
           announced H tid (Some (int (length data))) (Some (sha256_bytes data))"
  using assms
  by (induction ms arbitrary: r)
    (auto split: rx_out.splits dest: rx_message_explained rx_message_Return)

lemma receive_loop_Return:
  assumes "rx_explained H r" and "msg_fields ` set (poll_msgs polls) \<subseteq> H"
    and "receive_loop w r polls = Return data lid tid"
  shows "announced H tid (Some (int (length data))) (Some (sha256_bytes data))"
  using assms
proof (induction polls arbitrary: r)
  case Nil
  then show ?case by simp
next
  case (Cons p ps)
  obtain now resp where p: "p = (now, resp)" by (cases p)
  have H: "msg_fields ` set (concat (map snd resp)) \<subseteq> H" "msg_fields ` set (poll_msgs ps) \<subseteq> H"
    using Cons.prems(2) by (auto simp: p)
  show ?case
    using Cons.prems(3) Cons.IH [OF _ H(2)] rx_batch_explained [OF Cons.prems(1) H(1)] Cons.prems(1)
    by (auto simp: p split: if_splits rx_out.splits)
qed

text \<open>Integrity. If \<open>receive_once\<close> returns, one of the messages it read is the DATA_START of that
  transfer, and the returned bytes have the size and the SHA-256 checksum it announced.\<close>

theorem receive_once_integrity:
  assumes "receive_once w t0 last_id polls = Return data lid tid"
  shows "announced (msg_fields ` set (poll_msgs polls)) tid
           (Some (int (length data))) (Some (sha256_bytes data))"
  using assms unfolding receive_once_def
  by (rule receive_loop_Return [rotated 2]) (simp_all add: rx_explained_def rx_init_def)

lemma receive_loop_late:
  assumes "rx_deadline r \<le> t" and "\<forall>m \<in> set (poll_msgs polls). msg_time m + w \<le> t"
    and "(t, resp) \<in> set polls"
  shows "receive_loop w r polls \<noteq> Continue r'"
  using assms
proof (induction polls arbitrary: r)
  case Nil
  then show ?case by simp
next
  case (Cons p ps)
  obtain now rs where p: "p = (now, rs)" by (cases p)
  have late: "\<forall>m \<in> set (poll_msgs ps). msg_time m + w \<le> t"
    using Cons.prems(2) by (auto simp: p)
  have step: "rx_deadline r1 \<le> t" if "rx_batch w r (concat (map snd rs)) = Continue r1" for r1
    using rx_batch_deadline [OF that] Cons.prems(1,2) by (fastforce simp: p)
  show ?case
  proof (cases "(t, resp) \<in> set ps")
    case True
    with Cons.IH late step Cons.prems(1) show ?thesis
      by (auto simp: p split: rx_out.splits)
  next
    case False
    with Cons.prems p have "now = t" by auto
    with Cons.prems(1) show ?thesis by (simp add: p)
  qed
qed

text \<open>The wait is bounded. If some poll comes at least \<open>wait_timeout\<close> after the start and after
  every message read, \<open>receive_once\<close> has returned or raised by then.\<close>

theorem receive_once_terminates:
  assumes "t0 + w \<le> t" and "\<forall>m \<in> set (poll_msgs polls). msg_time m + w \<le> t"
    and "(t, resp) \<in> set polls"
  shows "\<not> (\<exists>r. receive_once w t0 last_id polls = Continue r)"
  using receive_loop_late [OF _ assms(2,3)] assms(1) by (simp add: receive_once_def rx_init_def)

section \<open>Examples\<close>

lemma receive_once_roundtrip_witness:
  "receive_once 15000 0 ''0'' sample_reply = Return [] ''1-1'' (Some ''t'')"
proof -
  have "receive_once 15000 0 ''0'' sample_reply = Return [] (fst (''1-1'', end_msg Map.empty ''t'' 0, 0 :: int)) (Some ''t'')"
    by (rule receive_once_roundtrip [OF _ sample_send, where pre = "[]" and got = "[]" and post = "[]"
          and ?m0.0 = "(''1-0'', start_msg Map.empty 4 ''t'' [], 0)"])
       (auto simp: sample_reply_def msg_fields_def msg_time_def intro: delivery.finished)
  then show ?thesis by simp
qed

lemma receive_once_integrity_witness:
  "announced (msg_fields ` set (poll_msgs sample_reply)) (Some ''t'') (Some 0) (Some (sha256_bytes []))"
proof -
  have "receive_once 15000 0 ''0'' sample_reply = Return [] ''1-1'' (Some ''t'')"
    by (simp add: receive_once_def sample_reply_def rx_init_def rx_message_def start_msg_def end_msg_def)
  from receive_once_integrity [OF this] show ?thesis by simp
qed

lemma receive_once_terminates_witness:
  "\<not> (\<exists>r. receive_once 15000 0 ''0'' [(15000, [])] = Continue r)"
  by (rule receive_once_terminates [of 0 15000 15000]) simp_all

end
