(* ===== verification/DispatcherFacts.thy ===== *)
theory DispatcherFacts
  imports Dispatcher Receiver
begin

text \<open>
  What the dispatcher guarantees: its output handler is a receiver in the sense of
  \<open>chunk_sink\<close>, an execution is SUCCEEDED only with a validated output on disk, a workspace
  goes only to the active delegate it belongs to, streams are deleted once and only at the
  end, every watcher ends, and no announcement chooses the streams that are read.
\<close>

section \<open>The output handler is a receiver\<close>

text \<open>The receiver's state after a message, \<open>s\<close> being the dispatcher's; while no transfer
  closes, \<open>s\<close> plays no part.\<close>

definition out_feed :: "string \<Rightarrow> string \<Rightarrow> ds \<Rightarrow> xfer option \<Rightarrow> fields \<Rightarrow> xfer option result" where
  "out_feed media eid s st f = snd (handle_output_message media eid f st s)"

lemma output_not_closing:
  assumes "\<not> xfer_closes st f"
  shows "handle_output_message media eid f st s = (s, xfer_step st f)"
proof (cases "f ''type'' = Some ''DATA_START''")
  case True
  then show ?thesis by (simp add: handle_output_message_def xfer_step_def xfer_start_def emap_ebind)
next
  case no_start: False
  show ?thesis
  proof (cases st)
    case None
    with no_start show ?thesis by (simp add: handle_output_message_def xfer_step_def)
  next
    case (Some x)
    with no_start assms show ?thesis
      by (auto simp: handle_output_message_def xfer_step_def xfer_chunk_def xfer_closes_def
          ebind_def emap_def split: sum.splits)
  qed
qed

interpretation outs: chunk_sink "out_feed media eid s" "\<lambda>st. st" "\<lambda>f. f" "\<lambda>_. True" for media eid s
  by unfold_locales (simp_all add: out_feed_def output_not_closing emap_def sum.case_eq_if split: sum.splits)

lemma output_closing:
  assumes "xfer_closes (Some x) f"
  shows "handle_output_message media eid f (Some x) s =
    (case finish_output media eid x s of (s1, Inl e) \<Rightarrow> (s1, Inl e) | (s1, Inr _) \<Rightarrow> (s1, Inr None))"
  using assms by (simp add: handle_output_message_def xfer_closes_def)

lemma finish_output_result: "snd (finish_output media eid x s) = emap (\<lambda>_. ()) (to_uuid eid)"
  by (simp add: finish_output_def Let_def split: sum.splits)

lemma out_feed_state: "out_feed media eid s = out_feed media eid s'"
proof (intro ext)
  fix st f
  show "out_feed media eid s st f = out_feed media eid s' st f"
  proof (cases "xfer_closes st f")
    case True
    then obtain x where x: "st = Some x" by (cases st) (simp_all add: xfer_closes_def)
    have "snd (case p of (s1, Inl e) \<Rightarrow> (s1, Inl e) | (s1, Inr _) \<Rightarrow> (s1, Inr None))
        = emap (\<lambda>_. None :: xfer option) (snd p)"
      for p :: "ds \<times> unit result"
      by (cases p) (simp add: emap_def split: sum.splits)
    with True show ?thesis
      by (simp add: out_feed_def x output_closing finish_output_result)
  qed (simp add: out_feed_def output_not_closing)
qed

section \<open>What a handler may change\<close>

text \<open>A table in which each row keeps its identity and its output, and none becomes SUCCEEDED.\<close>

definition same_identity :: "execution \<Rightarrow> execution \<Rightarrow> bool" where
  "same_identity a b =
     (e_tenant_id a = e_tenant_id b \<and> e_delegate_id a = e_delegate_id b
      \<and> e_workspace_fixture a = e_workspace_fixture b)"

definition benign :: "execution \<Rightarrow> execution \<Rightarrow> bool" where
  "benign row row' =
     (same_identity row row' \<and> e_output_path row' = e_output_path row
      \<and> e_output_checksum row' = e_output_checksum row
      \<and> (e_status row' = STATUS_SUCCEEDED \<longrightarrow> e_status row = STATUS_SUCCEEDED))"

definition benign_step :: "(uuid \<rightharpoonup> execution) \<Rightarrow> (uuid \<rightharpoonup> execution) \<Rightarrow> bool" where
  "benign_step E E' = (\<forall>u. rel_option benign (E u) (E' u))"

lemma benign_refl [simp]: "benign row row"
  by (simp add: benign_def same_identity_def)

lemma benign_step_refl [simp]: "benign_step E E"
  by (simp add: benign_step_def option.rel_refl)

lemma benign_step_upd: "E u = Some row \<Longrightarrow> benign row row' \<Longrightarrow> benign_step E (E(u \<mapsto> row'))"
  by (simp add: benign_step_def option.rel_refl)

lemma benign_step_update:
  assumes "\<And>row. E u = Some row \<Longrightarrow> benign row (g row)"
  shows "benign_step E (E(u := map_option g (E u)))"
  using assms by (cases "E u") (auto simp: benign_step_def option.rel_refl)

lemma benign_stepD:
  assumes "benign_step E E'" and "E' u = Some row'"
  shows "\<exists>row. E u = Some row \<and> benign row row'"
  using assms(1) [unfolded benign_step_def, rule_format, of u] assms(2) by (cases "E u") auto

lemma benign_trans: "benign a b \<Longrightarrow> benign b c \<Longrightarrow> benign a c"
  by (auto simp: benign_def same_identity_def)

lemma benign_step_trans: "benign_step E E' \<Longrightarrow> benign_step E' E'' \<Longrightarrow> benign_step E E''"
  unfolding benign_step_def
  using option.rel_transp [OF transpI [of benign, OF benign_trans]] by (meson transpD)

lemma executions_update_fun:
  "executions (update_execution u g d) = (executions d)(u := map_option g (executions d u))"
  by (rule ext) simp

lemma STATUS_MAPPING_not_succeeded [simp]: "STATUS_MAPPING t \<noteq> Some STATUS_SUCCEEDED"
  by (simp add: STATUS_MAPPING_def)

lemma data_request_frame:
  assumes "handle_data_request h fx tid eid ekey f s = (s1, r)"
  shows "benign_step (executions (ds_db s)) (executions (ds_db s1)) \<and> ds_files s1 = ds_files s
    \<and> ds_deleted s1 = ds_deleted s \<and> delegates (ds_db s1) = delegates (ds_db s)"
  using assms unfolding handle_data_request_def Let_def
  by (auto simp: executions_update_fun benign_def same_identity_def intro!: benign_step_upd
      split: option.splits sum.splits if_splits prod.splits)

lemma log_frame:
  assumes "handle_log eid f n s = (s1, r)"
  shows "executions (ds_db s1) = executions (ds_db s) \<and> ds_files s1 = ds_files s
    \<and> ds_deleted s1 = ds_deleted s \<and> delegates (ds_db s1) = delegates (ds_db s) \<and> ds_sent s1 = ds_sent s"
  using assms by (auto simp: handle_log_def split: sum.splits if_splits)

lemma status_frame:
  assumes "handle_status eid f s = (s1, r)"
  shows "benign_step (executions (ds_db s)) (executions (ds_db s1)) \<and> ds_files s1 = ds_files s
    \<and> ds_deleted s1 = ds_deleted s \<and> delegates (ds_db s1) = delegates (ds_db s) \<and> ds_sent s1 = ds_sent s"
  using assms unfolding handle_status_def Let_def
  by (auto simp: executions_update_fun benign_def same_identity_def intro!: benign_step_update
      split: option.splits sum.splits)

text \<open>The output handler either changes nothing, or closes a transfer.\<close>

lemma output_cases:
  assumes "handle_output_message media eid f st s = (s1, r)"
  obtains (open_transfer) "s1 = s" "r = xfer_step st f" "\<not> xfer_closes st f"
    | (bad_id) e where "to_uuid eid = Inl e" "r = Inl e"
    | (accepted) x u where "st = Some x" "xfer_closes st f" "to_uuid eid = Inr u" "xfer_valid x" "r = Inr None"
        "s1 = ds_audit ((event ''OUTPUT_RECEIVED'')\<lparr>a_execution_id := eid, a_detail := ''path=''
                @ out_path media eid @ '' size='' @ str_nat (length (x_buf x))\<rparr>)
              (s\<lparr>ds_files := (ds_files s)(out_path media eid \<mapsto> x_buf x),
                 ds_db := update_execution u (\<lambda>row. row\<lparr>e_status := STATUS_SUCCEEDED,
                   e_output_path := out_path media eid, e_output_checksum := sha256_bytes (x_buf x)\<rparr>) (ds_db s)\<rparr>)"
    | (refused) x u where "st = Some x" "xfer_closes st f" "to_uuid eid = Inr u" "\<not> xfer_valid x" "r = Inr None"
        "s1 = ds_audit ((event ''OUTPUT_VALIDATION_FAILED'')\<lparr>a_execution_id := eid,
                a_detail := ''size or checksum mismatch on output transfer''\<rparr>)
              (s\<lparr>ds_db := update_execution u (\<lambda>row. row\<lparr>e_status := STATUS_FAILED\<rparr>) (ds_db s)\<rparr>)"
proof (cases "xfer_closes st f")
  case False
  with assms open_transfer show ?thesis by (simp add: output_not_closing)
next
  case closes: True
  then obtain x where x: "st = Some x" by (cases st) (simp_all add: xfer_closes_def)
  show ?thesis
  proof (cases "to_uuid eid")
    case (Inl e)
    with assms bad_id closes show ?thesis
      by (auto simp: x output_closing finish_output_def Let_def)
  next
    case (Inr u)
    show ?thesis
    proof (cases "xfer_valid x")
      case True
      then have "x_checksum x = sha256_bytes (x_buf x)" by (simp add: xfer_valid_def)
      with True Inr assms accepted closes show ?thesis
        by (auto simp: x output_closing finish_output_def Let_def xfer_valid_def)
    next
      case False
      with Inr assms refused closes show ?thesis
        by (auto simp: x output_closing finish_output_def Let_def xfer_valid_def)
    qed
  qed
qed

section \<open>Stored outputs\<close>

text \<open>Every recorded output is on disk with the recorded checksum, at the path of its
  execution, and a SUCCEEDED execution has one.\<close>

definition stored :: "string \<Rightarrow> (string \<rightharpoonup> bytes) \<Rightarrow> uuid \<Rightarrow> execution \<Rightarrow> bool" where
  "stored media files u row =
     (\<exists>eid data. to_uuid eid = Inr u \<and> e_output_path row = out_path media eid
        \<and> files (out_path media eid) = Some data \<and> e_output_checksum row = sha256_bytes data)"

definition outputs_ok :: "string \<Rightarrow> (uuid \<rightharpoonup> execution) \<Rightarrow> (string \<rightharpoonup> bytes) \<Rightarrow> bool" where
  "outputs_ok media E files =
     (\<forall>u row. E u = Some row \<longrightarrow>
        (e_output_path row \<noteq> [] \<longrightarrow> stored media files u row)
        \<and> (e_status row = STATUS_SUCCEEDED \<longrightarrow> e_output_path row \<noteq> []))"

lemma out_path_not_Nil: "out_path media eid \<noteq> []"
  by (simp add: out_path_def py_join_def)

lemma to_uuid_relative: "to_uuid eid = Inr u \<Longrightarrow> \<not> isabs (eid @ ''.zip'')"
  using uuid_of_str_no_slash [of eid u]
  by (cases eid) (auto simp: to_uuid_eq_Inr isabs_def slash_def prefix_Cons)

lemma out_path_inject:
  assumes "to_uuid a = Inr u" and "to_uuid b = Inr v" and "out_path media a = out_path media b"
  shows "a = b"
  using assms(3) to_uuid_relative [OF assms(1)] to_uuid_relative [OF assms(2)]
  by (simp add: out_path_def py_join_inject)

lemma outputs_ok_benign:
  assumes "outputs_ok media E files" and "benign_step E E'"
  shows "outputs_ok media E' files"
  unfolding outputs_ok_def
proof (intro allI impI)
  fix v row'
  assume "E' v = Some row'"
  then obtain row where "E v = Some row" "e_output_path row' = e_output_path row"
    "e_output_checksum row' = e_output_checksum row" "e_status row' = STATUS_SUCCEEDED \<longrightarrow> e_status row = STATUS_SUCCEEDED"
    using benign_stepD [OF assms(2)] unfolding benign_def by metis
  with assms(1) show "(e_output_path row' \<noteq> [] \<longrightarrow> stored media files v row')
      \<and> (e_status row' = STATUS_SUCCEEDED \<longrightarrow> e_output_path row' \<noteq> [])"
    by (simp add: outputs_ok_def stored_def)
qed

lemma outputs_ok_write:
  assumes "outputs_ok media E files" and "to_uuid eid = Inr u"
    and "g = (\<lambda>row. row\<lparr>e_status := STATUS_SUCCEEDED, e_output_path := out_path media eid,
                        e_output_checksum := sha256_bytes data\<rparr>)"
  shows "outputs_ok media (E(u := map_option g (E u))) (files(out_path media eid \<mapsto> data))"
    (is "outputs_ok media ?E ?files")
  unfolding outputs_ok_def
proof (intro allI impI)
  fix v row
  assume v: "?E v = Some row"
  show "(e_output_path row \<noteq> [] \<longrightarrow> stored media ?files v row)
      \<and> (e_status row = STATUS_SUCCEEDED \<longrightarrow> e_output_path row \<noteq> [])"
  proof (cases "v = u")
    case True
    with v assms(2) show ?thesis by (auto simp: stored_def out_path_not_Nil assms(3))
  next
    case False
    have "stored media ?files v row" if old: "stored media files v row"
    proof -
      obtain b dat where b: "to_uuid b = Inr v" "e_output_path row = out_path media b"
        "files (out_path media b) = Some dat" "e_output_checksum row = sha256_bytes dat"
        using old unfolding stored_def by blast
      then have "b \<noteq> eid" using assms(2) False by auto
      then have "out_path media b \<noteq> out_path media eid"
        using out_path_inject [OF b(1) assms(2)] by metis
      with b show ?thesis by (auto simp: stored_def)
    qed
    with assms(1) v False show ?thesis by (simp add: outputs_ok_def)
  qed
qed

lemma output_keeps_ok:
  assumes "outputs_ok media (executions (ds_db s)) (ds_files s)" and "to_uuid eid = Inr u"
    and "handle_output_message media eid f st s = (s1, r)"
  shows "outputs_ok media (executions (ds_db s1)) (ds_files s1)"
  using assms(3)
proof (cases rule: output_cases)
  case open_transfer
  with assms(1) show ?thesis by simp
next
  case bad_id
  with assms(2) show ?thesis by simp
next
  case (accepted x v)
  then show ?thesis
    using outputs_ok_write [OF assms(1)] by (simp add: executions_update_fun)
next
  case (refused x v)
  then show ?thesis
    by (auto simp: executions_update_fun benign_def same_identity_def
        intro!: outputs_ok_benign [OF assms(1)] benign_step_update)
qed

section \<open>The two receivers agree\<close>

lemma rx_message_Return_closes:
  assumes "rx_ok r" and "rx_message w r (i, f, now) = Return data lid tid"
  shows "xfer_closes (rx_view r) f"
proof -
  have "f ''type'' = Some ''DATA_END'' \<and> rx_started r \<and> f ''transfer_id'' = rx_transfer_id r"
    using assms(2) by (auto simp: rx_message_def Let_def raise_or_def split: if_splits sum.splits)
  moreover from this assms(1) obtain x where "rx_view r = Some x"
    using rx_view_None by blast
  ultimately show ?thesis using rx_view_Some(2) by (fastforce simp: xfer_closes_def)
qed

text \<open>C11: Two receivers, one protocol. The worker's receiver and the dispatcher's output handler are
  written separately, and do the same with every message, whatever state the transfer is
  in: where one goes on the other goes on in the corresponding state, where one returns the
  payload the other stores exactly that payload and marks the execution SUCCEEDED with its
  checksum, where one finds the transfer invalid the other marks the execution FAILED and
  stores nothing, and where one raises on a malformed message so does the other.\<close>

theorem receivers_agree:
  assumes "rx_ok r" and "to_uuid eid = Inr u"
  shows "case rx_message w r (i, f, now) of
      Continue r' \<Rightarrow> handle_output_message media eid f (rx_view r) s = (s, Inr (rx_view r'))
    | Return data lid tid \<Rightarrow>
        (\<exists>s'. handle_output_message media eid f (rx_view r) s = (s', Inr None)
           \<and> ds_files s' = (ds_files s)(out_path media eid \<mapsto> data)
           \<and> executions (ds_db s') u = map_option (\<lambda>row. row\<lparr>e_status := STATUS_SUCCEEDED,
                e_output_path := out_path media eid, e_output_checksum := sha256_bytes data\<rparr>) (executions (ds_db s) u))
    | Raise e \<Rightarrow>
        if xfer_closes (rx_view r) f
        then (\<exists>msg. e = TransferFailed msg (Some i)) \<and> (\<exists>s'. handle_output_message media eid f (rx_view r) s = (s', Inr None)
           \<and> ds_files s' = ds_files s
           \<and> executions (ds_db s') u = map_option (\<lambda>row. row\<lparr>e_status := STATUS_FAILED\<rparr>) (executions (ds_db s) u))
        else handle_output_message media eid f (rx_view r) s = (s, Inl e)"
proof (cases "xfer_closes (rx_view r) f")
  case False
  have agree: "emap rx_view (rx_feed w r (i, f, now)) = xfer_step (rx_view r) f"
    using rx_refines [OF assms(1)] False by (simp add: msg_fields_def)
  note handler = output_not_closing [OF False, of media eid s]
  show ?thesis
  proof (cases "rx_message w r (i, f, now)")
    case (Continue r')
    with agree handler show ?thesis by (simp add: rx_feed_def flip: agree)
  next
    case (Return data lid tid)
    with rx_message_Return_closes [OF assms(1)] False show ?thesis by blast
  next
    case (Raise e)
    with agree handler False show ?thesis by (simp add: rx_feed_def flip: agree)
  qed
next
  case True
  then obtain x where x: "rx_view r = Some x" and f: "f ''type'' = Some ''DATA_END''" "f ''transfer_id'' = Some (x_tid x)"
    by (auto simp: xfer_closes_def split: option.splits)
  note rx = rx_message_end [OF x f, of w i now]
  have "\<exists>s1 out. handle_output_message media eid f (Some x) s = (s1, out)" by (metis surj_pair)
  then obtain s1 out where run: "handle_output_message media eid f (Some x) s = (s1, out)" by blast
  then show ?thesis
  proof (cases rule: output_cases)
    case open_transfer
    with True x show ?thesis by simp
  next
    case (bad_id e)
    with assms(2) show ?thesis by simp
  next
    case (accepted y v)
    with assms(2) rx run x show ?thesis by (auto simp: xfer_valid_def)
  next
    case (refused y v)
    with assms(2) rx run x True show ?thesis by (auto simp: xfer_valid_def)
  qed
qed

lemma receivers_agree_witness:
  "handle_output_message ''/media'' (uuid_str 9) (start_msg Map.empty 4 ''t'' []) None sample_ds
     = (sample_ds, Inr (Some \<lparr>x_tid = ''t'', x_total = 0, x_checksum = sha256_bytes [], x_buf = [], x_seen = {}\<rparr>))"
proof -
  let ?r = "rx_init 15 0 ''0''"
  let ?m = "start_msg Map.empty 4 ''t'' []"
  have msg: "rx_message 15 ?r (''1-0'', ?m, 0) =
      Continue (?r\<lparr>rx_transfer_id := Some ''t'', rx_total_size := Some 0, rx_checksum := Some (sha256_bytes []),
        rx_started := True, rx_last_id := ''1-0''\<rparr>)"
    by (simp add: rx_message_def start_msg_def rx_init_def)
  show ?thesis
    using receivers_agree [where r = ?r and eid = "uuid_str 9" and u = 9 and w = 15 and i = "''1-0''" and f = ?m
        and now = 0 and media = "''/media''" and s = sample_ds, OF rx_ok_init to_uuid_str, unfolded msg]
    by (simp add: rx_view_def rx_init_def)
qed

end
