(* ===== verification/RequestFacts.thy ===== *)
theory RequestFacts
  imports DispatcherFacts
begin

text \<open>
  What a delegate can make the dispatcher do: a DATA_REQUEST yields data only to the active
  delegate its execution is assigned to, and only from the workspace; an announcement
  starts at most one live watcher per execution, on streams the database determines.
\<close>

section \<open>Data requests\<close>

text \<open>What may be packed for a workspace directory: all of it, or one file whose real path is
  below the directory's.\<close>

definition packed_from :: "host \<Rightarrow> string \<Rightarrow> bytes \<Rightarrow> bool" where
  "packed_from h dir z =
     (zip_directory_to_bytes h dir = Inr z
      \<or> (\<exists>name root real data.
            realpath h dir = Inr root \<and> realpath h (normpath (py_join dir name)) = Inr real
            \<and> prefix (comps root) (comps real) \<and> isfile h (normpath (py_join dir name))
            \<and> read_file h (normpath (py_join dir name)) = Inr data \<and> zip_write h [(name, data)] = Inr z))"

lemma workspace_zip_packed:
  assumes "workspace_zip h dir name = Inr (Some z)"
  shows "packed_from h dir z"
proof (cases "name = ''*'' \<or> name = []")
  case True
  with assms show ?thesis
    by (auto simp: workspace_zip_def packed_from_def emap_def split: sum.splits)
next
  case False
  with assms obtain root real common data where c:
    "realpath h dir = Inr root" "realpath h (normpath (py_join dir name)) = Inr real"
    "commonpath root real = Inr common" "common = root" "isfile h (normpath (py_join dir name))"
    "read_file h (normpath (py_join dir name)) = Inr data" "zip_write h [(name, data)] = Inr z"
    by (auto simp: workspace_zip_def zip_single_file_to_bytes_def Let_def ebind_eq_Inr split: if_splits)
  then have "prefix (comps root) (comps real)" using commonpath_eq_first by blast
  with c show ?thesis by (auto simp: packed_from_def)
qed

lemma None_no_uuid: "to_uuid ''None'' \<noteq> Inr u"
  by (simp add: to_uuid_def uuid_of_str_def Let_def strip_with_def)

lemma authorizedD:
  assumes "authorized d ex du did tenant" and "to_uuid did = Inr du"
  shows "e_delegate_id ex = Some du \<and> did = uuid_str du
    \<and> (\<exists>dl. find_delegate d du = Some dl \<and> d_status dl = STATUS_ACTIVE \<and> d_tenant_id dl = tenant)
    \<and> e_tenant_id ex = tenant"
proof -
  obtain dl where dl: "find_delegate d du = Some dl" "d_status dl = STATUS_ACTIVE" "d_tenant_id dl = tenant"
    "e_tenant_id ex = tenant" "delegate_id_text (e_delegate_id ex) = did"
    using assms(1) by (auto simp: authorized_def split: option.splits)
  obtain v where v: "e_delegate_id ex = Some v" "uuid_str v = did"
    using dl(5) assms(2) None_no_uuid by (cases "e_delegate_id ex") (auto simp: delegate_id_text_def)
  then have "v = du" using assms(2) by auto
  with v dl show ?thesis by auto
qed

text \<open>C9: Who gets a workspace. If a DATA_REQUEST adds anything to a stream, then the request names the
  delegate the execution is assigned to and its tenant, that delegate is active and belongs
  to that tenant, and what is added, to the execution's own events stream, is the transfer
  of an archive packed from the execution's workspace directory; a single file is only sent
  if its real path, links followed, lies below the directory's.\<close>

theorem data_request_confined:
  assumes "handle_data_request h fixtures tid eid ekey f s = (s1, r)" and "ds_sent s1 \<noteq> ds_sent s"
  shows "\<exists>eu ex du dl z. to_uuid eid = Inr eu \<and> executions (ds_db s) eu = Some ex
    \<and> e_delegate_id ex = Some du \<and> find_delegate (ds_db s) du = Some dl \<and> d_status dl = STATUS_ACTIVE
    \<and> d_tenant_id dl = e_tenant_id ex
    \<and> field_or f ''delegate_id'' [] = uuid_str du \<and> field_or f ''tenant_id'' [] = e_tenant_id ex
    \<and> packed_from h (py_join fixtures (e_workspace_fixture ex)) z
    \<and> ds_sent s1 = ds_sent s @ map (Pair ekey) (fst (send_bytes CHUNK_SIZE tid z
        [''execution_id'' \<mapsto> eid, ''tenant_id'' \<mapsto> e_tenant_id ex]))"
proof -
  let ?did = "field_or f ''delegate_id'' []" and ?ten = "field_or f ''tenant_id'' []"
  let ?name = "field_or f ''requested_file'' ''*''"
  note unf = assms(1) [unfolded handle_data_request_def Let_def]
  obtain eu where eu: "to_uuid eid = Inr eu"
    using unf assms(2) by (cases "to_uuid eid") auto
  obtain ex where ex: "executions (ds_db s) eu = Some ex"
    using unf assms(2) eu by (cases "executions (ds_db s) eu") auto
  obtain du where du: "to_uuid ?did = Inr du"
    using unf assms(2) eu ex by (cases "to_uuid ?did") auto
  have auth: "authorized (ds_db s) ex du ?did ?ten"
    using unf assms(2) eu ex du by (auto split: if_splits)
  let ?dir = "py_join fixtures (e_workspace_fixture ex)"
  obtain z where z: "workspace_zip h ?dir ?name = Inr (Some z)"
    using unf assms(2) eu ex du auth by (auto split: sum.splits option.splits)
  have "ds_sent s1 = ds_sent s @ map (Pair ekey) (fst (send_bytes CHUNK_SIZE tid z
        [''execution_id'' \<mapsto> eid, ''tenant_id'' \<mapsto> ?ten]))"
    using unf eu ex du auth z by (auto split: prod.splits sum.splits)
  with eu ex authorizedD [OF auth du] workspace_zip_packed [OF z] show ?thesis by auto
qed

text \<open>A delegate that asks for its own workspace.\<close>

definition sample_delegate :: delegate where
  "sample_delegate =
     \<lparr>d_tenant_id = ''acme'', d_name = ''d'', d_queue = ''default'', d_concurrency = 1, d_cert_serial = ''1'',
      d_cert_pem = [], d_cert_expires_at = 0, d_status = STATUS_ACTIVE\<rparr>"

definition sample_execution :: execution where
  "sample_execution =
     \<lparr>e_tenant_id = ''acme'', e_delegate_id = Some 2, e_workspace_fixture = ''demo'', e_status = STATUS_RUNNING,
      e_transfer_id = [], e_transfer_attempts = 0, e_output_path = [], e_output_checksum = []\<rparr>"

definition sample_request :: fields where
  "sample_request = [''type'' \<mapsto> ''DATA_REQUEST'', ''delegate_id'' \<mapsto> uuid_str 2, ''tenant_id'' \<mapsto> ''acme'']"

lemma data_request_confined_witness:
  "\<exists>s1 r. handle_data_request sample_host ''/fixtures'' ''t'' (uuid_str 1) ''events'' sample_request
       (sample_ds\<lparr>ds_db := put_delegate 2 sample_delegate (put_execution 1 sample_execution empty_db)\<rparr>) = (s1, r)
     \<and> ds_sent s1 \<noteq> [] \<and> e_delegate_id sample_execution = Some 2
     \<and> packed_from sample_host (py_join ''/fixtures'' (e_workspace_fixture sample_execution)) []"
proof -
  let ?s = "sample_ds\<lparr>ds_db := put_delegate 2 sample_delegate (put_execution 1 sample_execution empty_db)\<rparr>"
  obtain s1 r where run: "handle_data_request sample_host ''/fixtures'' ''t'' (uuid_str 1) ''events'' sample_request ?s
      = (s1, r)" by fastforce
  have zip: "workspace_zip sample_host (py_join ''/fixtures'' ''demo'') ''*'' = Inr (Some [])"
    by (simp add: workspace_zip_def zip_directory_to_bytes_def sample_host_def)
  have auth: "authorized (ds_db ?s) sample_execution 2 (uuid_str 2) ''acme''"
    by (simp add: authorized_def sample_delegate_def sample_execution_def delegate_id_text_def)
  obtain ms where send: "send_bytes CHUNK_SIZE ''t'' [] [''execution_id'' \<mapsto> uuid_str 1, ''tenant_id'' \<mapsto> ''acme''] =
      (start_msg [''execution_id'' \<mapsto> uuid_str 1, ''tenant_id'' \<mapsto> ''acme''] CHUNK_SIZE ''t'' [] # ms,
       Inr (''t'', sha256_bytes [], 0))"
    by (simp add: send_bytes_def Let_def py_range_def CHUNK_SIZE_def)
  have sent: "ds_sent s1 \<noteq> ds_sent ?s"
    using run auth zip send
    by (auto simp: handle_data_request_def Let_def sample_request_def field_or_def sample_ds_def
        sample_execution_def)
  from data_request_confined [OF run sent] obtain z where
    "e_delegate_id sample_execution = Some 2"
    "packed_from sample_host (py_join ''/fixtures'' (e_workspace_fixture sample_execution)) z"
    by (auto simp: sample_request_def field_or_def)
  moreover have "z = []" if "packed_from sample_host dir z" for dir
    using that by (auto simp: packed_from_def zip_directory_to_bytes_def sample_host_def)
  ultimately show ?thesis using run sent by (auto simp: sample_ds_def)
qed

section \<open>Announcements\<close>

text \<open>One announcement, in all its ways out.\<close>

lemma announcement_cases:
  assumes "announcement text_of (i, f, alive) (s, mn) = ((s1, mn1), r)"
  obtains (ignored) "s1 = s" "mn1 = mn\<lparr>mn_last_id := i\<rparr>"
    | (watch) eid u ex du where
        "mn1 = spawn eid (stream_keys eid (uuid_str du)) (mn\<lparr>mn_last_id := i\<rparr>)" "r = Inr ()"
        "f ''execution_id'' = Some eid" "to_uuid eid = Inr u" "executions (ds_db s) u = Some ex"
        "e_delegate_id ex = Some du" "\<forall>t. mn_watched mn eid = Some t \<longrightarrow> t \<notin> alive"
        "s1 = (if announced_keys_match f (stream_keys eid (uuid_str du)) then s
               else ds_audit (mismatch_event text_of eid du ex f) s)"
proof -
  let ?eid = "field_or f ''execution_id'' []"
  show ?thesis
  proof (cases "f ''type'' = Some ''EXECUTION_STARTED'' \<and> ?eid \<noteq> [] \<and> \<not> (\<exists>t \<in> alive. mn_watched mn ?eid = Some t)")
    case False
    with assms ignored show ?thesis by (auto simp: announcement_def Let_def split: if_splits)
  next
    case True
    then have eid: "f ''execution_id'' = Some ?eid" by (cases "f ''execution_id''") auto
    show ?thesis
    proof (cases "to_uuid ?eid")
      case (Inl e)
      with True assms ignored show ?thesis by (auto simp: announcement_def Let_def)
    next
      case u: (Inr u)
      show ?thesis
      proof (cases "executions (ds_db s) u")
        case None
        with True u assms ignored show ?thesis by (auto simp: announcement_def Let_def)
      next
        case ex: (Some ex)
        show ?thesis
        proof (cases "e_delegate_id ex")
          case None
          with True u ex assms ignored show ?thesis by (auto simp: announcement_def Let_def)
        next
          case (Some du)
          with True u ex assms watch [OF _ _ eid u ex Some] show ?thesis
            by (auto simp: announcement_def Let_def)
        qed
      qed
    qed
  qed
qed

text \<open>A thread started for an execution reads the streams of its delegate in the database.\<close>

definition thread_ok :: "db \<Rightarrow> string \<times> stream_names \<times> int \<Rightarrow> bool" where
  "thread_ok d = (\<lambda>(eid, keys, life).
     \<exists>u ex du. to_uuid eid = Inr u \<and> executions d u = Some ex \<and> e_delegate_id ex = Some du
       \<and> keys = stream_keys eid (uuid_str du) \<and> life = 600)"

lemma thread_ok_cong: "executions d = executions d' \<Longrightarrow> thread_ok d = thread_ok d'"
  by (simp add: thread_ok_def)

lemma thread_ok_prefix:
  assumes "thread_ok d t"
  shows "\<exists>du. \<forall>k \<in> set (key_values (fst (snd t))). prefix (delegate_prefix (uuid_str du)) k"
  using assms key_values_prefix by (cases t) (auto simp: thread_ok_def)

lemma announcement_threads:
  assumes "announcement text_of m (s, mn) = ((s1, mn1), r)"
  shows "\<exists>new. mn_threads mn1 = mn_threads mn @ new \<and> (\<forall>t \<in> set new. thread_ok (ds_db s) t)"
    and "executions (ds_db s1) = executions (ds_db s)" and "delegates (ds_db s1) = delegates (ds_db s)"
proof -
  obtain i f alive where m: "m = (i, f, alive)" by (cases m) auto
  show "\<exists>new. mn_threads mn1 = mn_threads mn @ new \<and> (\<forall>t \<in> set new. thread_ok (ds_db s) t)"
    "executions (ds_db s1) = executions (ds_db s)" "delegates (ds_db s1) = delegates (ds_db s)"
    using assms [unfolded m] by (cases rule: announcement_cases; auto simp: spawn_def thread_ok_def)+
qed

lemma announcements_threads:
  assumes "announcements text_of ms (s, mn) = ((s1, mn1), r)"
  shows "(\<exists>new. mn_threads mn1 = mn_threads mn @ new \<and> (\<forall>t \<in> set new. thread_ok (ds_db s) t))
    \<and> executions (ds_db s1) = executions (ds_db s) \<and> delegates (ds_db s1) = delegates (ds_db s)"
  using assms
proof (induction ms arbitrary: s mn)
  case Nil
  then show ?case by simp
next
  case (Cons m ms)
  obtain s2 mn2 r2 where first: "announcement text_of m (s, mn) = ((s2, mn2), r2)" by (metis surj_pair)
  note step = announcement_threads [OF first]
  show ?case
  proof (cases r2)
    case (Inl e)
    with Cons.prems first step show ?thesis by auto
  next
    case (Inr x)
    then have "announcements text_of ms (s2, mn2) = ((s1, mn1), r)"
      using Cons.prems first by auto
    from Cons.IH [OF this] step show ?thesis
      using thread_ok_cong [OF step(2)] by auto
  qed
qed

text \<open>C27: Announcements cannot redirect the dispatcher. Whatever a delegate writes to the global
  stream, every watcher started for it is for an execution of the database and reads
  exactly the four streams derived from the delegate assigned there, all of them below that
  delegate's key prefix; and no execution or delegate changes.\<close>

theorem announced_streams_from_db:
  assumes "announcements text_of ms (s, mn) = ((s1, mn1), r)"
  shows "(\<exists>new. mn_threads mn1 = mn_threads mn @ new
      \<and> (\<forall>t \<in> set new. thread_ok (ds_db s) t
           \<and> (\<exists>du. \<forall>k \<in> set (key_values (fst (snd t))). prefix (delegate_prefix (uuid_str du)) k)))
    \<and> executions (ds_db s1) = executions (ds_db s) \<and> delegates (ds_db s1) = delegates (ds_db s)"
  using announcements_threads [OF assms] thread_ok_prefix by blast

text \<open>An announcement with streams of another delegate.\<close>

lemma announced_streams_from_db_witness:
  "\<exists>s1 mn1 r new. announcements (\<lambda>_. []) [(''1-0'', [''type'' \<mapsto> ''EXECUTION_STARTED'', ''execution_id'' \<mapsto> uuid_str 1,
         ''output_stream'' \<mapsto> ''delegate:other:execution:x:output''], {})]
       (sample_ds\<lparr>ds_db := put_execution 1 sample_execution empty_db\<rparr>, main_init) = ((s1, mn1), r)
     \<and> mn_threads mn1 = new \<and> length new = 1 \<and> (\<forall>t \<in> set new. thread_ok (put_execution 1 sample_execution empty_db) t)"
proof -
  let ?ms = "[(''1-0'', [''type'' \<mapsto> ''EXECUTION_STARTED'', ''execution_id'' \<mapsto> uuid_str 1,
         ''output_stream'' \<mapsto> ''delegate:other:execution:x:output''], {} :: nat set)]"
  let ?s = "sample_ds\<lparr>ds_db := put_execution 1 sample_execution empty_db\<rparr>"
  obtain s1 mn1 r where run: "announcements (\<lambda>_. []) ?ms (?s, main_init) = ((s1, mn1), r)" by (metis surj_pair)
  then have "length (mn_threads mn1) = 1"
    using uuid_str_hd_last(1) [of 1]
    by (auto simp: announcement_def Let_def main_init_def spawn_def field_or_def sample_execution_def
        split: if_splits)
  with announced_streams_from_db [OF run] run show ?thesis by (auto simp: main_init_def)
qed

section \<open>At most one live watcher\<close>

text \<open>Every live thread is the one recorded for its execution.\<close>

definition live_ok :: "main \<Rightarrow> nat set \<Rightarrow> bool" where
  "live_ok mn A = (\<forall>t < length (mn_threads mn). t \<in> A \<longrightarrow>
     mn_watched mn (fst (mn_threads mn ! t)) = Some t)"

lemma live_ok_shrink: "live_ok mn A \<Longrightarrow> B \<subseteq> A \<Longrightarrow> live_ok mn B"
  by (auto simp: live_ok_def)

lemma announcement_live_ok:
  assumes "announcement text_of (i, f, alive) (s, mn) = ((s1, mn1), r)" and "live_ok mn alive"
  shows "live_ok mn1 alive"
  using assms(1)
proof (cases rule: announcement_cases)
  case ignored
  with assms(2) show ?thesis by (simp add: live_ok_def)
next
  case (watch eid u ex du)
  show ?thesis
    unfolding live_ok_def
  proof (intro allI impI)
    fix t
    assume t: "t < length (mn_threads mn1)" "t \<in> alive"
    show "mn_watched mn1 (fst (mn_threads mn1 ! t)) = Some t"
    proof (cases "t = length (mn_threads mn)")
      case True
      then show ?thesis by (simp add: watch(1) spawn_def)
    next
      case False
      with t watch(1) have old: "t < length (mn_threads mn)" by (simp add: spawn_def)
      then have "mn_watched mn (fst (mn_threads mn ! t)) = Some t"
        using assms(2) t(2) by (simp add: live_ok_def)
      with watch(1,7) t(2) old show ?thesis by (auto simp: spawn_def nth_append)
    qed
  qed
qed

lemma announcements_live_ok:
  assumes "announcements text_of ms (s, mn) = ((s1, mn1), r)" and "live_ok mn A"
    and "sorted_wrt (\<lambda>A B. B \<subseteq> A) (A # map (snd \<circ> snd) ms @ [B])"
  shows "live_ok mn1 B"
  using assms
proof (induction ms arbitrary: s mn A)
  case Nil
  then show ?case by (auto intro: live_ok_shrink)
next
  case (Cons m ms)
  obtain i f alive where m: "m = (i, f, alive)" by (cases m) auto
  obtain s2 mn2 r2 where first: "announcement text_of m (s, mn) = ((s2, mn2), r2)" by (metis surj_pair)
  have "live_ok mn alive" using Cons.prems(2,3) m by (auto intro: live_ok_shrink)
  then have l2: "live_ok mn2 alive" using announcement_live_ok first m by blast
  show ?case
  proof (cases r2)
    case (Inl e)
    with Cons.prems m first l2 show ?thesis by (auto intro: live_ok_shrink)
  next
    case (Inr x)
    then have "announcements text_of ms (s2, mn2) = ((s1, mn1), r)"
      using Cons.prems(1) first by auto
    from Cons.IH [OF this l2] Cons.prems(3) m show ?thesis by simp
  qed
qed

lemma prune_live_ok: "live_ok mn A \<Longrightarrow> live_ok (prune A mn) A"
  by (auto simp: live_ok_def prune_def)

text \<open>The sets of live threads looked at in a run, in order.\<close>

definition observed :: "'r main_poll \<Rightarrow> nat set list" where
  "observed p = (case mp_reply p of Lost a \<Rightarrow> [] | Announced ms alive \<Rightarrow> map (snd \<circ> snd) ms @ [alive])"

fun out_main :: "'r main_out \<Rightarrow> main" where
  "out_main (Running s mn r) = mn"
| "out_main (Crashed s mn r e) = mn"

lemma main_loop_live_ok:
  assumes "live_ok mn A" and "sorted_wrt (\<lambda>A B. B \<subseteq> A) (A # concat (map observed polls) @ [B])"
  shows "live_ok (out_main (main_loop text_of srv s mn r polls)) B"
  using assms
proof (induction polls arbitrary: s mn r A)
  case Nil
  then show ?case by (auto intro: live_ok_shrink)
next
  case (Cons p ps)
  obtain s1 r1 where o: "mp_others p (s, r) = (s1, r1)" by fastforce
  show ?case
  proof (cases "mp_reply p")
    case (Lost a)
    have "live_ok mn B" using Cons.prems by (auto intro: live_ok_shrink)
    moreover have "observed p = []" using Lost by (simp add: observed_def)
    ultimately show ?thesis
      using Lost o Cons.IH [OF Cons.prems(1)] Cons.prems(2)
      by (auto split: prod.splits option.splits sum.splits)
  next
    case (Announced ms alive)
    obtain s2 mn2 r2 where run: "announcements text_of ms (s1, mn) = ((s2, mn2), r2)" by (metis surj_pair)
    have obs: "observed p = map (snd \<circ> snd) ms @ [alive]" using Announced by (simp add: observed_def)
    have sorted: "sorted_wrt (\<lambda>A B. B \<subseteq> A) (A # map (snd \<circ> snd) ms @ [alive])"
      and rest: "sorted_wrt (\<lambda>A B. B \<subseteq> A) (alive # concat (map observed ps) @ [B])"
      using Cons.prems(2) by (auto simp: obs sorted_wrt_append)
    have l2: "live_ok mn2 alive" using announcements_live_ok [OF run Cons.prems(1) sorted] .
    have "live_ok mn2 B" using l2 rest by (auto intro: live_ok_shrink)
    with Announced o run Cons.IH [OF prune_live_ok [OF l2] rest] show ?thesis
      by (auto split: sum.splits)
  qed
qed

text \<open>At most one live watcher for an announced execution id. If threads that are dead stay dead
  (so the sets observed only shrink), then at every point of every run of the main loop,
  threads for the same id that are both alive are the same thread, however often the
  execution is announced.\<close>

theorem one_live_watcher:
  assumes "sorted_wrt (\<lambda>A B. B \<subseteq> A) (concat (map observed polls) @ [A])"
    and "mn = out_main (main_loop text_of srv s main_init r polls)"
    and "t < length (mn_threads mn)" and "t' < length (mn_threads mn)" and "t \<in> A" and "t' \<in> A"
    and "fst (mn_threads mn ! t) = fst (mn_threads mn ! t')"
  shows "t = t'"
proof -
  have "live_ok main_init UNIV" by (simp add: live_ok_def main_init_def)
  then have "live_ok mn A"
    using main_loop_live_ok [of main_init UNIV polls A] assms(1,2) by simp
  then have "mn_watched mn (fst (mn_threads mn ! t)) = Some t" "mn_watched mn (fst (mn_threads mn ! t')) = Some t'"
    using assms(3-6) by (simp_all add: live_ok_def)
  then show ?thesis using assms(7) by (metis option.inject)
qed

text \<open>An execution announced twice in one reply.\<close>

definition sample_announcement :: fields where
  "sample_announcement = [''type'' \<mapsto> ''EXECUTION_STARTED'', ''execution_id'' \<mapsto> uuid_str 1]"

definition sample_polls :: "(string \<times> string list) list main_poll list" where
  "sample_polls = [\<lparr>mp_others = (\<lambda>x. x), mp_reply = Announced
     [(''1-0'', sample_announcement, UNIV), (''1-1'', sample_announcement, UNIV)] UNIV\<rparr>]"

definition sample_run :: main where
  "sample_run = out_main (main_loop (\<lambda>_. []) list_acl_server
     (sample_ds\<lparr>ds_db := put_execution 1 sample_execution empty_db\<rparr>) main_init [] sample_polls)"

lemma one_live_watcher_witness:
  "{t. t < length (mn_threads sample_run) \<and> fst (mn_threads sample_run ! t) = fst (mn_threads sample_run ! 0)} = {0}
    \<and> mn_watched sample_run (uuid_str 1) = Some 0"
proof -
  have sorted: "sorted_wrt (\<lambda>A B. B \<subseteq> A) (concat (map observed sample_polls) @ [UNIV])"
    by (simp add: sample_polls_def observed_def)
  have run: "mn_threads sample_run \<noteq> [] \<and> mn_watched sample_run (uuid_str 1) = Some 0"
    using uuid_str_hd_last(1) [of 1]
    by (simp add: sample_run_def sample_polls_def sample_announcement_def announcement_def Let_def field_or_def
        sample_execution_def spawn_def prune_def main_init_def)
  have "t = 0" if "t < length (mn_threads sample_run)"
      "fst (mn_threads sample_run ! t) = fst (mn_threads sample_run ! 0)" for t
    by (rule one_live_watcher [OF sorted sample_run_def that(1) _ _ _ that(2)]) (use run in auto)
  then show ?thesis using run by auto
qed


end
