(* ===== verification/WatchFacts.thy ===== *)
theory WatchFacts
  imports RequestFacts
begin

text \<open>
  The watcher of one execution: what one message may change, what the output stream leaves
  on disk whatever arrives on the other streams in between, when the watcher ends, and what
  it deletes.
\<close>

section \<open>One message\<close>

lemma stream_keys_output_apart:
  assumes "keys = stream_keys eid d"
  shows "output_key keys \<noteq> events_key keys" "output_key keys \<noteq> log_key keys" "output_key keys \<noteq> status_key keys"
  using key_values_distinct [of eid d] by (auto simp: assms key_values_def)

lemma watch_message_output:
  assumes "keys = stream_keys eid d"
  shows "watch_message c eid keys (output_key keys) (i, f, t) (s, w) =
    (let w1 = w\<lparr>w_last_ids := (w_last_ids w)(output_key keys \<mapsto> i)\<rparr> in
     case handle_output_message (cfg_media c) eid f (w_output w) s of
       (s1, Inl e) \<Rightarrow> ((s1, w1), Inl e)
     | (s1, Inr out) \<Rightarrow> ((s1, w1\<lparr>w_output := out\<rparr>), Inr ()))"
  using stream_keys_output_apart [OF assms] by (simp add: watch_message_def Let_def)

lemma watch_message_other:
  assumes "watch_message c eid keys k m (s, w) = ((s1, w1), r)" and "k \<noteq> output_key keys"
  shows "benign_step (executions (ds_db s)) (executions (ds_db s1)) \<and> ds_files s1 = ds_files s
    \<and> w_output w1 = w_output w \<and> ds_deleted s1 = ds_deleted s \<and> delegates (ds_db s1) = delegates (ds_db s)"
  using assms
  by (cases m) (auto simp: watch_message_def Let_def split: if_splits prod.splits
      dest!: data_request_frame log_frame status_frame)

lemma watch_message_deleted:
  assumes "watch_message c eid keys k m (s, w) = ((s1, w1), r)"
  shows "ds_deleted s1 = ds_deleted s" and "delegates (ds_db s1) = delegates (ds_db s)"
proof -
  have out: "ds_deleted s2 = ds_deleted s \<and> delegates (ds_db s2) = delegates (ds_db s)"
    if "handle_output_message media eid f st s = (s2, r2)" for media f st s2 r2
    using that
    by (auto simp: handle_output_message_def finish_output_def Let_def split: if_splits option.splits
        sum.splits prod.splits)
  have "ds_deleted s1 = ds_deleted s \<and> delegates (ds_db s1) = delegates (ds_db s)"
    using assms
    by (cases m) (auto simp: watch_message_def Let_def split: if_splits prod.splits sum.splits
        dest!: data_request_frame log_frame status_frame out)
  then show "ds_deleted s1 = ds_deleted s" "delegates (ds_db s1) = delegates (ds_db s)" by simp_all
qed

lemma watch_message_outputs_ok:
  assumes "watch_message c eid keys k m (s, w) = ((s1, w1), r)" and "to_uuid eid = Inr u"
    and "outputs_ok (cfg_media c) (executions (ds_db s)) (ds_files s)"
  shows "outputs_ok (cfg_media c) (executions (ds_db s1)) (ds_files s1)"
proof -
  have benign: "outputs_ok (cfg_media c) (executions (ds_db s2)) (ds_files s2)"
    if "benign_step (executions (ds_db s)) (executions (ds_db s2)) \<and> ds_files s2 = ds_files s \<and> X" for s2 X
    using outputs_ok_benign [OF assms(3)] that by metis
  have log: "outputs_ok (cfg_media c) (executions (ds_db s2)) (ds_files s2)"
    if "executions (ds_db s2) = executions (ds_db s) \<and> ds_files s2 = ds_files s \<and> X" for s2 X
    using that assms(3) by metis
  show ?thesis
    using assms(1,3)
    by (cases m) (auto simp: watch_message_def Let_def split: if_splits prod.splits sum.splits
        dest!: data_request_frame [THEN benign] status_frame [THEN benign] log_frame [THEN log]
          output_keeps_ok [OF assms(3,2)])
qed

section \<open>A batch of messages\<close>

lemma watch_messages_append:
  "watch_messages c eid keys (xs @ ys) st =
     (case watch_messages c eid keys xs st of
        (st1, Inl e) \<Rightarrow> (st1, Inl e) | (st1, Inr _) \<Rightarrow> watch_messages c eid keys ys st1)"
  by (induction xs arbitrary: st) (auto split: prod.splits sum.splits)

lemma watch_messages_invariant:
  assumes "\<And>k m s w s1 w1 r. watch_message c eid keys k m (s, w) = ((s1, w1), r) \<Longrightarrow> P s \<Longrightarrow> P s1"
    and "P s" and "watch_messages c eid keys ms (s, w) = ((s1, w1), r)"
  shows "P s1"
  using assms(2,3)
proof (induction ms arbitrary: s w)
  case Nil
  then show ?case by simp
next
  case (Cons km ms)
  obtain k m where km: "km = (k, m)" by (cases km)
  obtain s2 w2 r2 where first: "watch_message c eid keys k m (s, w) = ((s2, w2), r2)" by (metis surj_pair)
  have "P s2" using assms(1) [OF first] Cons.prems(1) .
  with Cons.IH [of s2 w2] Cons.prems(2) first km show ?case by (cases r2) auto
qed

text \<open>The messages of a batch that are on the output stream.\<close>

definition outs_of :: "stream_names \<Rightarrow> (string \<times> watch_msg) list \<Rightarrow> fields list" where
  "outs_of keys ms = map (\<lambda>(k, i, f, t). f) (filter (\<lambda>(k, m). k = output_key keys) ms)"

lemma outs_of_simps [simp]:
  "outs_of keys [] = []"
  "outs_of keys ((k, i, f, t) # ms) = (if k = output_key keys then f # outs_of keys ms else outs_of keys ms)"
  by (simp_all add: outs_of_def)

text \<open>The transfer state of the watcher is that of the output handler run on these alone.\<close>

lemma watch_output:
  assumes "keys = stream_keys eid d" and "watch_messages c eid keys ms (s, w) = ((s1, w1), Inr r)"
  shows "fold_res (out_feed (cfg_media c) eid s0) (w_output w) (outs_of keys ms) = Inr (w_output w1)"
  using assms(2)
proof (induction ms arbitrary: s w)
  case Nil
  then show ?case by simp
next
  case (Cons km ms)
  obtain k i f t where km: "km = (k, i, f, t)" by (cases km) auto
  obtain s2 w2 x where first: "watch_message c eid keys k (i, f, t) (s, w) = ((s2, w2), Inr x)"
    and rest: "watch_messages c eid keys ms (s2, w2) = ((s1, w1), Inr r)"
    using Cons.prems km by (auto split: prod.splits sum.splits)
  show ?case
  proof (cases "k = output_key keys")
    case True
    have "out_feed (cfg_media c) eid s0 (w_output w) f = Inr (w_output w2)"
      using first True out_feed_state [of "cfg_media c" eid s0 s]
      by (auto simp: watch_message_output [OF assms(1)] out_feed_def Let_def split: prod.splits sum.splits)
    with Cons.IH [OF rest] True km show ?thesis by simp
  next
    case False
    with Cons.IH [OF rest] watch_message_other [OF first] km show ?thesis by simp
  qed
qed

lemma watch_messages_other:
  assumes "watch_messages c eid keys ms (s, w) = ((s1, w1), r)" and "outs_of keys ms = []"
  shows "benign_step (executions (ds_db s)) (executions (ds_db s1)) \<and> ds_files s1 = ds_files s
    \<and> w_output w1 = w_output w"
  using assms
proof (induction ms arbitrary: s w)
  case Nil
  then show ?case by simp
next
  case (Cons km ms)
  obtain k i f t where km: "km = (k, i, f, t)" by (cases km) auto
  with Cons.prems(2) have k: "k \<noteq> output_key keys" "outs_of keys ms = []" by (auto split: if_splits)
  obtain s2 w2 r2 where first: "watch_message c eid keys k (i, f, t) (s, w) = ((s2, w2), r2)"
    by (metis surj_pair)
  note step = watch_message_other [OF first k(1)]
  show ?case
  proof (cases r2)
    case (Inl e)
    with Cons.prems(1) first km step show ?thesis by auto
  next
    case (Inr x)
    then have "watch_messages c eid keys ms (s2, w2) = ((s1, w1), r)"
      using Cons.prems(1) first km by auto
    from Cons.IH [OF this k(2)] step show ?thesis
      by (auto intro: benign_step_trans)
  qed
qed

lemma watch_messages_rows:
  assumes "keys = stream_keys eid d" and "watch_messages c eid keys ms (s, w) = ((s1, w1), r)"
  shows "(executions (ds_db s1) u = None) = (executions (ds_db s) u = None)"
proof (rule watch_messages_invariant [OF _ _ assms(2)])
  show "(executions (ds_db s) u = None) = (executions (ds_db s) u = None)" by simp
next
  fix k m s2 w2 s3 w3 r3
  assume step: "watch_message c eid keys k m (s2, w2) = ((s3, w3), r3)"
    and P: "(executions (ds_db s2) u = None) = (executions (ds_db s) u = None)"
  obtain i f t where m: "m = (i, f, t)" by (cases m) auto
  have "(executions (ds_db s3) u = None) = (executions (ds_db s2) u = None)"
  proof (cases "k = output_key keys")
    case True
    obtain s4 r4 where h: "handle_output_message (cfg_media c) eid f (w_output w2) s2 = (s4, r4)" by fastforce
    with step m True have "s3 = s4"
      by (auto simp: watch_message_output [OF assms(1)] Let_def split: sum.splits)
    with h show ?thesis
      by (auto simp: handle_output_message_def finish_output_def Let_def split: if_splits option.splits sum.splits)
  next
    case False
    have "benign_step (executions (ds_db s2)) (executions (ds_db s3))"
      using watch_message_other [OF step False] by blast
    from this [unfolded benign_step_def, rule_format, of u] show ?thesis
      by (auto simp: option_rel_Some1 option_rel_Some2)
  qed
  with P show "(executions (ds_db s3) u = None) = (executions (ds_db s) u = None)" by simp
qed

section \<open>The output of an execution\<close>

lemma outs_of_split:
  assumes "outs_of keys ms = xs @ [f]"
  shows "\<exists>ms1 i t ms2. ms = ms1 @ (output_key keys, i, f, t) # ms2 \<and> outs_of keys ms1 = xs \<and> outs_of keys ms2 = []"
  using assms
proof (induction ms arbitrary: xs)
  case Nil
  then show ?case by simp
next
  case (Cons km ms)
  obtain k i g t where km: "km = (k, i, g, t)" by (cases km) auto
  show ?case
  proof (cases "k = output_key keys \<and> xs = []")
    case True
    with Cons.prems km show ?thesis by (intro exI [of _ "[]"] exI [of _ i] exI [of _ t] exI [of _ ms]) simp
  next
    case False
    then obtain ys where ys: "outs_of keys ms = ys @ [f]" "xs = (if k = output_key keys then g # ys else ys)"
      using Cons.prems km by (cases xs) (auto split: if_splits)
    from Cons.IH [OF ys(1)] obtain ms1 j u ms2 where "ms = ms1 @ (output_key keys, j, f, u) # ms2"
      "outs_of keys ms1 = ys" "outs_of keys ms2 = []" by blast
    with ys(2) km show ?thesis
      by (intro exI [of _ "km # ms1"] exI [of _ j] exI [of _ u] exI [of _ ms2]) auto
  qed
qed

lemma last_outs_of:
  assumes "fst (last (ms1 @ (output_key keys, i, f, t) # ms2)) = output_key keys" and "outs_of keys ms2 = []"
  shows "ms2 = []"
  using assms by (cases ms2 rule: rev_cases) (auto simp: outs_of_def)

lemma output_transfer:
  assumes "keys = stream_keys eid d" and "to_uuid eid = Inr u" and "executions (ds_db s) u \<noteq> None"
    and "0 < cs" and "send_bytes cs tid data base = (start # chunks @ [closing], res)"
    and "outs_of keys ms = pre @ start # got @ [closing]" and "delivery tid {} chunks got"
    and "watch_messages c eid keys ms (s, w) = ((s1, w1), Inr ())"
  shows "ds_files s1 (out_path (cfg_media c) eid) = Some data
    \<and> w_output w1 = None
    \<and> (\<exists>row. executions (ds_db s1) u = Some row \<and> e_output_path row = out_path (cfg_media c) eid
         \<and> e_output_checksum row = sha256_bytes data
         \<and> (fst (last ms) = output_key keys \<longrightarrow> e_status row = STATUS_SUCCEEDED))"
proof -
  let ?m = "cfg_media c"
  obtain ms1 i t ms2 where ms: "ms = ms1 @ (output_key keys, i, closing, t) # ms2"
    and outs: "outs_of keys ms1 = pre @ start # got" "outs_of keys ms2 = []"
    using outs_of_split [of keys ms "pre @ start # got" closing] assms(6) by auto
  obtain s2 w2 where run1: "watch_messages c eid keys ms1 (s, w) = ((s2, w2), Inr ())"
    and rest: "watch_messages c eid keys ((output_key keys, i, closing, t) # ms2) (s2, w2) = ((s1, w1), Inr ())"
    using assms(8) unfolding ms watch_messages_append by (auto split: prod.splits sum.splits)
  obtain s3 w3 where run2: "watch_message c eid keys (output_key keys) (i, closing, t) (s2, w2) = ((s3, w3), Inr ())"
    and run3: "watch_messages c eid keys ms2 (s3, w3) = ((s1, w1), Inr ())"
    using rest by (auto split: prod.splits sum.splits)
  have dl: "delivery tid {} chunks (map (\<lambda>f. f) got)"
    using assms(7) by simp
  obtain st where "fold_res (out_feed ?m eid s) st (start # got) = Inr (w_output w2)"
    using watch_output [OF assms(1) run1, of s] outs(1) by (auto simp: fold_res_append ebind_eq_Inr)
  then obtain x where x: "w_output w2 = Some x" "x_tid x = tid" "x_buf x = data" "xfer_valid x"
    using outs.transfer_complete [OF assms(4,5) TrueI refl dl] by (metis Inr_inject)
  obtain n where n: "closing = end_msg base tid n"
    using send_bytes_closing [OF assms(4,5)] by blast
  then have closes: "xfer_closes (Some x) closing" using x(2) by (simp add: xfer_closes_def end_msg_def)
  obtain s4 r4 where h: "handle_output_message ?m eid closing (Some x) s2 = (s4, r4)" by fastforce
  have row2: "executions (ds_db s2) u \<noteq> None"
    using watch_messages_rows [OF assms(1) run1] assms(3) by simp
  from h have fin: "s3 = s4 \<and> r4 = Inr None \<and> ds_files s4 (out_path ?m eid) = Some data
      \<and> (\<exists>row. executions (ds_db s4) u = Some row \<and> e_output_path row = out_path ?m eid
           \<and> e_output_checksum row = sha256_bytes data \<and> e_status row = STATUS_SUCCEEDED) \<and> w_output w3 = None"
    using closes x run2 assms(2) row2 h
    by (cases rule: output_cases) (auto simp: watch_message_output [OF assms(1)] Let_def)
  note after = watch_messages_other [OF run3 outs(2)]
  obtain row where row: "executions (ds_db s3) u = Some row" "e_output_path row = out_path ?m eid"
    "e_output_checksum row = sha256_bytes data" "e_status row = STATUS_SUCCEEDED"
    using fin by blast
  have "benign_step (executions (ds_db s3)) (executions (ds_db s1))" using after by blast
  from this [unfolded benign_step_def, rule_format, of u] row(1)
  obtain row1 where row1: "executions (ds_db s1) u = Some row1" "benign row row1"
    by (auto simp: option_rel_Some1)
  have "e_status row1 = STATUS_SUCCEEDED" if "fst (last ms) = output_key keys"
  proof -
    have "ms2 = []" using last_outs_of [OF that [unfolded ms] outs(2)] .
    with run3 row row1(1) show ?thesis by simp
  qed
  with fin after row row1 show ?thesis by (auto simp: benign_def)
qed

text \<open>The output arrives. Let a batch of messages be handled without an exception, and let its
  messages on the output stream be anything, then one complete \<open>send_bytes\<close> of the worker
  delivered with repeats and foreign messages; whatever comes on the other three streams in
  between. Then the payload is in the file of the execution, the row names that file and
  the payload's checksum, and no transfer is left open. If the closing message is the last
  of the batch, the execution is SUCCEEDED.\<close>

theorem output_stored:
  assumes "keys = stream_keys eid d" and "to_uuid eid = Inr u" and "executions (ds_db s) u \<noteq> None"
    and "0 < cs" and "send_bytes cs tid data base = (start # chunks @ [closing], res)"
    and "outs_of keys ms = pre @ start # got @ [closing]" and "delivery tid {} chunks got"
    and "watch_messages c eid keys ms (s, w) = ((s1, w1), Inr ())"
  shows "ds_files s1 (out_path (cfg_media c) eid) = Some data
    \<and> w_output w1 = None
    \<and> (\<exists>row. executions (ds_db s1) u = Some row \<and> e_output_path row = out_path (cfg_media c) eid
         \<and> e_output_checksum row = sha256_bytes data
         \<and> (fst (last ms) = output_key keys \<longrightarrow> e_status row = STATUS_SUCCEEDED))"
  using assms by (rule output_transfer)

text \<open>An empty payload, on an execution that exists.\<close>

lemma output_stored_witness:
  "\<exists>s1 w1. watch_messages sample_config (uuid_str 1) (stream_keys (uuid_str 1) (uuid_str 2))
      (map (\<lambda>f. (output_key (stream_keys (uuid_str 1) (uuid_str 2)), ''1-0'', f, ''x''))
         (fst (send_bytes 4 ''t'' [] Map.empty)))
      (sample_ds\<lparr>ds_db := put_execution 1 sample_execution empty_db\<rparr>, watch_init (stream_keys (uuid_str 1) (uuid_str 2)))
      = ((s1, w1), Inr ())
    \<and> (\<exists>row. executions (ds_db s1) 1 = Some row \<and> e_status row = STATUS_SUCCEEDED)"
proof -
  let ?keys = "stream_keys (uuid_str 1) (uuid_str 2)"
  let ?s = "sample_ds\<lparr>ds_db := put_execution 1 sample_execution empty_db\<rparr>"
  let ?start = "start_msg Map.empty 4 ''t'' []" and ?closing = "end_msg Map.empty ''t'' 0"
  let ?ms = "map (\<lambda>f. (output_key ?keys, ''1-0'', f, ''x'')) [?start, ?closing]"
  have send: "send_bytes 4 ''t'' [] Map.empty = (?start # [] @ [?closing], Inr (''t'', sha256_bytes [], 0))"
    by (simp add: send_bytes_def Let_def py_range_def)
  note start = xfer_step_start_msg [of _ Map.empty 4 "''t''" "[]"]
  have nc: "\<not> xfer_closes None ?start" "xfer_closes (Some x) ?start \<Longrightarrow> False" for x
    by (simp_all add: xfer_closes_def start_msg_def)
  have "\<exists>s1 w1. watch_messages sample_config (uuid_str 1) ?keys ?ms (?s, watch_init ?keys) = ((s1, w1), Inr ())"
    by (simp add: watch_message_output [OF refl] Let_def output_not_closing nc start watch_init_def
        output_closing xfer_closes_def end_msg_def finish_output_def)
  then obtain s1 w1 where
    run: "watch_messages sample_config (uuid_str 1) ?keys ?ms (?s, watch_init ?keys) = ((s1, w1), Inr ())" by blast
  have "delivery ''t'' {} [] []" by (rule delivery.finished)
  with output_stored [OF refl to_uuid_str [of 1] _ _ send _ _ run, of "[]" "[]"] run send show ?thesis
    by auto
qed

section \<open>The loop\<close>

fun out_ds :: "watch_out \<Rightarrow> ds" where
  "out_ds (Watching s w) = s"
| "out_ds (Finished s) = s"
| "out_ds (Died s e) = s"

text \<open>One turn of the loop, in all its ways out.\<close>

lemma watch_turn:
  obtains (late) "\<not> wp_now p < deadline"
      "watch_loop c eid keys deadline life s w (p # ps) = Finished (give_up eid keys life (wp_others p s))"
    | (bad_id) e where "to_uuid eid = Inl e"
      "watch_loop c eid keys deadline life s w (p # ps) = Died (wp_others p s) e"
    | (gone) u where "to_uuid eid = Inr u" "executions (ds_db (wp_others p s)) u = None"
      "watch_loop c eid keys deadline life s w (p # ps) = Finished (wp_others p s)"
    | (terminal) u row where "to_uuid eid = Inr u" "executions (ds_db (wp_others p s)) u = Some row"
      "e_status row \<in> TERMINAL_STATUSES"
      "watch_loop c eid keys deadline life s w (p # ps) = Finished (cleanup_execution_streams eid keys (wp_others p s))"
    | (crash) u ms s2 w2 e where "to_uuid eid = Inr u"
      "watch_messages c eid keys ms (wp_others p s, w) = ((s2, w2), Inl e)"
      "watch_loop c eid keys deadline life s w (p # ps) = Died s2 e"
    | (again) u ms s2 w2 where "to_uuid eid = Inr u"
      "watch_messages c eid keys ms (wp_others p s, w) = ((s2, w2), Inr ())"
      "watch_loop c eid keys deadline life s w (p # ps) = watch_loop c eid keys deadline life s2 w2 ps"
proof (cases "wp_now p < deadline")
  case False
  with late show ?thesis by (simp add: Let_def)
next
  case intime: True
  show ?thesis
  proof (cases "to_uuid eid")
    case (Inl e)
    with intime bad_id show ?thesis by (simp add: Let_def)
  next
    case u: (Inr u)
    show ?thesis
    proof (cases "executions (ds_db (wp_others p s)) u")
      case None
      with intime u gone show ?thesis by (simp add: Let_def)
    next
      case row: (Some row)
      show ?thesis
      proof (cases "e_status row \<in> TERMINAL_STATUSES")
        case True
        with intime u row terminal show ?thesis by (simp add: Let_def)
      next
        case False
        note now = intime u row False
        show ?thesis
        proof (cases "wp_reply p")
          case ConnectionLost
          with now again [OF u, of "[]" "wp_others p s" w] show ?thesis by (simp add: Let_def)
        next
          case (Messages resp)
          obtain s2 w2 r where run:
            "watch_messages c eid keys (flatten_reply resp) (wp_others p s, w) = ((s2, w2), r)" by (metis surj_pair)
          show ?thesis
          proof (cases r)
            case (Inl e)
            with now Messages run crash [OF u run [unfolded Inl]] show ?thesis by (simp add: Let_def)
          next
            case (Inr x)
            with now Messages run again [OF u, of "flatten_reply resp" s2 w2] show ?thesis by (simp add: Let_def)
          qed
        qed
      qed
    qed
  qed
qed

text \<open>What every message keeps, what the others keep, and what the two endings keep, the watcher
  keeps.\<close>

lemma watch_loop_invariant:
  assumes "\<And>k m s w s1 w1 r u. to_uuid eid = Inr u \<Longrightarrow>
      watch_message c eid keys k m (s, w) = ((s1, w1), r) \<Longrightarrow> P s \<Longrightarrow> P s1"
    and "\<And>s. P s \<Longrightarrow> P (cleanup_execution_streams eid keys s)"
    and "\<And>s. P s \<Longrightarrow> P (give_up eid keys life s)"
    and "\<forall>p \<in> set polls. \<forall>s. P s \<longrightarrow> P (wp_others p s)"
    and "P s"
  shows "P (out_ds (watch_loop c eid keys deadline life s w polls))"
  using assms(4,5)
proof (induction polls arbitrary: s w)
  case Nil
  then show ?case by simp
next
  case (Cons p ps)
  have Ps: "P (wp_others p s)" using Cons.prems by simp
  have step: "P s1" if "to_uuid eid = Inr u" "watch_messages c eid keys ms (wp_others p s, w) = ((s1, w1), r)"
    for u ms s1 w1 r
    by (rule watch_messages_invariant [where P = P, OF assms(1) [OF that(1)] Ps that(2)])
  show ?case
    by (cases rule: watch_turn [of p deadline c eid keys life s w ps])
      (use Ps step assms(2,3) Cons in auto)
qed

lemma cleanup_facts [simp]:
  "executions (ds_db (cleanup_execution_streams eid keys s)) = executions (ds_db s)"
  "ds_files (cleanup_execution_streams eid keys s) = ds_files s"
  "delegates (ds_db (cleanup_execution_streams eid keys s)) = delegates (ds_db s)"
  "ds_deleted (cleanup_execution_streams eid keys s) = ds_deleted s @ key_values keys"
  by (simp_all add: cleanup_execution_streams_def)

lemma give_up_facts [simp]:
  "executions (ds_db (give_up eid keys life s)) = executions (ds_db s)"
  "ds_files (give_up eid keys life s) = ds_files s"
  "delegates (ds_db (give_up eid keys life s)) = delegates (ds_db s)"
  "ds_deleted (give_up eid keys life s) = ds_deleted s @ key_values keys"
  by (simp_all add: give_up_def)

lemma watch_execution_outputs_ok:
  assumes "outputs_ok (cfg_media c) (executions (ds_db s)) (ds_files s)"
    and "\<forall>p \<in> set polls. \<forall>s. outputs_ok (cfg_media c) (executions (ds_db s)) (ds_files s) \<longrightarrow>
           outputs_ok (cfg_media c) (executions (ds_db (wp_others p s))) (ds_files (wp_others p s))"
  shows "outputs_ok (cfg_media c) (executions (ds_db (out_ds (watch_execution c eid keys now life s polls))))
           (ds_files (out_ds (watch_execution c eid keys now life s polls)))"
  unfolding watch_execution_def
  by (rule watch_loop_invariant [where P = "\<lambda>s. outputs_ok (cfg_media c) (executions (ds_db s)) (ds_files s)"])
     (use assms watch_message_outputs_ok in auto)

text \<open>A request whose delegate id is no UUID ends the watcher with the exception, before the ownership
  check could reject it.\<close>

lemma malformed_request_kills_watcher:
  assumes "wp_now p < deadline" and "to_uuid eid = Inr u" and "executions (ds_db (wp_others p s)) u = Some ex"
    and "e_status ex \<notin> TERMINAL_STATUSES" and "wp_reply p = Messages ((events_key keys, (i, f, t) # ms) # rest)"
    and "f ''type'' = Some ''DATA_REQUEST''" and "to_uuid (field_or f ''delegate_id'' []) = Inl e"
  shows "watch_loop c eid keys deadline life s w (p # ps) = Died (wp_others p s) e"
  using assms by (simp add: Let_def flatten_reply_def watch_message_def handle_data_request_def)

text \<open>A poll after the deadline, for the examples.\<close>

definition late_poll :: watch_poll where
  "late_poll = \<lparr>wp_now = 600, wp_others = (\<lambda>s. s), wp_reply = Messages []\<rparr>"

text \<open>C39: Every watcher ends. As soon as one turn of its loop reads a clock at or past the deadline,
  \<open>watch_execution\<close> has returned or was ended by an exception, whatever the streams deliver
  and whatever others do to the database.\<close>

theorem watch_returns:
  assumes "p \<in> set polls" and "now + life \<le> wp_now p"
  shows "\<nexists>s1 w1. watch_execution c eid keys now life s polls = Watching s1 w1"
proof -
  have "watch_loop c eid keys (now + life) life s w polls \<noteq> Watching s1 w1" for s w s1 w1
    using assms(1)
  proof (induction polls arbitrary: s w)
    case Nil
    then show ?case by simp
  next
    case (Cons q qs)
    show ?case
    proof (cases "p = q")
      case True
      with assms(2) show ?thesis by (simp add: Let_def)
    next
      case False
      with Cons have "\<And>s w. watch_loop c eid keys (now + life) life s w qs \<noteq> Watching s1 w1" by simp
      then show ?thesis
        by (auto simp: Let_def split: sum.splits option.splits watch_reply.splits prod.splits)
    qed
  qed
  then show ?thesis by (simp add: watch_execution_def)
qed

lemma watch_returns_witness:
  "\<nexists>s1 w1. watch_execution sample_config (uuid_str 1) (stream_keys (uuid_str 1) (uuid_str 2)) 0 600 sample_ds
     [late_poll] = Watching s1 w1"
  by (rule watch_returns [of late_poll]) (simp_all add: late_poll_def)

text \<open>C26: Streams are deleted once, and only when nothing more is to be read. If no one else deletes
  keys, a watcher that is running or has died has deleted none; one that has finished has
  deleted exactly the four streams of its execution, and then the execution is in a terminal
  status or the deadline has passed, or it has deleted nothing because the execution is
  gone.\<close>

theorem watch_cleanup:
  assumes "\<forall>p \<in> set polls. \<forall>s. ds_deleted (wp_others p s) = ds_deleted s"
  shows "case watch_execution c eid keys now life s polls of
      Watching s1 w1 \<Rightarrow> ds_deleted s1 = ds_deleted s
    | Died s1 e \<Rightarrow> ds_deleted s1 = ds_deleted s
    | Finished s1 \<Rightarrow>
        (ds_deleted s1 = ds_deleted s \<and> (\<exists>u. to_uuid eid = Inr u \<and> executions (ds_db s1) u = None))
        \<or> (ds_deleted s1 = ds_deleted s @ key_values keys
            \<and> ((\<exists>u row. to_uuid eid = Inr u \<and> executions (ds_db s1) u = Some row \<and> e_status row \<in> TERMINAL_STATUSES)
               \<or> (\<exists>p \<in> set polls. now + life \<le> wp_now p)))"
proof -
  define D where "D = ds_deleted s"
  have kept: "ds_deleted s2 = D" if "watch_messages c eid keys ms (s1, w1) = ((s2, w2), r)" "ds_deleted s1 = D"
    for ms s1 w1 s2 w2 r
    by (rule watch_messages_invariant [where P = "\<lambda>s. ds_deleted s = D", OF _ that(2,1)])
       (simp add: watch_message_deleted)
  have "case watch_loop c eid keys (now + life) life s w polls of
      Watching s1 w1 \<Rightarrow> ds_deleted s1 = D
    | Died s1 e \<Rightarrow> ds_deleted s1 = D
    | Finished s1 \<Rightarrow>
        (ds_deleted s1 = D \<and> (\<exists>u. to_uuid eid = Inr u \<and> executions (ds_db s1) u = None))
        \<or> (ds_deleted s1 = D @ key_values keys
            \<and> ((\<exists>u row. to_uuid eid = Inr u \<and> executions (ds_db s1) u = Some row \<and> e_status row \<in> TERMINAL_STATUSES)
               \<or> (\<exists>p \<in> set polls. now + life \<le> wp_now p)))"
    if "ds_deleted s = D" for w
    using assms that
  proof (induction polls arbitrary: s w)
    case Nil
    then show ?case by simp
  next
    case (Cons p ps)
    have Ds: "ds_deleted (wp_others p s) = D" using Cons.prems by simp
    have later: "\<forall>p \<in> set ps. \<forall>s. ds_deleted (wp_others p s) = ds_deleted s" using Cons.prems by simp
    show ?case
    proof (cases rule: watch_turn [of p "now + life" c eid keys life s w ps])
      case late
      then show ?thesis using Ds by simp
    next
      case (bad_id e)
      then show ?thesis using Ds by simp
    next
      case (gone u)
      then show ?thesis using Ds by simp
    next
      case (terminal u row)
      then show ?thesis using Ds by simp
    next
      case (crash u ms s2 w2 e)
      then show ?thesis using kept [OF crash(2) Ds] by simp
    next
      case (again u ms s2 w2)
      show ?thesis
        using Cons.IH [OF later kept [OF again(2) Ds], of w2] unfolding again(3)
        by (auto split: watch_out.splits)
    qed
  qed
  from this [OF D_def [symmetric], of "watch_init keys"] show ?thesis
    unfolding watch_execution_def D_def .
qed

lemma watch_cleanup_witness:
  "\<exists>s1. watch_execution sample_config (uuid_str 1) (stream_keys (uuid_str 1) (uuid_str 2)) 0 600 sample_ds
        [late_poll] = Finished s1
     \<and> ds_deleted s1 = key_values (stream_keys (uuid_str 1) (uuid_str 2))"
proof -
  let ?keys = "stream_keys (uuid_str 1) (uuid_str 2)"
  have "\<forall>p \<in> set [late_poll]. \<forall>s. ds_deleted (wp_others p s) = ds_deleted s"
    by (simp add: late_poll_def)
  note watch_cleanup [OF this, where c = sample_config and eid = "uuid_str 1" and keys = ?keys
      and now = 0 and life = 600 and s = sample_ds]
  then show ?thesis
    by (simp add: watch_execution_def Let_def late_poll_def sample_ds_def)
qed

end
