(* ===== verification/ViewFacts.thy ===== *)
theory ViewFacts
  imports Views Dispatcher
begin

text \<open>
  What the HTTP API guarantees: a registration that is refused leaves nothing behind and one
  that succeeds uses up a valid token of the same tenant; revocation always takes effect in
  the database and is not stopped by a failing Redis or gateway; an execution is only
  created for an active delegate of the tenant, with exactly one task below that delegate's
  key prefix.
\<close>

section \<open>Registration, in all its ways out\<close>

text \<open>What no answer but a success may change.\<close>

definition same_core :: "'r cp \<Rightarrow> 'r cp \<Rightarrow> bool" where
  "same_core s s' =
     (tokens (cp_db s') = tokens (cp_db s) \<and> delegates (cp_db s') = delegates (cp_db s)
      \<and> executions (cp_db s') = executions (cp_db s) \<and> cp_tasks s' = cp_tasks s \<and> cp_clients s' = cp_clients s)"

lemma same_core_refl [simp]: "same_core s s"
  by (simp add: same_core_def)

lemma same_core_find: "same_core s s' \<Longrightarrow> find_delegate (cp_db s') = find_delegate (cp_db s)"
  by (simp add: same_core_def find_delegate_def fun_eq_iff)

lemma rejected_core:
  assumes "rejected w tenant detail st msg s = (s', out)"
  shows "same_core s s' \<and> cp_acl s' = cp_acl s \<and> cp_ca s' = cp_ca s
    \<and> (\<exists>resp. out = Inr resp \<and> resp_status resp = st)"
  using assms by (auto simp: rejected_def same_core_def error_response_def json_response_def)

text \<open>The text of the token a request shows.\<close>

definition request_token :: "'r web \<Rightarrow> request \<Rightarrow> string result" where
  "request_token w req =
     ebind (json_body w req) (\<lambda>body. ebind (body_req body ''token'') (\<lambda>t. Inr (json_text (repr w) t)))"

lemma token_problem_None:
  assumes "token_problem d now token tenant = None"
  shows "\<exists>t. tokens d token = Some t \<and> t_used_at t = None \<and> now \<le> t_expires_at t \<and> tenant = JStr (t_tenant_id t)"
  using assms by (auto simp: token_problem_def split: option.splits if_splits)

lemma delegate_row_Inr:
  assumes "delegate_row w body tenant cert_pem serial na = Inr row"
  shows "d_status row = STATUS_ACTIVE \<and> d_tenant_id row = json_text (repr w) tenant
    \<and> d_cert_pem row = cert_pem \<and> d_cert_serial row = serial \<and> d_cert_expires_at row = na"
  using assms by (auto simp: delegate_row_def ebind_eq_Inr split: if_splits)

lemma sign_for_Inr:
  assumes "sign_for w now rr csr_json fs = (fs', Inr (cert_pem, serial, na))"
  shows "\<exists>cert. cert_pem = pem (web_crypto w) cert \<and> c_subject cert = uuid_str (rr_delegate_id rr)
    \<and> \<not> c_ca cert \<and> c_eku cert = [CLIENT_AUTH] \<and> serial = hex_nat (c_serial cert) \<and> na = c_not_after cert"
proof (cases csr_json)
  case (JStr s)
  with assms show ?thesis by (auto simp: sign_for_def dest!: sign_csr_result)
qed (use assms in \<open>auto simp: sign_for_def Let_def ebind_eq_Inr split: sum.splits\<close>)

lemma register_checked_cases:
  assumes "register_checked w now rr body token tenant csr_json s = (s', out)"
  obtains (refused) resp where "out = Inr resp" "resp_status resp \<noteq> 200" "same_core s s'" "cp_acl s' = cp_acl s"
    | (raised) e where "out = Inl e" "same_core s s'"
        "cp_acl s' = cp_acl s \<or> provision_delegate (web_acl w) (rr_password rr) (rr_delegate_id rr) (cp_acl s) = Inr (cp_acl s')"
    | (committed) fs cert_pem serial na acl row where
        "token_problem (cp_db s) now token tenant = None"
        "sign_for w now rr csr_json (cp_ca s) = (fs, Inr (cert_pem, serial, na))"
        "provision_delegate (web_acl w) (rr_password rr) (rr_delegate_id rr) (cp_acl s) = Inr acl"
        "delegate_row w body tenant cert_pem serial na = Inr row"
        "find_delegate (cp_db s) (rr_delegate_id rr) = None"
        "(s', out) = register_commit w now (rr_delegate_id rr) token (json_text (repr w) tenant) row
           (s\<lparr>cp_ca := fs, cp_acl := acl\<rparr>)"
proof (cases "token_problem (cp_db s) now token tenant")
  case (Some p)
  with assms rejected_core refused show ?thesis
    by (cases p) (auto simp: register_checked_def dest!: rejected_core)
next
  case tok: None
  obtain fs sr where sign: "sign_for w now rr csr_json (cp_ca s) = (fs, sr)" by fastforce
  show ?thesis
  proof (cases sr)
    case (Inl e)
    show ?thesis
    proof (cases "is_value_error e")
      case True
      with assms tok sign Inl have "rejected w tenant (exn_text e) 400 (exn_text e) (s\<lparr>cp_ca := fs\<rparr>) = (s', out)"
        by (simp add: register_checked_def Let_def)
      from rejected_core [OF this] refused show ?thesis by (auto simp: same_core_def)
    next
      case False
      with assms tok sign Inl raised [of e] show ?thesis
        by (auto simp: register_checked_def Let_def same_core_def)
    qed
  next
    case (Inr triple)
    obtain cert_pem serial na where triple: "triple = (cert_pem, serial, na)" by (cases triple) auto
    note now1 = tok sign [unfolded Inr triple]
    show ?thesis
    proof (cases "provision_delegate (web_acl w) (rr_password rr) (rr_delegate_id rr) (cp_acl s)")
      case (Inl e)
      with assms now1 have "rejected w tenant (''redis ACL provisioning failed: '' @ exn_text e) 503
          ''could not provision Redis access'' (s\<lparr>cp_ca := fs\<rparr>) = (s', out)"
        by (simp add: register_checked_def Let_def)
      from rejected_core [OF this] refused show ?thesis by (auto simp: same_core_def)
    next
      case acl: (Inr acl)
      show ?thesis
      proof (cases "delegate_row w body tenant cert_pem serial na")
        case (Inl e)
        with assms now1 acl raised [of e] show ?thesis
          by (auto simp: register_checked_def Let_def same_core_def)
      next
        case row: (Inr row)
        show ?thesis
        proof (cases "find_delegate (cp_db s) (rr_delegate_id rr)")
          case None
          with assms now1 acl row committed [OF now1 acl row None] show ?thesis
            by (simp add: register_checked_def Let_def)
        next
          case (Some old)
          with assms now1 acl row raised [of integrity_error] show ?thesis
            by (auto simp: register_checked_def Let_def same_core_def)
        qed
      qed
    qed
  qed
qed

text \<open>The whole handler: the same three ways, or a body that is refused before.\<close>

lemma register_delegate_cases:
  assumes "register_delegate w now rr req s = (s', out)"
  obtains (early) "s' = s" "\<And>resp. out = Inr resp \<Longrightarrow> resp_status resp \<noteq> 200"
    | (checked) body token tenant csr_json where
        "json_body w req = Inr body" "request_token w req = Inr token" "body_req body ''tenant_id'' = Inr tenant"
        "register_checked w now rr body token tenant csr_json s = (s', out)" "body_req body ''csr_pem'' = Inr csr_json"
proof (cases "json_body w req")
  case (Inl e)
  with assms early show ?thesis
    by (auto simp: register_delegate_def require_http_method_def json_response_def split: if_splits)
next
  case body: (Inr body)
  show ?thesis
  proof (cases "req_method req = ''POST'' \<and> body \<noteq> JNull
      \<and> missing_fields body [''token'', ''tenant_id'', ''name'', ''csr_pem''] = Inr []")
    case False
    with assms body early show ?thesis
      by (auto simp: register_delegate_def require_http_method_def json_response_def error_response_def
          simp del: missing_fields.simps split: if_splits sum.splits)
  next
    case True
    then obtain kv where kv: "body = JObj kv" using missing_fields_obj_only by blast
    let ?ks = "[''token'', ''tenant_id'', ''name'', ''csr_pem'']"
    have "\<forall>k \<in> set ?ks. \<exists>v. map_of kv k = Some v \<and> truthy v"
      using True missing_fields_Nil [of kv ?ks] unfolding kv by blast
    then obtain tok tenant csr_json where req: "body_req body ''token'' = Inr tok" "body_req body ''tenant_id'' = Inr tenant"
      "body_req body ''csr_pem'' = Inr csr_json"
      using kv by (auto simp: body_req_def)
    have "request_token w req = Inr (json_text (repr w) tok)"
      using body req by (simp add: request_token_def)
    moreover have "register_checked w now rr body (json_text (repr w) tok) tenant csr_json s = (s', out)"
      using assms True body req
      by (simp add: register_delegate_def require_http_method_def del: missing_fields.simps)
    ultimately show ?thesis using checked [OF body _ req(2) _ req(3)] by blast
  qed
qed

lemma provision_table:
  assumes "acl_laws srv" and "provision_delegate srv pw u r = Inr r'"
  shows "acl_table srv r' = (acl_table srv r)(uuid_str u \<mapsto> acl_rules_for pw (uuid_str u))"
  using assms setuser_table [OF assms(1)] by (auto simp: provision_delegate_def Let_def ebind_eq_Inr)

lemma register_commit_state:
  assumes "register_commit w now u token tenant row s = (s', out)" and "tokens (cp_db s) token = Some t"
  shows "tokens (cp_db s') = (tokens (cp_db s))(token \<mapsto> t\<lparr>t_used_at := Some now\<rparr>)
    \<and> delegates (cp_db s') = AList.update u row (delegates (cp_db s))
    \<and> executions (cp_db s') = executions (cp_db s) \<and> cp_tasks s' = cp_tasks s
    \<and> cp_clients s' = cp_clients s \<and> cp_acl s' = cp_acl s \<and> cp_ca s' = cp_ca s
    \<and> (\<forall>resp. out = Inr resp \<longrightarrow> resp_status resp = 200
         \<and> (''delegate_id'', JStr (uuid_str u)) \<in> set (resp_body resp))"
  using assms
  by (auto simp: register_commit_def Let_def put_delegate_def audit_def ebind_eq_Inr json_response_def)

section \<open>Registration\<close>

text \<open>C21: A registration that answers 200 has shown a token that was known, unused, not expired and
  of the tenant it claims. It has used up that token and no other, added one delegate,
  active and of the token's tenant, leaving every other row, given the delegate's ACL user
  exactly the rules of a delegate and changed no other user, and stored a client
  certificate that names the new delegate and cannot sign others.\<close>

theorem register_success:
  assumes "acl_laws (web_acl w)"
    and "register_delegate w now rr req s = (s', Inr resp)" and "resp_status resp = 200"
  shows "\<exists>tok t row cert. request_token w req = Inr tok \<and> tokens (cp_db s) tok = Some t
    \<and> t_used_at t = None \<and> now \<le> t_expires_at t
    \<and> tokens (cp_db s') = (tokens (cp_db s))(tok \<mapsto> t\<lparr>t_used_at := Some now\<rparr>)
    \<and> find_delegate (cp_db s) (rr_delegate_id rr) = None
    \<and> find_delegate (cp_db s') = (find_delegate (cp_db s))(rr_delegate_id rr \<mapsto> row)
    \<and> d_status row = STATUS_ACTIVE \<and> d_tenant_id row = t_tenant_id t
    \<and> d_cert_pem row = pem (web_crypto w) cert \<and> c_subject cert = uuid_str (rr_delegate_id rr)
    \<and> \<not> c_ca cert \<and> c_eku cert = [CLIENT_AUTH]
    \<and> acl_table (web_acl w) (cp_acl s') = (acl_table (web_acl w) (cp_acl s))
         (uuid_str (rr_delegate_id rr) \<mapsto> acl_rules_for (rr_password rr) (uuid_str (rr_delegate_id rr)))
    \<and> (''delegate_id'', JStr (uuid_str (rr_delegate_id rr))) \<in> set (resp_body resp)"
  using assms(2)
proof (cases rule: register_delegate_cases)
  case early
  with assms(3) show ?thesis by auto
next
  case (checked body tok tenant csr_json)
  from checked(4) show ?thesis
  proof (cases rule: register_checked_cases)
    case (refused resp')
    with assms(3) show ?thesis by simp
  next
    case (raised e)
    then show ?thesis by simp
  next
    case (committed fs cert_pem serial na acl row)
    let ?u = "rr_delegate_id rr"
    obtain t where t: "tokens (cp_db s) tok = Some t" "t_used_at t = None" "now \<le> t_expires_at t"
      "tenant = JStr (t_tenant_id t)"
      using token_problem_None [OF committed(1)] by blast
    obtain cert where cert: "cert_pem = pem (web_crypto w) cert" "c_subject cert = uuid_str ?u" "\<not> c_ca cert"
      "c_eku cert = [CLIENT_AUTH]"
      using sign_for_Inr [OF committed(2)] by blast
    note row = delegate_row_Inr [OF committed(4)]
    note st = register_commit_state [OF committed(6) [symmetric], of t]
    have "find_delegate (cp_db s') = (find_delegate (cp_db s))(?u \<mapsto> row)"
      using st t(1) by (auto simp: find_delegate_def update_conv' fun_eq_iff)
    with checked(2) t cert row st committed(5) provision_table [OF assms(1) committed(3)] show ?thesis
      by (intro exI [of _ tok] exI [of _ t] exI [of _ row] exI [of _ cert]) auto
  qed
qed

text \<open>A refused registration leaves nothing behind: with any answer other than 200 the tokens,
  the delegates, the ACL users, the executions and the tasks are what they were.\<close>

theorem register_refused_no_effect:
  assumes "register_delegate w now rr req s = (s', Inr resp)" and "resp_status resp \<noteq> 200"
  shows "same_core s s' \<and> cp_acl s' = cp_acl s"
  using assms(1)
proof (cases rule: register_delegate_cases)
  case early
  then show ?thesis by simp
next
  case (checked body tok tenant csr_json)
  from checked(4) show ?thesis
  proof (cases rule: register_checked_cases)
    case (refused resp')
    then show ?thesis by simp
  next
    case (raised e)
    then show ?thesis by simp
  next
    case (committed fs cert_pem serial na acl row)
    obtain t where "tokens (cp_db s) tok = Some t"
      using token_problem_None [OF committed(1)] by blast
    with register_commit_state [OF committed(6) [symmetric]] assms(2) show ?thesis by auto
  qed
qed

text \<open>The one way a registration is left half done. If the token is good, the CSR is signed and
  Redis provisioned, but the optional \<open>concurrency\<close> is no number, the handler raises: the
  ACL user exists with its full rules, but there is no delegate row, the token is not used
  up, and nothing is audited.\<close>

theorem register_half_done:
  assumes "acl_laws (web_acl w)" and "token_problem (cp_db s) now token tenant = None"
    and "sign_for w now rr csr_json (cp_ca s) = (fs, Inr c)"
    and "provision_delegate (web_acl w) (rr_password rr) (rr_delegate_id rr) (cp_acl s) = Inr acl"
    and "map_of kv ''concurrency'' = Some (JStr ''many'')"
  shows "\<exists>s' e. register_checked w now rr (JObj kv) token tenant csr_json s = (s', Inl e)
    \<and> acl_table (web_acl w) (cp_acl s') (uuid_str (rr_delegate_id rr))
        = Some (acl_rules_for (rr_password rr) (uuid_str (rr_delegate_id rr)))
    \<and> cp_db s' = cp_db s"
proof -
  obtain cert_pem serial na where c: "c = (cert_pem, serial, na)" by (cases c) auto
  have "py_int ''many'' = Inl (ValueError ''invalid literal for int()'')" by code_simp
  then obtain e where e: "py_int ''many'' = Inl e" by blast
  have "\<exists>e. delegate_row w (JObj kv) tenant cert_pem serial na = Inl e"
    using assms(5) e by (auto simp: delegate_row_def ebind_def split: sum.splits)
  then obtain e' where "delegate_row w (JObj kv) tenant cert_pem serial na = Inl e'" by blast
  then show ?thesis
    using assms(2-4) provision_table [OF assms(1,4)] by (simp add: register_checked_def Let_def c)
qed

section \<open>Revocation\<close>

text \<open>C22: Revocation takes effect whatever fails. For a known delegate the handler answers 200 and
  marks it revoked, changing no other row, whether or not Redis and the gateway can be
  reached; if the ACL command works, the delegate's ACL user is gone and no other user
  changed. From then on no execution can be created for the delegate and the dispatcher
  authorises no data request of it.\<close>

theorem revoke_takes_effect:
  assumes "acl_laws (web_acl w)" and "req_method req = ''POST''" and "find_delegate (cp_db s) u = Some row"
  shows "\<exists>s' resp. revoke_delegate w gateway req u s = (s', Inr resp) \<and> resp_status resp = 200
    \<and> find_delegate (cp_db s') = (find_delegate (cp_db s))(u \<mapsto> row\<lparr>d_status := STATUS_REVOKED\<rparr>)
    \<and> tokens (cp_db s') = tokens (cp_db s) \<and> executions (cp_db s') = executions (cp_db s)
    \<and> (case revoke_delegate_acl (web_acl w) u (cp_acl s) of
         Inl e \<Rightarrow> cp_acl s' = cp_acl s
       | Inr _ \<Rightarrow> acl_table (web_acl w) (cp_acl s') = (acl_table (web_acl w) (cp_acl s))(uuid_str u := None))
    \<and> (\<forall>new_id broker body tenant fixture. \<exists>resp'.
         create_checked w new_id broker body tenant u fixture s' = (s', Inr resp') \<and> resp_status resp' = 403)
    \<and> (\<forall>ex did tenant. \<not> authorized (cp_db s') ex u did tenant)"
proof -
  obtain s' out where run: "revoke_delegate w gateway req u s = (s', out)" by fastforce
  have find: "find_delegate (cp_db s') = (find_delegate (cp_db s))(u \<mapsto> row\<lparr>d_status := STATUS_REVOKED\<rparr>)"
    using run assms(2,3)
    by (auto simp: revoke_delegate_def require_http_method_def Let_def fun_eq_iff split: sum.splits prod.splits)
  have frame: "tokens (cp_db s') = tokens (cp_db s)" "executions (cp_db s') = executions (cp_db s)"
    using run assms(2,3)
    by (auto simp: revoke_delegate_def require_http_method_def Let_def split: sum.splits prod.splits)
  have resp: "\<exists>resp. out = Inr resp \<and> resp_status resp = 200"
    using run assms(2,3)
    by (auto simp: revoke_delegate_def require_http_method_def Let_def json_response_def split: sum.splits prod.splits)
  have acl: "case revoke_delegate_acl (web_acl w) u (cp_acl s) of
      Inl e \<Rightarrow> cp_acl s' = cp_acl s
    | Inr (n, r) \<Rightarrow> cp_acl s' = r"
    using run assms(2,3)
    by (auto simp: revoke_delegate_def require_http_method_def Let_def split: sum.splits prod.splits)
  have del: "acl_table (web_acl w) r = (acl_table (web_acl w) (cp_acl s))(uuid_str u := None)"
    if "revoke_delegate_acl (web_acl w) u (cp_acl s) = Inr (n, r)" for n r
    using that assms(1) acl_lawsD(2) [OF assms(1)] by (auto simp: revoke_delegate_acl_def ebind_eq_Inr)
  have "case revoke_delegate_acl (web_acl w) u (cp_acl s) of
         Inl e \<Rightarrow> cp_acl s' = cp_acl s
       | Inr _ \<Rightarrow> acl_table (web_acl w) (cp_acl s') = (acl_table (web_acl w) (cp_acl s))(uuid_str u := None)"
    using acl del by (auto split: sum.splits prod.splits)
  moreover have "\<exists>resp'. create_checked w new_id broker body tenant u fixture s' = (s', Inr resp') \<and> resp_status resp' = 403"
    for new_id broker body tenant fixture
    by (simp add: create_checked_def find error_response_def json_response_def)
  moreover have "\<not> authorized (cp_db s') ex u did tenant" for ex did tenant
    by (simp add: authorized_def find)
  ultimately show ?thesis using run find frame resp by blast
qed

section \<open>Executions\<close>

text \<open>The row of a new execution.\<close>

definition queued :: "delegate \<Rightarrow> uuid \<Rightarrow> string \<Rightarrow> execution" where
  "queued row u fixture =
     \<lparr>e_tenant_id = d_tenant_id row, e_delegate_id = Some u, e_workspace_fixture = fixture,
      e_status = STATUS_QUEUED, e_transfer_id = [], e_transfer_attempts = 0,
      e_output_path = [], e_output_checksum = []\<rparr>"

lemma create_checked_cases:
  assumes "clients_wf (cp_clients s)" and "create_checked w new_id broker body tenant u fixture s = (s', out)"
  obtains (unchanged) "s' = s" "\<And>resp. out = Inr resp \<Longrightarrow> resp_status resp \<noteq> 200"
    | (created) row p task where "find_delegate (cp_db s) u = Some row" "d_status row = STATUS_ACTIVE"
        "tenant = JStr (d_tenant_id row)" "fixture = JStr p" "isdir (web_host w) (py_join (WORKSPACE_FIXTURES_DIR w) p)"
        "executions (cp_db s) new_id = None"
        "executions (cp_db s') = (executions (cp_db s))(new_id \<mapsto> queued row u p)"
        "delegates (cp_db s') = delegates (cp_db s)" "tokens (cp_db s') = tokens (cp_db s)"
        "cp_acl s' = cp_acl s" "cp_ca s' = cp_ca s" "clients_wf (cp_clients s')"
        "task_prefix task = delegate_prefix (uuid_str u)" "task_queue task = d_queue row"
        "task_execution_id task = uuid_str new_id"
        "case broker of Inl e \<Rightarrow> out = Inl e \<and> cp_tasks s' = cp_tasks s
           | Inr _ \<Rightarrow> (\<exists>resp. out = Inr resp \<and> resp_status resp = 200) \<and> cp_tasks s' = cp_tasks s @ [task]"
proof (cases "\<exists>row p fname. find_delegate (cp_db s) u = Some row \<and> d_status row = STATUS_ACTIVE
    \<and> tenant = JStr (d_tenant_id row) \<and> fixture = JStr p \<and> isdir (web_host w) (py_join (WORKSPACE_FIXTURES_DIR w) p)
    \<and> executions (cp_db s) new_id = None \<and> body_get body ''file_name'' (JStr ''*'') = Inr fname")
  case False
  with False assms(2) unchanged show ?thesis
    by (auto simp: create_checked_def Let_def error_response_def json_response_def join_json_def
        split: option.splits if_splits sum.splits json.splits prod.splits)
next
  case True
  then obtain row p fname where ok: "find_delegate (cp_db s) u = Some row" "d_status row = STATUS_ACTIVE"
    "tenant = JStr (d_tenant_id row)" "fixture = JStr p" "isdir (web_host w) (py_join (WORKSPACE_FIXTURES_DIR w) p)"
    "executions (cp_db s) new_id = None" "body_get body ''file_name'' (JStr ''*'') = Inr fname" by blast
  obtain task cs where send: "send_execute_task (web_environ w) (REDIS_URL w) (uuid_str new_id) (uuid_str u)
      (d_queue row) fname (cp_clients s) = (task, cs)" by fastforce
  note t = send_execute_task_wf [OF assms(1) send]
  show ?thesis
    by (rule created [OF ok(1-6), of task])
      (use assms(2) ok send t in \<open>auto simp: create_checked_def Let_def json_response_def join_json_def queued_def
         split: sum.splits\<close>)
qed

lemma create_execution_cases:
  assumes "create_execution w new_id broker req s = (s', out)"
  obtains (early) "s' = s" "\<And>resp. out = Inr resp \<Longrightarrow> resp_status resp \<noteq> 200"
    | (checked) body tenant u fixture where "create_checked w new_id broker body tenant u fixture s = (s', out)"
proof -
  have "(s' = s \<and> (\<forall>resp. out = Inr resp \<longrightarrow> resp_status resp \<noteq> 200))
      \<or> (\<exists>body tenant u fixture. create_checked w new_id broker body tenant u fixture s = (s', out))"
    using assms
    by (auto simp: create_execution_def require_http_method_def json_response_def error_response_def
        simp del: missing_fields.simps split: if_splits sum.splits prod.splits)
  then show ?thesis using early checked by blast
qed


text \<open>An execution can be lost. If the same request that would have succeeded meets a broker that
  refuses the task, the caller gets an exception, but the execution's row stays, queued for
  ever: no task was sent for it, and nothing removes it.\<close>

theorem create_execution_lost:
  assumes "clients_wf (cp_clients s)"
    and "create_checked w new_id (Inr ()) body tenant u fixture s = (s1, Inr resp)" and "resp_status resp = 200"
  shows "\<exists>s2 ex. create_checked w new_id (Inl e) body tenant u fixture s = (s2, Inl e)
    \<and> executions (cp_db s2) new_id = Some ex \<and> e_status ex = STATUS_QUEUED \<and> cp_tasks s2 = cp_tasks s"
proof -
  obtain s2 out where run: "create_checked w new_id (Inl e) body tenant u fixture s = (s2, out)" by fastforce
  from assms(1) run show ?thesis
  proof (cases rule: create_checked_cases)
    case unchanged
    from assms(1,2) show ?thesis
    proof (cases rule: create_checked_cases)
      case unchanged
      with assms(3) show ?thesis by simp
    next
      case (created row p task)
      obtain fname where fname: "body_get body ''file_name'' (JStr ''*'') = Inr fname"
        using assms(2) created(1-6)
        by (cases "body_get body ''file_name'' (JStr ''*'')") (auto simp: create_checked_def join_json_def)
      obtain t cs where send: "send_execute_task (web_environ w) (REDIS_URL w) (uuid_str new_id) (uuid_str u)
          (d_queue row) fname (cp_clients s) = (t, cs)" by fastforce
      have "executions (cp_db s2) new_id \<noteq> None"
        using run created(1-6) fname send by (auto simp: create_checked_def Let_def join_json_def)
      with unchanged(1) created(6) show ?thesis by simp
    qed
  next
    case (created row p task)
    then show ?thesis using run by (auto simp: queued_def)
  qed
qed

text \<open>A workspace can lie outside the fixtures. An absolute path given as \<open>workspace_fixture\<close>
  replaces the configured directory: the execution is accepted for any directory of the
  control plane's host, and it is this directory that the dispatcher will pack.\<close>

theorem absolute_fixture_escapes:
  assumes "clients_wf (cp_clients s)" and "find_delegate (cp_db s) u = Some row" and "d_status row = STATUS_ACTIVE"
    and "isabs p" and "isdir (web_host w) p" and "executions (cp_db s) new_id = None"
  shows "\<exists>s' resp. create_checked w new_id (Inr ()) (JObj kv) (JStr (d_tenant_id row)) u (JStr p) s = (s', Inr resp)
    \<and> resp_status resp = 200
    \<and> (\<exists>ex. executions (cp_db s') new_id = Some ex
         \<and> (\<forall>fixtures name. workspace_zip h (py_join fixtures (e_workspace_fixture ex)) name = workspace_zip h p name))"
proof -
  obtain s' out where run:
    "create_checked w new_id (Inr ()) (JObj kv) (JStr (d_tenant_id row)) u (JStr p) s = (s', out)" by fastforce
  from assms(1) run show ?thesis
  proof (cases rule: create_checked_cases)
    case unchanged
    with run assms show ?thesis
      by (auto simp: create_checked_def Let_def join_json_def py_join_abs json_response_def split: prod.splits)
  next
    case (created row' p' task)
    then show ?thesis using run assms(4) by (auto simp: queued_def py_join_abs)
  qed
qed

section \<open>Examples\<close>

definition sample_body :: "(string \<times> json) list" where
  "sample_body =
     [(''token'', JStr ''t''), (''tenant_id'', JStr ''acme''), (''name'', JStr ''d''), (''csr_pem'', JStr ''csr'')]"

definition sample_web :: "json \<Rightarrow> (string \<times> string list) list web" where
  "sample_web body =
     \<lparr>json_loads = (\<lambda>_. Inr (Some body)), repr = (\<lambda>_. []), web_crypto = sample_crypto, web_acl = list_acl_server,
      web_host = sample_host, web_environ = Map.empty, CA_DIR = ''/ca'', WORKSPACE_FIXTURES_DIR = ''/fixtures'',
      REDIS_URL = ''redis://r'', DELEGATE_CERT_VALIDITY_DAYS = 1, REGISTRATION_TOKEN_TTL_SECONDS = 300\<rparr>"

definition sample_cp :: "(string \<times> string list) list cp" where
  "sample_cp =
     \<lparr>cp_db = empty_db\<lparr>tokens := [''t'' \<mapsto> \<lparr>t_tenant_id = ''acme'', t_expires_at = 300, t_used_at = None\<rparr>]\<rparr>,
      cp_acl = [], cp_ca = Map.empty, cp_clients = Map.empty, cp_tasks = []\<rparr>"

definition sample_random :: reg_random where
  "sample_random = \<lparr>rr_delegate_id = 5, rr_root = (1, 2), rr_serial = 3, rr_password = ''pw''\<rparr>"

definition post :: request where
  "post = \<lparr>req_method = ''POST'', req_body = [1]\<rparr>"

lemma sample_laws: "acl_laws (web_acl (sample_web body))"
  by (simp add: sample_web_def list_acl_server_laws)

lemma sample_web_facts [simp]:
  "json_body (sample_web b) post = Inr b" "web_crypto (sample_web b) = sample_crypto" "CA_DIR (sample_web b) = ''/ca''"
  "web_acl (sample_web b) = list_acl_server" "req_method post = ''POST''"
  by (simp_all add: json_body_def post_def sample_web_def)

lemma sample_sign:
  "\<exists>fs c. sign_for (sample_web body) 10 sample_random (JStr ''csr'') Map.empty = (fs, Inr c)
     \<and> ca_cert_pem sample_crypto ''/ca'' fs = Inr (c_subject (root_cert 10 (1, 2)))"
  using ca_paths_distinct [of "''/ca''"]
  by (auto simp: sign_for_def sample_web_def sign_csr_def sign_csr_cert_def sample_random_def Let_def
      ensure_root_ca_def load_ca_def sample_crypto_def ca_cert_pem_def)

lemma sample_provision:
  "\<exists>acl. provision_delegate (web_acl (sample_web body)) ''pw'' 5 [] = Inr acl"
  by (simp add: provision_delegate_def Let_def sample_web_def list_acl_server_def)

lemma sample_token: "token_problem (cp_db sample_cp) 10 ''t'' (JStr ''acme'') = None"
  by (simp add: token_problem_def sample_cp_def)

lemma sample_register_in:
  assumes "cp_ca s = Map.empty" "cp_acl s = []" "find_delegate (cp_db s) 5 = None"
    and "token_problem (cp_db s) 10 ''t'' (JStr ''acme'') = None"
  shows "\<exists>s' resp row. register_delegate (sample_web (JObj sample_body)) 10 sample_random post s = (s', Inr resp)
     \<and> resp_status resp = 200 \<and> find_delegate (cp_db s') 5 = Some row \<and> d_status row = STATUS_ACTIVE"
proof -
  let ?w = "sample_web (JObj sample_body)"
  obtain fs c where sign: "sign_for ?w 10 sample_random (JStr ''csr'') Map.empty = (fs, Inr c)"
    "ca_cert_pem sample_crypto ''/ca'' fs = Inr (c_subject (root_cert 10 (1, 2)))"
    using sample_sign by blast
  obtain acl where acl: "provision_delegate (web_acl ?w) ''pw'' 5 [] = Inr acl"
    using sample_provision by blast
  obtain cert_pem serial na where c: "c = (cert_pem, serial, na)" by (cases c) auto
  have sel: "rr_delegate_id sample_random = 5" "rr_password sample_random = ''pw''"
    by (simp_all add: sample_random_def)
  show ?thesis
    using sign acl assms
    by (simp add: register_delegate_def require_http_method_def sel register_checked_def c
        delegate_row_def register_commit_def Let_def json_response_def sample_body_def body_req_def find_delegate_def
        put_delegate_def audit_def update_conv' split: option.splits)
qed

lemma sample_register:
  "\<exists>s' resp. register_delegate (sample_web (JObj sample_body)) 10 sample_random post sample_cp = (s', Inr resp)
     \<and> resp_status resp = 200"
  using sample_register_in [of sample_cp] sample_token by (auto simp: sample_cp_def find_delegate_def empty_db_def)

lemma register_success_witness:
  "\<exists>s' resp row. register_delegate (sample_web (JObj sample_body)) 10 sample_random post sample_cp = (s', Inr resp)
     \<and> find_delegate (cp_db s') = (find_delegate (cp_db sample_cp))(5 \<mapsto> row) \<and> d_status row = STATUS_ACTIVE"
proof -
  obtain s' resp where run: "register_delegate (sample_web (JObj sample_body)) 10 sample_random post sample_cp = (s', Inr resp)"
    and ok: "resp_status resp = 200" using sample_register by blast
  have "rr_delegate_id sample_random = 5" by (simp add: sample_random_def)
  with register_success [OF sample_laws run ok] run show ?thesis by auto
qed

lemma register_refused_no_effect_witness:
  "\<exists>s' resp. register_delegate (sample_web (JObj sample_body)) 999 sample_random post sample_cp = (s', Inr resp)
     \<and> resp_status resp = 403 \<and> same_core sample_cp s'"
proof -
  let ?w = "sample_web (JObj sample_body)"
  obtain s' resp where run: "register_delegate ?w 999 sample_random post sample_cp = (s', Inr resp)"
    and st: "resp_status resp = 403"
    by (simp add: register_delegate_def require_http_method_def register_checked_def token_problem_def sample_cp_def
        rejected_def error_response_def json_response_def sample_body_def body_req_def Let_def)
  then have "resp_status resp \<noteq> 200" by simp
  from register_refused_no_effect [OF run this] run st show ?thesis by blast
qed

lemma register_half_done_witness:
  "\<exists>s' e. register_checked (sample_web JNull) 10 sample_random (JObj [(''concurrency'', JStr ''many'')]) ''t'' (JStr ''acme'')
        (JStr ''csr'') sample_cp = (s', Inl e)
     \<and> acl_table list_acl_server (cp_acl s') (uuid_str 5) = Some (acl_rules_for ''pw'' (uuid_str 5)) \<and> cp_db s' = cp_db sample_cp"
proof -
  let ?w = "sample_web JNull"
  have sel: "cp_ca sample_cp = Map.empty" "cp_acl sample_cp = []" "rr_delegate_id sample_random = 5"
    "rr_password sample_random = ''pw''"
    by (simp_all add: sample_cp_def sample_random_def)
  obtain fs c where "sign_for ?w 10 sample_random (JStr ''csr'') Map.empty = (fs, Inr c)"
    using sample_sign by blast
  then have sign: "sign_for ?w 10 sample_random (JStr ''csr'') (cp_ca sample_cp) = (fs, Inr c)" by (simp add: sel)
  obtain acl where "provision_delegate (web_acl ?w) ''pw'' 5 [] = Inr acl"
    using sample_provision by blast
  then have acl: "provision_delegate (web_acl ?w) (rr_password sample_random) (rr_delegate_id sample_random) (cp_acl sample_cp)
      = Inr acl" by (simp add: sel)
  show ?thesis
    using register_half_done [OF sample_laws sample_token sign acl, of "[(''concurrency'', JStr ''many'')]"]
    by (simp add: sel)
qed

definition sample_row :: delegate where
  "sample_row =
     \<lparr>d_tenant_id = ''acme'', d_name = ''d'', d_queue = ''default'', d_concurrency = 1, d_cert_serial = ''1'',
      d_cert_pem = [], d_cert_expires_at = 0, d_status = STATUS_ACTIVE\<rparr>"

definition sample_full :: "(string \<times> string list) list cp" where
  "sample_full = sample_cp\<lparr>cp_db := put_delegate 5 sample_row empty_db\<rparr>"

lemma sample_full_facts [simp]:
  "find_delegate (cp_db sample_full) 5 = Some sample_row" "d_status sample_row = STATUS_ACTIVE"
  "executions (cp_db sample_full) u = None" "clients_wf (cp_clients sample_full)" "d_tenant_id sample_row = ''acme''"
  by (simp_all add: sample_full_def sample_row_def empty_db_def sample_cp_def clients_wf_def)

lemma revoke_takes_effect_witness:
  "\<exists>s' resp. revoke_delegate (sample_web JNull) (Inl ConnectionError) post 5 sample_full = (s', Inr resp)
     \<and> resp_status resp = 200 \<and> find_delegate (cp_db s') 5 = Some (sample_row\<lparr>d_status := STATUS_REVOKED\<rparr>)"
proof -
  from revoke_takes_effect [OF sample_laws sample_web_facts(5) sample_full_facts(1), of JNull "Inl ConnectionError"]
  show ?thesis by auto
qed

definition sample_create :: "(string \<times> json) list" where
  "sample_create =
     [(''tenant_id'', JStr ''acme''), (''delegate_id'', JStr (uuid_str 5)), (''workspace_fixture'', JStr ''demo'')]"

lemma sample_created:
  "\<exists>s' resp. create_checked (sample_web (JObj sample_create)) 9 (Inr ()) (JObj sample_create) (JStr ''acme'') 5 (JStr ''demo'')
      sample_full = (s', Inr resp) \<and> resp_status resp = 200"
  by (simp add: create_checked_def join_json_def sample_web_def sample_host_def Let_def sample_create_def
      json_response_def split: prod.splits)


lemma create_execution_lost_witness:
  "\<exists>s2 ex. create_checked (sample_web (JObj sample_create)) 9 (Inl ConnectionError) (JObj sample_create) (JStr ''acme'') 5
       (JStr ''demo'') sample_full = (s2, Inl ConnectionError)
     \<and> executions (cp_db s2) 9 = Some ex \<and> e_status ex = STATUS_QUEUED"
proof -
  obtain s' resp where "create_checked (sample_web (JObj sample_create)) 9 (Inr ()) (JObj sample_create) (JStr ''acme'') 5
      (JStr ''demo'') sample_full = (s', Inr resp)" "resp_status resp = 200"
    using sample_created by blast
  from create_execution_lost [OF sample_full_facts(4) this, of ConnectionError] show ?thesis by blast
qed

lemma absolute_fixture_escapes_witness:
  "\<exists>s' resp. create_checked (sample_web JNull) 9 (Inr ()) (JObj []) (JStr ''acme'') 5 (JStr ''/etc'') sample_full
     = (s', Inr resp) \<and> resp_status resp = 200"
proof -
  have "isabs ''/etc''" "isdir (web_host (sample_web JNull)) ''/etc''"
    by (simp_all add: isabs_def slash_def sample_web_def sample_host_def)
  from absolute_fixture_escapes [OF sample_full_facts(4,1,2) this sample_full_facts(3), of 9 "[]" sample_host]
  show ?thesis by auto
qed

end
