(* ===== verification/System.thy ===== *)
theory System
  imports Routes Lifecycle Gateway WatchFacts ViewFacts
begin

text \<open>
  The control plane as a whole: one database under the HTTP API, the stream dispatcher and
  the restart gateway, and any interleaving of requests, stream messages, announcements,
  clean-ups and reconciliations. Each handler is one step here, which is what SQLite's
  single writer gives for its writes; what may happen between the check and the use of a
  registration token is stated at the end.
\<close>

section \<open>State and steps\<close>

record 'r sys =
  sy_cp :: "'r cp"
  sy_files :: "string \<rightharpoonup> bytes"
  sy_sent :: "xadd list"
  sy_deleted :: "string list"

definition ds_of :: "'r sys \<Rightarrow> ds" where
  "ds_of s = \<lparr>ds_db = cp_db (sy_cp s), ds_files = sy_files s, ds_sent = sy_sent s, ds_deleted = sy_deleted s\<rparr>"

definition put_ds :: "ds \<Rightarrow> 'r sys \<Rightarrow> 'r sys" where
  "put_ds t s = s\<lparr>sy_cp := (sy_cp s)\<lparr>cp_db := ds_db t\<rparr>, sy_files := ds_files t, sy_sent := ds_sent t,
                  sy_deleted := ds_deleted t\<rparr>"

definition sys_db :: "'r sys \<Rightarrow> db" where
  "sys_db s = cp_db (sy_cp s)"

inductive sys_step :: "'r web \<Rightarrow> config \<Rightarrow> 'r sys \<Rightarrow> 'r sys \<Rightarrow> bool" for w c where
  request: "\<forall>rest. resolve path \<noteq> Some (ADMIN rest) \<Longrightarrow> serve w i path req (sy_cp s) = (cp', out) \<Longrightarrow>
    sys_step w c s (s\<lparr>sy_cp := cp'\<rparr>)"
| message: "to_uuid eid = Inr u \<Longrightarrow> watch_message c eid keys k m (ds_of s, wt) = ((t, wt'), r) \<Longrightarrow>
    sys_step w c s (put_ds t s)"
| finished: "sys_step w c s (put_ds (cleanup_execution_streams eid keys (ds_of s)) s)"
| timed_out: "sys_step w c s (put_ds (give_up eid keys life (ds_of s)) s)"
| announce: "announcement text_of am (ds_of s, mn) = ((t, mn'), r) \<Longrightarrow> sys_step w c s (put_ds t s)"
| reconcile: "reconcile_acls (web_acl w) pw (sys_db s) (cp_acl (sy_cp s)) = (acl, res) \<Longrightarrow>
    sys_step w c s (s\<lparr>sy_cp := (sy_cp s)\<lparr>cp_acl := acl\<rparr>\<rparr>)"
| restarted: "lookup_active_delegate (sys_db s) did = Some del \<Longrightarrow>
    sys_step w c s (s\<lparr>sy_cp := (sy_cp s)\<lparr>cp_db := gw_audit ''DELEGATE_RESTART_SENT'' del (sys_db s)\<rparr>\<rparr>)"

inductive_cases sys_stepE: "sys_step w c s s'"

section \<open>What a step may do to the database\<close>

definition same_rows :: "(uuid \<rightharpoonup> execution) \<Rightarrow> (uuid \<rightharpoonup> execution) \<Rightarrow> bool" where
  "same_rows E E' \<longleftrightarrow> (\<forall>u row. E u = Some row \<longrightarrow> (\<exists>row'. E' u = Some row' \<and> same_identity row row'))"

lemma same_rows_refl [simp]: "same_rows E E"
  by (simp add: same_rows_def same_identity_def)

lemma same_rows_trans: "same_rows E E' \<Longrightarrow> same_rows E' E'' \<Longrightarrow> same_rows E E''"
  unfolding same_rows_def same_identity_def by metis

lemma same_rows_update: "(\<And>row. same_identity row (g row)) \<Longrightarrow> same_rows E (E(u := map_option g (E u)))"
  by (auto simp: same_rows_def same_identity_def)

text \<open>The dispatcher and the gateway leave tokens and delegates alone.\<close>

definition db_keeps :: "db \<Rightarrow> db \<Rightarrow> bool" where
  "db_keeps d d' \<longleftrightarrow>
     tokens d' = tokens d \<and> delegates d' = delegates d \<and> prefix (audits d) (audits d')
     \<and> same_rows (executions d) (executions d')"

lemma db_keeps_refl [simp]: "db_keeps d d"
  by (simp add: db_keeps_def)

lemma db_keeps_audit [simp]: "db_keeps d (audit a d)"
  by (simp add: db_keeps_def)

lemma db_keeps_trans: "db_keeps d d' \<Longrightarrow> db_keeps d' d'' \<Longrightarrow> db_keeps d d''"
  unfolding db_keeps_def using same_rows_trans prefix_order.trans by metis

lemma db_keeps_update: "(\<And>row. same_identity row (g row)) \<Longrightarrow> db_keeps d (update_execution u g d)"
  by (simp add: db_keeps_def executions_update_fun same_rows_update)

lemma db_keeps_update_audit:
  "(\<And>row. same_identity row (g row)) \<Longrightarrow> db_keeps d (audit a (update_execution u g d))"
  using db_keeps_trans [OF db_keeps_update db_keeps_audit] .

lemma data_request_keeps: "db_keeps (ds_db s) (ds_db (fst (handle_data_request h fx tid eid ekey f s)))"
  unfolding handle_data_request_def Let_def
  by (auto simp: same_identity_def intro!: db_keeps_update_audit
      split: option.splits sum.splits if_splits prod.splits)

lemma log_keeps: "db_keeps (ds_db s) (ds_db (fst (handle_log eid f n s)))"
  by (auto simp: handle_log_def db_keeps_def split: sum.splits)

lemma status_keeps: "db_keeps (ds_db s) (ds_db (fst (handle_status eid f s)))"
  unfolding handle_status_def Let_def
  by (auto simp: same_identity_def intro!: db_keeps_trans [OF db_keeps_audit db_keeps_update] split: option.splits sum.splits)

lemma output_keeps: "db_keeps (ds_db s) (ds_db (fst (handle_output_message media eid f st s)))"
proof -
  obtain s1 r where run: "handle_output_message media eid f st s = (s1, r)" by fastforce
  have fin: "db_keeps (ds_db s) (ds_db (fst (finish_output media eid x s)))" for x
    unfolding finish_output_def Let_def
    by (auto simp: same_identity_def intro!: db_keeps_update_audit split: sum.splits)
  show ?thesis
  proof (cases "xfer_closes st f")
    case True
    then obtain x where x: "st = Some x" by (cases st) (simp_all add: xfer_closes_def)
    with True have "fst (handle_output_message media eid f st s) = fst (finish_output media eid x s)"
      by (simp add: output_closing split: prod.splits sum.splits)
    with fin show ?thesis by simp
  qed (simp add: output_not_closing)
qed

lemma watch_message_keeps:
  assumes "watch_message c eid keys k m (s, w) = ((s1, w1), r)"
  shows "db_keeps (ds_db s) (ds_db s1)"
proof -
  obtain i f t where m: "m = (i, f, t)" by (cases m) auto
  have "db_keeps (ds_db s) (ds_db (fst (fst (watch_message c eid keys k m (s, w)))))"
    unfolding m watch_message_def Let_def
    using data_request_keeps [of s] log_keeps [of s] status_keeps [of s] output_keeps [of s]
    by (auto split: prod.splits sum.splits) (metis fst_conv)+
  with assms show ?thesis by simp
qed

lemma announcement_keeps:
  assumes "announcement text_of m (s, mn) = ((s1, mn1), r)"
  shows "db_keeps (ds_db s) (ds_db s1)"
  using assms by (cases m) (auto simp: announcement_def Let_def split: if_splits sum.splits option.splits)

section \<open>What a request may do to the database\<close>

text \<open>The three ways a request can change tokens and delegates, and the way in which it cannot.\<close>

definition db_audits :: "db \<Rightarrow> db \<Rightarrow> bool" where
  "db_audits d d' \<longleftrightarrow> prefix (audits d) (audits d') \<and> same_rows (executions d) (executions d')"

lemma db_audits_refl [simp]: "db_audits d d"
  by (simp add: db_audits_def)

lemma issue_cases:
  assumes "issue_registration_token w now token req s = (s', out)"
  obtains (same) "s' = s"
    | (issued) t where "tokens (cp_db s) token = None" "t_used_at t = None"
        "tokens (cp_db s') = (tokens (cp_db s))(token \<mapsto> t)" "delegates (cp_db s') = delegates (cp_db s)"
        "db_audits (cp_db s) (cp_db s')" "cp_acl s' = cp_acl s"
proof (cases "\<exists>body tenant. json_body w req = Inr body \<and> body \<noteq> JNull \<and> body_get body ''tenant_id'' JNull = Inr tenant
    \<and> truthy tenant \<and> tokens (cp_db s) token = None \<and> req_method req = ''POST''")
  case False
  then have "fst (issue_registration_token w now token req s) = s"
    by (auto simp: issue_registration_token_def require_http_method_def Let_def split: sum.splits)
  with assms same show thesis by simp
next
  case True
  then obtain body tenant where ok: "json_body w req = Inr body" "body \<noteq> JNull" "body_get body ''tenant_id'' JNull = Inr tenant"
    "truthy tenant" "tokens (cp_db s) token = None" "req_method req = ''POST''" by blast
  let ?t = "\<lparr>t_tenant_id = json_text (repr w) tenant, t_expires_at = now + REGISTRATION_TOKEN_TTL_SECONDS w, t_used_at = None\<rparr>"
  have "s' = fst (issue_registration_token w now token req s)" using assms by simp
  then show thesis
    by (intro issued [of ?t])
      (simp_all add: ok issue_registration_token_def require_http_method_def Let_def audit_def db_audits_def)
qed

lemma register_db:
  assumes "register_delegate w now rr req s = (s', out)"
  obtains (same) "tokens (cp_db s') = tokens (cp_db s)" "delegates (cp_db s') = delegates (cp_db s)"
    | (enrolled) tok t row where "tokens (cp_db s) tok = Some t" "t_used_at t = None" "d_tenant_id row = t_tenant_id t"
        "d_status row = STATUS_ACTIVE" "find_delegate (cp_db s) (rr_delegate_id rr) = None" "request_token w req = Inr tok"
        "tokens (cp_db s') = (tokens (cp_db s))(tok \<mapsto> t\<lparr>t_used_at := Some now\<rparr>)"
        "delegates (cp_db s') = AList.update (rr_delegate_id rr) row (delegates (cp_db s))"
  using assms
proof (cases rule: register_delegate_cases)
  case early
  with same show thesis by simp
next
  case (checked body tok tenant csr_json)
  from checked(4) show thesis
  proof (cases rule: register_checked_cases)
    case (refused resp)
    with same show thesis by (simp add: same_core_def)
  next
    case (raised e)
    with same show thesis by (simp add: same_core_def)
  next
    case (committed fs cert_pem serial na acl row)
    obtain t where t: "tokens (cp_db s) tok = Some t" "t_used_at t = None" "tenant = JStr (t_tenant_id t)"
      using token_problem_None [OF committed(1)] by blast
    note st = register_commit_state [OF committed(6) [symmetric], of t]
    show thesis
      using enrolled [of tok t row] t st delegate_row_Inr [OF committed(4)] committed(5) checked(2) by simp
  qed
qed

lemma register_audits:
  assumes "register_delegate w now rr req s = (s', out)"
  shows "db_audits (cp_db s) (cp_db s')"
proof -
  have rej: "db_audits (cp_db s) (cp_db (fst (rejected w tenant detail st msg s0)))" if "cp_db s0 = cp_db s"
    for tenant detail st msg s0
    using that by (simp add: rejected_def db_audits_def audit_def)
  have com: "db_audits (cp_db s) (cp_db (fst (register_commit w now u tok tenant row s0)))" if "cp_db s0 = cp_db s"
    for u tok tenant row s0
    using that by (simp add: register_commit_def Let_def db_audits_def audit_def put_delegate_def split: option.splits)
  have chk: "db_audits (cp_db s) (cp_db (fst (register_checked w now rr body tok tenant csr_json s)))" for body tok tenant csr_json
    using rej com by (simp add: register_checked_def Let_def split: option.splits prod.splits sum.splits)
  have "db_audits (cp_db s) (cp_db (fst (register_delegate w now rr req s)))"
    using chk by (simp add: register_delegate_def require_http_method_def split: sum.splits)
  with assms show ?thesis by simp
qed

lemma revoke_db:
  assumes "revoke_delegate w gateway req u s = (s', out)"
  obtains (same) "s' = s"
    | (revoked) row where "find_delegate (cp_db s) u = Some row" "tokens (cp_db s') = tokens (cp_db s)"
        "delegates (cp_db s') = AList.update u (row\<lparr>d_status := STATUS_REVOKED\<rparr>) (delegates (cp_db s))"
        "db_audits (cp_db s) (cp_db s')"
  using assms
  by (auto simp: revoke_delegate_def require_http_method_def Let_def audit_def db_audits_def put_delegate_def
      split: if_splits option.splits sum.splits prod.splits)

lemma create_db:
  assumes "create_execution w new_id broker req s = (s', out)"
  shows "tokens (cp_db s') = tokens (cp_db s)" and "delegates (cp_db s') = delegates (cp_db s)"
    and "db_audits (cp_db s) (cp_db s')" and "cp_acl s' = cp_acl s"
proof -
  have chk: "tokens (cp_db s1) = tokens (cp_db s) \<and> delegates (cp_db s1) = delegates (cp_db s)
      \<and> db_audits (cp_db s) (cp_db s1) \<and> cp_acl s1 = cp_acl s"
    if "create_checked w new_id broker body tenant u fixture s = (s1, out1)" for body tenant u fixture s1 out1
    using that
    by (auto simp: create_checked_def Let_def audit_def db_audits_def put_execution_def same_rows_def same_identity_def
        split: if_splits option.splits sum.splits prod.splits)
  have "tokens (cp_db s') = tokens (cp_db s) \<and> delegates (cp_db s') = delegates (cp_db s)
      \<and> db_audits (cp_db s) (cp_db s') \<and> cp_acl s' = cp_acl s"
    using assms by (cases rule: create_execution_cases) (auto dest: chk)
  then show "tokens (cp_db s') = tokens (cp_db s)" and "delegates (cp_db s') = delegates (cp_db s)"
    and "db_audits (cp_db s) (cp_db s')" and "cp_acl s' = cp_acl s" by simp_all
qed

lemma views_same:
  "fst (execution_status_view req e s) = s" "fst (list_audit_events req s) = s"
  by (simp_all add: execution_status_view_def list_audit_events_def require_http_method_def split: option.splits)

section \<open>Refinement\<close>

definition spec_of :: "db \<Rightarrow> spec" where
  "spec_of d =
     \<lparr>sp_tokens = (\<lambda>k. map_option (\<lambda>t. if t_used_at t = None then UNUSED (t_tenant_id t) else USED (t_tenant_id t)) (tokens d k)),
      sp_delegates = (\<lambda>u. map_option (\<lambda>row. (d_tenant_id row, d_status row = STATUS_ACTIVE)) (find_delegate d u))\<rparr>"

lemma spec_of_same: "tokens d' = tokens d \<Longrightarrow> delegates d' = delegates d \<Longrightarrow> spec_of d' = spec_of d"
  by (simp add: spec_of_def find_delegate_def)

lemma find_update: "delegates d' = AList.update u row (delegates d) \<Longrightarrow> find_delegate d' = (find_delegate d)(u \<mapsto> row)"
  by (simp add: find_delegate_def update_conv' fun_eq_iff)

lemma spec_issue:
  assumes "tokens d k = None" and "t_used_at t = None"
    and "tokens d' = (tokens d)(k \<mapsto> t)" and "delegates d' = delegates d"
  shows "spec_step (spec_of d) (spec_of d')"
proof -
  have "spec_of d' = (spec_of d)\<lparr>sp_tokens := (sp_tokens (spec_of d))(k \<mapsto> UNUSED (t_tenant_id t))\<rparr>"
    using assms by (auto simp: spec_of_def find_delegate_def fun_eq_iff)
  moreover have "sp_tokens (spec_of d) k = None" using assms(1) by (simp add: spec_of_def)
  ultimately show ?thesis using spec_step.issue by metis
qed

lemma spec_enrol:
  assumes "tokens d k = Some t" and "t_used_at t = None" and "d_tenant_id row = t_tenant_id t" and "d_status row = STATUS_ACTIVE"
    and "find_delegate d u = None" and "tokens d' = (tokens d)(k \<mapsto> t\<lparr>t_used_at := Some now\<rparr>)"
    and "delegates d' = AList.update u row (delegates d)"
  shows "spec_step (spec_of d) (spec_of d')"
proof -
  have "spec_of d' = (spec_of d)\<lparr>sp_tokens := (sp_tokens (spec_of d))(k \<mapsto> USED (t_tenant_id t)),
      sp_delegates := (sp_delegates (spec_of d))(u \<mapsto> (t_tenant_id t, True))\<rparr>"
    using assms by (auto simp: spec_of_def find_update [OF assms(7)] fun_eq_iff)
  moreover have "sp_tokens (spec_of d) k = Some (UNUSED (t_tenant_id t))" "sp_delegates (spec_of d) u = None"
    using assms by (simp_all add: spec_of_def)
  ultimately show ?thesis using spec_step.enrol by metis
qed

lemma spec_revoke:
  assumes "find_delegate d u = Some row" and "tokens d' = tokens d"
    and "delegates d' = AList.update u (row\<lparr>d_status := STATUS_REVOKED\<rparr>) (delegates d)"
  shows "spec_step (spec_of d) (spec_of d')"
proof -
  have "spec_of d' = (spec_of d)\<lparr>sp_delegates := (sp_delegates (spec_of d))(u \<mapsto> (d_tenant_id row, False))\<rparr>"
    using assms by (auto simp: spec_of_def find_update [OF assms(3)] fun_eq_iff)
  moreover have "sp_delegates (spec_of d) u = Some (d_tenant_id row, d_status row = STATUS_ACTIVE)"
    using assms by (simp add: spec_of_def)
  ultimately show ?thesis using spec_step.revoke by metis
qed

lemma serve_refines:
  assumes "\<forall>rest. resolve path \<noteq> Some (ADMIN rest)" and "serve w i path req s = (s', out)"
  shows "spec_step (spec_of (cp_db s)) (spec_of (cp_db s')) \<and> db_audits (cp_db s) (cp_db s')"
proof (cases "resolve path")
  case None
  with assms(2) show ?thesis by (auto intro: spec_step.stutter simp: serve_def)
next
  case (Some rt)
  show ?thesis
  proof (cases rt)
    case (ADMIN rest)
    with assms(1) Some show ?thesis by simp
  next
    case ISSUE_TOKEN
    with assms(2) Some have "issue_registration_token w (in_now i) (in_token i) req s = (s', out)"
      by (simp add: serve_def)
    then show ?thesis by (cases rule: issue_cases) (auto intro: spec_step.stutter spec_issue)
  next
    case REGISTER
    with assms(2) Some have run: "register_delegate w (in_now i) (in_random i) req s = (s', out)"
      by (simp add: serve_def)
    then have "spec_step (spec_of (cp_db s)) (spec_of (cp_db s'))"
    proof (cases rule: register_db)
      case same
      then show ?thesis using spec_of_same spec_step.stutter by metis
    next
      case (enrolled tok t row)
      then show ?thesis by (intro spec_enrol)
    qed
    with register_audits [OF run] show ?thesis by blast
  next
    case (REVOKE u)
    with assms(2) Some have "revoke_delegate w (in_gateway i) req u s = (s', out)"
      by (simp add: serve_def)
    then show ?thesis
      by (cases rule: revoke_db) (auto intro: spec_step.stutter spec_revoke)
  next
    case CREATE_EXECUTION
    with assms(2) Some have "create_execution w (in_execution_id i) (in_broker i) req s = (s', out)"
      by (simp add: serve_def)
    from create_db [OF this] show ?thesis using spec_of_same spec_step.stutter by metis
  next
    case (EXECUTION_STATUS e)
    with assms(2) Some views_same(1) [of req e s] have "s' = s" by (simp add: serve_def)
    then show ?thesis by (simp add: spec_step.stutter)
  next
    case AUDIT_EVENTS
    with assms(2) Some views_same(2) [of req s] have "s' = s" by (simp add: serve_def)
    then show ?thesis by (simp add: spec_step.stutter)
  qed
qed

lemma keeps_refines:
  assumes "db_keeps d d'"
  shows "spec_step (spec_of d) (spec_of d') \<and> db_audits d d'"
proof -
  have "spec_of d' = spec_of d"
    using assms by (intro spec_of_same) (simp_all add: db_keeps_def)
  with assms show ?thesis by (simp add: spec_step.stutter db_keeps_def db_audits_def)
qed

lemma ds_of_db [simp]: "ds_db (ds_of s) = sys_db s"
  by (simp add: ds_of_def sys_db_def)

lemma put_ds_db [simp]: "sys_db (put_ds t s) = ds_db t"
  by (simp add: put_ds_def sys_db_def)

lemma cleanup_keeps: "db_keeps (ds_db s) (ds_db (cleanup_execution_streams eid keys s))"
  by (simp add: cleanup_execution_streams_def)

lemma give_up_keeps: "db_keeps (ds_db s) (ds_db (give_up eid keys life s))"
  unfolding give_up_def by (rule db_keeps_trans [OF _ cleanup_keeps]) simp

lemma sys_step_db:
  assumes "sys_step w c s s'"
  shows "spec_step (spec_of (sys_db s)) (spec_of (sys_db s')) \<and> db_audits (sys_db s) (sys_db s')"
  using assms
proof cases
  case (request path i req cp' out)
  from serve_refines [OF request(2,3)] show ?thesis by (simp add: request(1) sys_db_def)
next
  case (message eid u keys k m wt t wt' r)
  from keeps_refines [OF watch_message_keeps [OF message(3)]] show ?thesis by (simp add: message(1))
next
  case (finished eid keys)
  from keeps_refines [OF cleanup_keeps [of "ds_of s"]] show ?thesis by (simp add: finished)
next
  case (timed_out eid keys life)
  from keeps_refines [OF give_up_keeps [of "ds_of s"]] show ?thesis by (simp add: timed_out)
next
  case (announce text_of am mn t mn' r)
  from keeps_refines [OF announcement_keeps [OF announce(2)]] show ?thesis by (simp add: announce(1))
next
  case (reconcile pw acl res)
  then show ?thesis by (simp add: sys_db_def spec_step.stutter)
next
  case (restarted did del)
  have "db_keeps (sys_db s) (gw_audit ''DELEGATE_RESTART_SENT'' del (sys_db s))"
    by (cases del) (simp add: gw_audit_def)
  from keeps_refines [OF this] show ?thesis by (simp add: restarted(1)) (simp add: sys_db_def)
qed

text \<open>The control plane behaves like the abstract machine.\<close>

interpretation cps: registry "sys_step w c" "\<lambda>s. spec_of (sys_db s)" for w c
  by unfold_locales (use sys_step_db in blast)

section \<open>Consequences\<close>



lemma revoked_row:
  "sp_delegates (spec_of d) u = Some (t, False) \<longleftrightarrow>
     (\<exists>row. find_delegate d u = Some row \<and> d_tenant_id row = t \<and> d_status row = STATUS_REVOKED)"
proof -
  have "d_status row \<noteq> STATUS_ACTIVE \<longleftrightarrow> d_status row = STATUS_REVOKED" for row :: delegate
    by (cases "d_status row") auto
  then show ?thesis by (auto simp: spec_of_def)
qed


text \<open>The audit log only grows and executions keep their identity: whatever happens, earlier
  events stay, in order, and no execution ever disappears or changes its tenant, its
  delegate or its workspace.\<close>

theorem audit_append_only:
  assumes "rtranclp (sys_step w c) s s'"
  shows "prefix (audits (sys_db s)) (audits (sys_db s')) \<and> same_rows (executions (sys_db s)) (executions (sys_db s'))"
  using assms
proof (induction rule: rtranclp_induct)
  case base
  then show ?case by simp
next
  case (step y z)
  then have "db_audits (sys_db y) (sys_db z)" using sys_step_db by blast
  with step.IH show ?case
    unfolding db_audits_def using same_rows_trans prefix_order.trans by metis
qed

section \<open>Stored outputs, over whole runs\<close>

lemma serve_executions:
  assumes "\<forall>rest. resolve path \<noteq> Some (ADMIN rest)" and "serve w i path req s = (s', out)" and "clients_wf (cp_clients s)"
  obtains (same) "executions (cp_db s') = executions (cp_db s)" "clients_wf (cp_clients s')"
    | (created) e row u p where "executions (cp_db s) e = None"
        "executions (cp_db s') = (executions (cp_db s))(e \<mapsto> queued row u p)" "clients_wf (cp_clients s')"
proof -
  have issue: "executions (cp_db s') = executions (cp_db s) \<and> cp_clients s' = cp_clients s"
    if "issue_registration_token w now token req s = (s', out)" for now token
  proof -
    have "executions (cp_db (fst (issue_registration_token w now token req s))) = executions (cp_db s)
        \<and> cp_clients (fst (issue_registration_token w now token req s)) = cp_clients s"
      by (simp add: issue_registration_token_def require_http_method_def Let_def split: sum.splits)
    with that show ?thesis by simp
  qed
  have register: "executions (cp_db s') = executions (cp_db s) \<and> cp_clients s' = cp_clients s"
    if "register_delegate w now rr req s = (s', out)" for now rr
    using that
  proof (cases rule: register_delegate_cases)
    case early
    then show ?thesis by simp
  next
    case (checked body tok tenant csr_json)
    from checked(4) show ?thesis
    proof (cases rule: register_checked_cases)
      case (committed fs cert_pem serial na acl row)
      obtain t where "tokens (cp_db s) tok = Some t"
        using token_problem_None [OF committed(1)] by blast
      with register_commit_state [OF committed(6) [symmetric], of t] show ?thesis by simp
    qed (simp_all add: same_core_def)
  qed
  have revoke: "executions (cp_db s') = executions (cp_db s) \<and> cp_clients s' = cp_clients s"
    if "revoke_delegate w gateway req u s = (s', out)" for gateway u
  proof -
    have "executions (cp_db (fst (revoke_delegate w gateway req u s))) = executions (cp_db s)
        \<and> cp_clients (fst (revoke_delegate w gateway req u s)) = cp_clients s"
      by (simp add: revoke_delegate_def require_http_method_def Let_def split: option.splits sum.splits prod.splits)
    with that show ?thesis by simp
  qed
  have view: "s' = s" if "execution_status_view req e s = (s', out)" for e
    using views_same(1) [of req e s] that by simp
  have list: "s' = s" if "list_audit_events req s = (s', out)"
    using views_same(2) [of req s] that by simp
  have "(\<exists>n b. create_execution w n b req s = (s', out))
      \<or> (executions (cp_db s') = executions (cp_db s) \<and> cp_clients s' = cp_clients s)"
    using assms(1,2) unfolding serve_def
    by (auto split: option.splits route.splits dest: issue register revoke view list)
  then show thesis
  proof
    assume "executions (cp_db s') = executions (cp_db s) \<and> cp_clients s' = cp_clients s"
    with same assms(3) show thesis by simp
  next
    assume "\<exists>n b. create_execution w n b req s = (s', out)"
    then obtain n b where "create_execution w n b req s = (s', out)" by blast
    then show thesis
    proof (cases rule: create_execution_cases)
      case early
      with same assms(3) show thesis by simp
    next
      case (checked body tenant u fixture)
      from assms(3) checked show thesis
      proof (cases rule: create_checked_cases)
        case unchanged
        with same assms(3) show thesis by simp
      next
        case (created row p task)
        with that(2) show thesis by blast
      qed
    qed
  qed
qed

definition sys_ok :: "config \<Rightarrow> 'r sys \<Rightarrow> bool" where
  "sys_ok c s \<longleftrightarrow>
     outputs_ok (cfg_media c) (executions (sys_db s)) (sy_files s) \<and> clients_wf (cp_clients (sy_cp s))"

lemma outputs_ok_queued:
  assumes "outputs_ok media E files" and "E e = None"
  shows "outputs_ok media (E(e \<mapsto> queued row u p)) files"
  using assms by (auto simp: outputs_ok_def queued_def)

lemma put_ds_parts [simp]:
  "sy_files (put_ds t s) = ds_files t" "cp_clients (sy_cp (put_ds t s)) = cp_clients (sy_cp s)"
  "ds_files (ds_of s) = sy_files s"
  by (simp_all add: put_ds_def ds_of_def)

lemma sys_step_ok:
  assumes "sys_step w c s s'" and "sys_ok c s"
  shows "sys_ok c s'"
  using assms(1)
proof cases
  case (request path i req cp' out)
  from assms(2) have wf: "clients_wf (cp_clients (sy_cp s))" by (simp add: sys_ok_def)
  from request(2,3) wf show ?thesis
  proof (cases rule: serve_executions)
    case same
    with assms(2) show ?thesis by (simp add: request(1) sys_ok_def sys_db_def)
  next
    case (created e row u p)
    with assms(2) outputs_ok_queued show ?thesis by (simp add: request(1) sys_ok_def sys_db_def)
  qed
next
  case (message eid u keys k m wt t wt' r)
  from watch_message_outputs_ok [OF message(3,2)] assms(2) show ?thesis
    by (simp add: message(1) sys_ok_def)
next
  case (finished eid keys)
  with assms(2) show ?thesis by (simp add: sys_ok_def)
next
  case (timed_out eid keys life)
  with assms(2) show ?thesis by (simp add: sys_ok_def)
next
  case (announce text_of am mn t mn' r)
  have "executions (ds_db t) = executions (sys_db s) \<and> ds_files t = sy_files s"
    using announce(2) by (cases am) (auto simp: announcement_def Let_def split: if_splits sum.splits option.splits)
  with assms(2) show ?thesis by (simp add: announce(1) sys_ok_def)
next
  case (reconcile pw acl res)
  with assms(2) show ?thesis by (simp add: sys_ok_def sys_db_def)
next
  case (restarted did del)
  with assms(2) show ?thesis by (cases del) (simp add: sys_ok_def sys_db_def gw_audit_def)
qed

interpretation outputs_inv: invariant_of "sys_step w c" "sys_ok c" for w c
  by unfold_locales (rule sys_step_ok)

lemma stored_when_succeeded:
  assumes "executions (sys_db s) = Map.empty" and "cp_clients (sy_cp s) = Map.empty"
    and "rtranclp (sys_step w c) s s'"
    and "executions (sys_db s') u = Some row" and "e_status row = STATUS_SUCCEEDED"
  shows "\<exists>eid data. to_uuid eid = Inr u \<and> e_output_path row = out_path (cfg_media c) eid
    \<and> sy_files s' (out_path (cfg_media c) eid) = Some data \<and> e_output_checksum row = sha256_bytes data"
proof -
  have "sys_ok c s" using assms(1,2) by (simp add: sys_ok_def outputs_ok_def clients_wf_def)
  with assms(3) have "sys_ok c s'" by (rule outputs_inv.run_keeps_inv)
  with assms(4,5) show ?thesis by (simp add: sys_ok_def outputs_ok_def stored_def)
qed

text \<open>C18: SUCCEEDED means stored. In every state reached from one with no executions, an execution
  that the API reports as SUCCEEDED has its output on disk, at the path of its row, and the
  bytes there have the checksum of its row.\<close>

theorem succeeded_is_stored:
  assumes "executions (sys_db s) = Map.empty" and "cp_clients (sy_cp s) = Map.empty"
    and "rtranclp (sys_step w c) s s'"
    and "executions (sys_db s') u = Some row" and "e_status row = STATUS_SUCCEEDED"
  shows "\<exists>eid data. to_uuid eid = Inr u \<and> e_output_path row = out_path (cfg_media c) eid
    \<and> sy_files s' (out_path (cfg_media c) eid) = Some data \<and> e_output_checksum row = sha256_bytes data"
  using assms by (rule stored_when_succeeded)

section \<open>Between the check and the use of a token\<close>

text \<open>Two registrations with one token, the second one's check made before the first one's use: neither
  the code nor the database stops the second. Both answer 200 and both delegates are active,
  although the check, made again, would refuse.\<close>

theorem token_race:
  assumes "token_problem (cp_db s) now tok tenant = None" and "u1 \<noteq> u2"
    and "register_commit w now u1 tok t row1 s = (s1, Inr resp1)" and "register_commit w now2 u2 tok t row2 s1 = (s2, Inr resp2)"
  shows "resp_status resp1 = 200 \<and> resp_status resp2 = 200 \<and> token_problem (cp_db s1) now2 tok tenant \<noteq> None
    \<and> find_delegate (cp_db s2) u1 = Some row1 \<and> find_delegate (cp_db s2) u2 = Some row2"
proof -
  obtain tk where tk: "tokens (cp_db s) tok = Some tk" using token_problem_None [OF assms(1)] by blast
  note one = register_commit_state [OF assms(3) tk]
  then have used: "tokens (cp_db s1) tok = Some (tk\<lparr>t_used_at := Some now\<rparr>)" by simp
  note two = register_commit_state [OF assms(4) used]
  from used have "token_problem (cp_db s1) now2 tok tenant \<noteq> None" by (simp add: token_problem_def)
  with one two assms(2) show ?thesis by (auto simp: find_delegate_def update_conv')
qed

end
