(* ===== verification/Worker.thy ===== *)
theory Worker
  imports Receiver Streams "HOL-Library.List_Lexorder" "HOL-Library.Char_ord"
begin

text \<open>
  \<open>worker/worker_app/tasks.py\<close> and \<open>executor.py\<close>: the signal handler that announces an
  execution and fetches its workspace, and the task that runs on it. The state is what has
  been added to streams, the prepared workspaces by task id, and what happened to
  directories. Every XADD may fail: \<open>redis_up n\<close> says whether the \<open>n\<close>-th one works. The file
  system and the ZIP codec are the record \<open>host\<close>; task arguments are taken to be text.
\<close>

section \<open>State and environment\<close>

record wk =
  wk_tries :: nat
  wk_sent :: "xadd list"
  wk_prepared :: "string \<rightharpoonup> string"
  wk_extracted :: "(string \<times> (string \<times> bytes) list) list"
  wk_removed :: "string list"

text \<open>
  One attempt to receive: the clock at its start, the polls, and the exception XREAD raises
  after them, if any; with none, a receiver that has used up its polls is still waiting.
  \<open>identity\<close> is the outcome of reading \<open>identity.json\<close>, \<open>list_text\<close> prints a list of
  names, and \<open>mirror\<close> is the outcome of the debugging copy.
\<close>

record attempt_env =
  ae_now :: int
  ae_polls :: "poll list"
  ae_error :: "exn option"

record wenv =
  redis_up :: "nat \<Rightarrow> bool"
  w_host :: host
  identity :: "fields result"
  wait_timeout :: int
  TRANSFER_MAX_RETRIES :: nat
  TEMP_WORKSPACE_DIR :: string
  attempt_of :: "nat \<Rightarrow> attempt_env"
  listdir :: "string \<Rightarrow> string list result"
  list_text :: "string list \<Rightarrow> string"
  mirror :: "unit result"

section \<open>Publishing\<close>

definition xadd_entry :: "wenv \<Rightarrow> string \<Rightarrow> fields \<Rightarrow> wk \<Rightarrow> wk \<times> unit result" where
  "xadd_entry w key f s =
     (let s1 = s\<lparr>wk_tries := wk_tries s + 1\<rparr> in
      if redis_up w (wk_tries s) then (s1\<lparr>wk_sent := wk_sent s @ [(key, f)]\<rparr>, Inr ())
      else (s1, Inl ConnectionError))"

text \<open>Sequencing: the state goes on, an exception skips the rest.\<close>

definition wbind :: "wk \<times> 'a result \<Rightarrow> ('a \<Rightarrow> wk \<Rightarrow> wk \<times> 'b result) \<Rightarrow> wk \<times> 'b result" where
  "wbind m k = (case m of (s, Inl e) \<Rightarrow> (s, Inl e) | (s, Inr v) \<Rightarrow> k v s)"

definition publish_log :: "wenv \<Rightarrow> string \<Rightarrow> fields \<Rightarrow> string \<Rightarrow> wk \<Rightarrow> wk \<times> unit result" where
  "publish_log w lkey base msg = xadd_entry w lkey (base(''type'' \<mapsto> ''LOG'', ''message'' \<mapsto> msg))"

definition publish_status :: "wenv \<Rightarrow> string \<Rightarrow> fields \<Rightarrow> string \<Rightarrow> wk \<Rightarrow> wk \<times> unit result" where
  "publish_status w skey base st =
     xadd_entry w skey (base(''type'' \<mapsto> ''STATUS'', ''status'' \<mapsto> st))"

fun xadd_all :: "wenv \<Rightarrow> string \<Rightarrow> fields list \<Rightarrow> wk \<Rightarrow> wk \<times> unit result" where
  "xadd_all w key [] s = (s, Inr ())"
| "xadd_all w key (f # fs) s = wbind (xadd_entry w key f s) (\<lambda>_ s1. xadd_all w key fs s1)"

section \<open>Receiving the workspace\<close>

definition request_msg :: "fields \<Rightarrow> string \<Rightarrow> fields" where
  "request_msg base requested_file = base(''type'' \<mapsto> ''DATA_REQUEST'', ''requested_file'' \<mapsto> requested_file)"

text \<open>\<open>exc.last_id or last_id\<close>.\<close>

definition resume_from :: "string option \<Rightarrow> string \<Rightarrow> string" where
  "resume_from lid last_id = (case lid of None \<Rightarrow> last_id | Some l \<Rightarrow> if l = [] then last_id else l)"

text \<open>The outcome of one call of \<open>receive_once\<close>, \<open>None\<close> while it is waiting.\<close>

definition attempt :: "wenv \<Rightarrow> nat \<Rightarrow> string \<Rightarrow> (bytes \<times> string \<times> string option) result option" where
  "attempt w n last_id =
     (let a = attempt_of w n in
      case receive_once (wait_timeout w) (ae_now a) last_id (ae_polls a) of
        Continue r \<Rightarrow> (case ae_error a of None \<Rightarrow> None | Some e \<Rightarrow> Some (Inl e))
      | Return data lid tid \<Rightarrow> Some (Inr (data, lid, tid))
      | Raise e \<Rightarrow> Some (Inl e))"

text \<open>
  The \<open>for\<close> loop of \<open>_receive_workspace\<close> at attempt \<open>n\<close>, with \<open>left\<close> attempts to go, this
  one included. \<open>None\<close>: the worker is still waiting in \<open>receive_once\<close>.
\<close>

definition received :: "wenv \<Rightarrow> string \<Rightarrow> (string \<Rightarrow> wk \<Rightarrow> wk \<times> unit result) \<Rightarrow> bytes \<Rightarrow> string option
    \<Rightarrow> wk \<Rightarrow> wk \<times> bool result" where
  "received w dir log_fn data tid s =
     (case extract_zip_bytes (w_host w) data of
        Inl e \<Rightarrow> (s, Inl e)
      | Inr entries \<Rightarrow>
          wbind (log_fn (''workspace transfer '' @ (case tid of None \<Rightarrow> ''None'' | Some t \<Rightarrow> t)
                    @ '' validated and extracted ('' @ str_nat (length data) @ '' bytes)'')
                   (s\<lparr>wk_extracted := wk_extracted s @ [(dir, entries)]\<rparr>))
            (\<lambda>_ s1. (s1, Inr True)))"

definition request_data ::
    "wenv \<Rightarrow> string \<Rightarrow> fields \<Rightarrow> (string \<Rightarrow> wk \<Rightarrow> wk \<times> unit result) \<Rightarrow> string \<Rightarrow> nat \<Rightarrow> wk
       \<Rightarrow> wk \<times> unit result" where
  "request_data w ekey base log_fn requested_file n s =
     wbind (xadd_entry w ekey (request_msg base requested_file) s)
       (\<lambda>_ s1. log_fn (''DATA_REQUEST sent (attempt '' @ str_nat n @ ''/''
                        @ str_nat (TRANSFER_MAX_RETRIES w) @ '')'') s1)"

definition retry_text :: "nat \<Rightarrow> string \<Rightarrow> string" where
  "retry_text n msg = ''transfer attempt '' @ str_nat n @ '' failed: '' @ msg @ ''; retrying from scratch''"

fun receive_attempts ::
    "wenv \<Rightarrow> string \<Rightarrow> fields \<Rightarrow> string \<Rightarrow> (string \<Rightarrow> wk \<Rightarrow> wk \<times> unit result) \<Rightarrow> string
       \<Rightarrow> nat \<Rightarrow> nat \<Rightarrow> string \<Rightarrow> wk \<Rightarrow> (wk \<times> bool result) option" where
  "receive_attempts w ekey base dir log_fn requested_file n 0 last_id s = Some (s, Inr False)"
| "receive_attempts w ekey base dir log_fn requested_file n (Suc left) last_id s =
     (case request_data w ekey base log_fn requested_file n s of
        (s2, Inl e) \<Rightarrow> Some (s2, Inl e)
      | (s2, Inr _) \<Rightarrow>
          (case attempt w n last_id of
             None \<Rightarrow> None
           | Some (Inr (data, lid, tid)) \<Rightarrow> Some (received w dir log_fn data tid s2)
           | Some (Inl (TransferFailed msg lid)) \<Rightarrow>
               (case log_fn (retry_text n msg) s2 of
                  (s3, Inl e) \<Rightarrow> Some (s3, Inl e)
                | (s3, Inr _) \<Rightarrow>
                    receive_attempts w ekey base dir log_fn requested_file (n + 1) left (resume_from lid last_id) s3)
           | Some (Inl e) \<Rightarrow> Some (s2, Inl e)))"

definition receive_workspace ::
    "wenv \<Rightarrow> string \<Rightarrow> fields \<Rightarrow> string \<Rightarrow> (string \<Rightarrow> wk \<Rightarrow> wk \<times> unit result) \<Rightarrow> string
       \<Rightarrow> wk \<Rightarrow> (wk \<times> bool result) option" where
  "receive_workspace w ekey base dir log_fn requested_file s =
     receive_attempts w ekey base dir log_fn requested_file 1 (TRANSFER_MAX_RETRIES w) ''0'' s"

text \<open>The debugging copy: only \<open>OSError\<close> is caught.\<close>

definition mirror_to_temp_workspace ::
    "wenv \<Rightarrow> string \<Rightarrow> (string \<Rightarrow> wk \<Rightarrow> wk \<times> unit result) \<Rightarrow> wk \<Rightarrow> wk \<times> unit result" where
  "mirror_to_temp_workspace w execution_id log_fn s =
     (let dest = py_join (TEMP_WORKSPACE_DIR w) execution_id;
          copied = wbind (s, mirror w) (\<lambda>_ s1. log_fn (''mirrored workspace to '' @ abspath (cwd (w_host w)) dest
                     @ '' for inspection (not cleaned up automatically)'') s1)
      in case copied of
           (s1, Inl (OSError m)) \<Rightarrow> log_fn (''could not mirror workspace to '' @ dest @ '': '' @ m) s1
         | (s1, r) \<Rightarrow> (s1, r))"

section \<open>The signal handler\<close>

definition base_fields :: "string \<Rightarrow> string \<Rightarrow> string \<Rightarrow> fields" where
  "base_fields execution_id tenant_id delegate_id =
     [''execution_id'' \<mapsto> execution_id, ''tenant_id'' \<mapsto> tenant_id, ''delegate_id'' \<mapsto> delegate_id]"

definition announce_msg :: "string \<Rightarrow> stream_names \<Rightarrow> fields" where
  "announce_msg execution_id keys =
     [''type'' \<mapsto> ''EXECUTION_STARTED'', ''execution_id'' \<mapsto> execution_id,
      ''events_stream'' \<mapsto> events_key keys, ''log_stream'' \<mapsto> log_key keys,
      ''status_stream'' \<mapsto> status_key keys, ''output_stream'' \<mapsto> output_key keys]"

text \<open>The part from the announcement on; \<open>dir\<close> is the new temporary directory.\<close>

definition prepare_with ::
    "wenv \<Rightarrow> string \<Rightarrow> string \<Rightarrow> string \<Rightarrow> string \<Rightarrow> string \<Rightarrow> string \<Rightarrow> wk \<Rightarrow> (wk \<times> unit result) option" where
  "prepare_with w task_id dir execution_id requested_file delegate_id tenant_id s =
     (let keys = stream_keys execution_id delegate_id;
          base = base_fields execution_id tenant_id delegate_id;
          log_fn = publish_log w (log_key keys) base
      in case wbind (xadd_entry w GLOBAL_EXECUTION_EVENTS_STREAM (announce_msg execution_id keys) s)
                (\<lambda>_. publish_status w (status_key keys) base ''TRANSFERRING_INPUT'') of
           (s1, Inl e) \<Rightarrow> Some (s1, Inl e)
         | (s1, Inr _) \<Rightarrow>
             (case receive_workspace w (events_key keys) base dir log_fn requested_file s1 of
                None \<Rightarrow> None
              | Some (s2, Inl e) \<Rightarrow> Some (s2, Inl e)
              | Some (s2, Inr False) \<Rightarrow>
                  Some (wbind (publish_status w (status_key keys) base ''TRANSFER_FAILED'' s2) (\<lambda>_ s3.
                        wbind (log_fn ''workspace transfer failed after max retries; giving up'' s3) (\<lambda>_ s4.
                          (s4\<lparr>wk_removed := wk_removed s4 @ [dir]\<rparr>, Inr ()))))
              | Some (s2, Inr True) \<Rightarrow>
                  Some (mirror_to_temp_workspace w execution_id log_fn
                          (s2\<lparr>wk_prepared := (wk_prepared s2)(task_id \<mapsto> dir)\<rparr>))))"

definition prepare_execution ::
    "wenv \<Rightarrow> string \<Rightarrow> string \<Rightarrow> string list \<Rightarrow> fields \<Rightarrow> wk \<Rightarrow> (wk \<times> unit result) option" where
  "prepare_execution w task_id dir args kwargs s =
     (let execution_id = (case args of a # _ \<Rightarrow> a | [] \<Rightarrow> field_or kwargs ''execution_id'' []) in
      if execution_id = [] then Some (s, Inr ())
      else
        let requested_file = (case args of _ # b # _ \<Rightarrow> b | _ \<Rightarrow> field_or kwargs ''file_name'' ''*'') in
        case ebind (identity w) (\<lambda>idn. ebind (field_req idn ''delegate_id'') (\<lambda>d.
               ebind (field_req idn ''tenant_id'') (\<lambda>t. Inr (d, t)))) of
          Inl e \<Rightarrow> Some (s, Inl e)
        | Inr (delegate_id, tenant_id) \<Rightarrow>
            prepare_with w task_id dir execution_id requested_file delegate_id tenant_id s)"

section \<open>The task\<close>

text \<open>The host after one file has been written into a new, empty directory.\<close>

definition with_file :: "host \<Rightarrow> string \<Rightarrow> string \<Rightarrow> bytes \<Rightarrow> host" where
  "with_file h dir name data =
     h\<lparr>read_file := (read_file h)(py_join dir name := Inr data),
       walk := (walk h)(dir := [(dir, [name])])\<rparr>"

definition text_bytes :: "string \<Rightarrow> bytes" where
  "text_bytes s = map of_char s"

text \<open>\<open>run_stub_task\<close> yields the content of \<open>result.txt\<close>, its line ends as character 10.\<close>

definition result_text :: "wenv \<Rightarrow> string list \<Rightarrow> string" where
  "result_text w entries =
     ''Delegate POC stub execution completed successfully.'' @ [CHR 0x0A] @
     ''Processed '' @ str_nat (length entries) @ '' workspace entries: '' @ list_text w entries @ [CHR 0x0A]"

definition run_stub_task ::
    "wenv \<Rightarrow> string \<Rightarrow> (string \<Rightarrow> wk \<Rightarrow> wk \<times> unit result) \<Rightarrow> wk \<Rightarrow> wk \<times> bytes result" where
  "run_stub_task w workspace_dir log_fn s =
     (case listdir w workspace_dir of
        Inl e \<Rightarrow> (s, Inl e)
      | Inr names \<Rightarrow>
          (let entries = sort names in
           wbind (log_fn (''workspace contains '' @ str_nat (length entries) @ '' entries: '' @ list_text w entries) s)
             (\<lambda>_ s1. wbind (log_fn ''step 1/3 running...'' s1)
             (\<lambda>_ s2. wbind (log_fn ''step 2/3 running...'' s2)
             (\<lambda>_ s3. wbind (log_fn ''step 3/3 running...'' s3)
             (\<lambda>_ s4. wbind (log_fn ''execution complete'' s4)
             (\<lambda>_ s5. (s5, Inr (text_bytes (result_text w entries))))))))))"

definition send_output ::
    "wenv \<Rightarrow> string \<Rightarrow> string \<Rightarrow> fields \<Rightarrow> string \<Rightarrow> bytes \<Rightarrow> (string \<Rightarrow> wk \<Rightarrow> wk \<times> unit result)
       \<Rightarrow> wk \<Rightarrow> wk \<times> unit result" where
  "send_output w new_tid okey base output_dir content log_fn s =
     (case zip_directory_to_bytes (with_file (w_host w) output_dir ''result.txt'' content) output_dir of
        Inl e \<Rightarrow> (s, Inl e)
      | Inr data \<Rightarrow>
          (case send_bytes CHUNK_SIZE new_tid data base of
             (ms, res) \<Rightarrow>
               wbind (xadd_all w okey ms s) (\<lambda>_ s1.
               wbind (s1, res) (\<lambda>(tid, ck, size) s2.
                 log_fn (''output transfer '' @ tid @ '' sent ('' @ str_nat size @ '' bytes)'') s2))))"

text \<open>The \<open>try\<close> block, and the whole body of the task.\<close>

definition task_try ::
    "wenv \<Rightarrow> string \<Rightarrow> string \<Rightarrow> string \<Rightarrow> stream_names \<Rightarrow> fields \<Rightarrow> wk \<Rightarrow> wk \<times> unit result" where
  "task_try w new_tid workspace_dir output_dir keys base s =
     (let log_fn = publish_log w (log_key keys) base in
      wbind (publish_status w (status_key keys) base ''EXECUTING'' s) (\<lambda>_ s1.
      wbind (run_stub_task w workspace_dir log_fn s1) (\<lambda>content s2.
      wbind (send_output w new_tid (output_key keys) base output_dir content log_fn s2) (\<lambda>_ s3.
        publish_status w (status_key keys) base ''TASK_SUCCEEDED'' s3))))"

definition execute_task ::
    "wenv \<Rightarrow> string \<Rightarrow> string \<Rightarrow> string \<Rightarrow> string \<Rightarrow> wk \<Rightarrow> wk \<times> unit result" where
  "execute_task w task_id new_tid output_dir execution_id s0 =
     (case wk_prepared s0 task_id of
        None \<Rightarrow> (s0, Inr ())
      | Some workspace_dir \<Rightarrow>
          (let s = s0\<lparr>wk_prepared := (wk_prepared s0)(task_id := None)\<rparr> in
           case ebind (identity w) (\<lambda>idn. ebind (field_req idn ''delegate_id'') (\<lambda>d.
                  ebind (field_req idn ''tenant_id'') (\<lambda>t. Inr (d, t)))) of
             Inl e \<Rightarrow> (s, Inl e)
           | Inr (delegate_id, tenant_id) \<Rightarrow>
               (let keys = stream_keys execution_id delegate_id;
                    base = base_fields execution_id tenant_id delegate_id;
                    (s1, r) = task_try w new_tid workspace_dir output_dir keys base s;
                    (s2, r2) =
                      (case r of
                         Inr _ \<Rightarrow> (s1, r)
                       | Inl e \<Rightarrow>
                           wbind (publish_log w (log_key keys) base (''task failed with exception: '' @ exn_text e) s1)
                             (\<lambda>_ s2. wbind (publish_status w (status_key keys) base ''TASK_FAILED'' s2)
                             (\<lambda>_ s3. (s3, Inl e))))
                in (s2\<lparr>wk_removed := wk_removed s2 @ [workspace_dir, output_dir]\<rparr>, r2))))"

end
