(* ===== verification/WorkerFacts.thy ===== *)
theory WorkerFacts
  imports Worker
begin

text \<open>
  Lemmas on what the worker publishes (\<open>pub\<close>: only entries with a property, no directory
  touched; \<open>wrote\<close>: only entries with a property), and what a task that had a workspace
  leaves behind on every path.
\<close>

section \<open>Publishing steps\<close>

text \<open>A stretch of the worker that only publishes: what it adds satisfies \<open>P\<close>, and no directory
  is prepared or removed.\<close>

definition pub :: "(xadd \<Rightarrow> bool) \<Rightarrow> wk \<Rightarrow> wk \<Rightarrow> bool" where
  "pub P s s' =
     ((\<exists>new. wk_sent s' = wk_sent s @ new \<and> (\<forall>x \<in> set new. P x))
      \<and> wk_prepared s' = wk_prepared s \<and> wk_removed s' = wk_removed s)"

lemma pub_refl [simp]: "pub P s s"
  by (simp add: pub_def)

lemma pub_trans: "pub P s s1 \<Longrightarrow> pub P s1 s2 \<Longrightarrow> pub P s s2"
  by (auto simp: pub_def)

lemma pub_mono: "pub P s s' \<Longrightarrow> (\<And>x. P x \<Longrightarrow> Q x) \<Longrightarrow> pub Q s s'"
  by (auto simp: pub_def)

lemma wbind_eq:
  "wbind m k = (s', r) \<longleftrightarrow>
     (\<exists>s1. (\<exists>e. m = (s1, Inl e) \<and> s' = s1 \<and> r = Inl e) \<or> (\<exists>v. m = (s1, Inr v) \<and> k v s1 = (s', r)))"
  by (cases m; cases "snd m") (auto simp: wbind_def)

lemma wbind_Inr: "wbind m k = (s', Inr r) \<longleftrightarrow> (\<exists>s1 v. m = (s1, Inr v) \<and> k v s1 = (s', Inr r))"
  by (auto simp: wbind_eq)

lemma pub_wbind:
  assumes "pub P s (fst m)" and "\<And>v s1. pub P s1 (fst (k v s1))"
  shows "pub P s (fst (wbind m k))"
  using assms by (cases m; cases "snd m") (auto simp: wbind_def intro: pub_trans)

lemma pub_xadd: "P (k, f) \<Longrightarrow> pub P s (fst (xadd_entry w k f s))"
  by (simp add: xadd_entry_def Let_def pub_def)

lemma pub_log: "P (k, base(''type'' \<mapsto> ''LOG'', ''message'' \<mapsto> m)) \<Longrightarrow> pub P s (fst (publish_log w k base m s))"
  by (simp add: publish_log_def pub_xadd)

lemma pub_status: "P (k, base(''type'' \<mapsto> ''STATUS'', ''status'' \<mapsto> st)) \<Longrightarrow>
    pub P s (fst (publish_status w k base st s))"
  by (simp add: publish_status_def pub_xadd)

lemma pub_xadd_all: "(\<And>f. f \<in> set fs \<Longrightarrow> P (k, f)) \<Longrightarrow> pub P s (fst (xadd_all w k fs s))"
proof (induction fs arbitrary: s)
  case Nil
  then show ?case by simp
next
  case (Cons f fs)
  then show ?case by (auto intro!: pub_wbind pub_xadd)
qed

lemma pub_run_stub:
  assumes "\<And>m s. pub P s (fst (log_fn m s))"
  shows "pub P s (fst (run_stub_task w dir log_fn s))"
  unfolding run_stub_task_def Let_def
  by (cases "listdir w dir") (simp_all add: assms pub_wbind)

lemma pub_send_output:
  assumes "\<And>m s. pub P s (fst (log_fn m s))" and "\<And>f. P (okey, f)"
  shows "pub P s (fst (send_output w new_tid okey base out content log_fn s))"
proof (cases "zip_directory_to_bytes (with_file (w_host w) out ''result.txt'' content) out")
  case (Inl e)
  then show ?thesis by (simp add: send_output_def)
next
  case (Inr z)
  obtain ms res where send: "send_bytes CHUNK_SIZE new_tid z base = (ms, res)" by fastforce
  have tail: "pub P s1 (fst (wbind (s1, res) (\<lambda>(tid, ck, size) s2.
      log_fn (''output transfer '' @ tid @ '' sent ('' @ str_nat size @ '' bytes)'') s2)))" for s1
    by (rule pub_wbind) (auto simp: assms(1) split: prod.splits)
  show ?thesis
    unfolding send_output_def Inr send sum.case prod.case
    by (intro pub_wbind pub_xadd_all assms(2) tail)
qed

lemma pub_task_try:
  assumes "\<And>f. P (log_key keys, f)" and "\<And>f. P (status_key keys, f)" and "\<And>f. P (output_key keys, f)"
  shows "pub P s (fst (task_try w new_tid dir out keys base s))"
  unfolding task_try_def Let_def
  by (intro pub_wbind pub_status pub_run_stub pub_send_output pub_log assms)

lemma received_pub:
  assumes "\<And>m s. pub P s (fst (log_fn m s))"
  shows "pub P s (fst (received w dir log_fn data tid s))"
proof (cases "extract_zip_bytes (w_host w) data")
  case (Inl e)
  then show ?thesis by (simp add: received_def)
next
  case (Inr es)
  have "pub P s (s\<lparr>wk_extracted := x\<rparr>)" for x by (simp add: pub_def)
  then have "pub P s (fst (log_fn m (s\<lparr>wk_extracted := x\<rparr>)))" for m x
    using assms pub_trans by blast
  then show ?thesis by (simp add: received_def Inr pub_wbind)
qed

text \<open>One turn of the retry loop, in all its ways out.\<close>

lemma receive_attempts_cases:
  assumes "receive_attempts w ekey base dir log_fn rf n (Suc left) last_id s = Some (s', r)"
  obtains (unsent) e where "request_data w ekey base log_fn rf n s = (s', Inl e)" "r = Inl e"
    | (got) s2 data lid tid where "request_data w ekey base log_fn rf n s = (s2, Inr ())"
        "attempt w n last_id = Some (Inr (data, lid, tid))" "received w dir log_fn data tid s2 = (s', r)"
    | (raised) e where "request_data w ekey base log_fn rf n s = (s', Inr ())" "r = Inl e"
    | (unlogged) s2 msg e where "request_data w ekey base log_fn rf n s = (s2, Inr ())"
        "log_fn (retry_text n msg) s2 = (s', Inl e)" "r = Inl e"
    | (again) s2 msg lid s3 where "request_data w ekey base log_fn rf n s = (s2, Inr ())"
        "attempt w n last_id = Some (Inl (TransferFailed msg lid))" "log_fn (retry_text n msg) s2 = (s3, Inr ())"
        "receive_attempts w ekey base dir log_fn rf (n + 1) left (resume_from lid last_id) s3 = Some (s', r)"
proof -
  obtain s2 r2 where req: "request_data w ekey base log_fn rf n s = (s2, r2)" by fastforce
  show thesis
  proof (cases r2)
    case (Inl e)
    with assms req unsent show thesis by simp
  next
    case (Inr u)
    note step = assms [simplified, unfolded req Inr, simplified] and sent = req [unfolded Inr, simplified]
    obtain res where res: "attempt w n last_id = Some res" using step by (cases "attempt w n last_id") auto
    consider (v) v where "res = Inr v" | (fail) msg lid where "res = Inl (TransferFailed msg lid)"
      | (other) e where "res = Inl e" "\<forall>msg lid. e \<noteq> TransferFailed msg lid"
      by (cases res) auto
    then show thesis
    proof cases
      case v
      with step res sent got show thesis by (cases v) auto
    next
      case fail
      with step res sent unlogged again show thesis
        by (cases "log_fn (retry_text n msg) s2"; cases "snd (log_fn (retry_text n msg) s2)") auto
    next
      case other
      with step res sent raised show thesis by (cases e) auto
    qed
  qed
qed

lemma receive_attempts_pub:
  assumes "\<And>m s. pub P s (fst (log_fn m s))" and "P (ekey, request_msg base rf)"
    and "receive_attempts w ekey base dir log_fn rf n left last_id s = Some (s', r)"
  shows "pub P s s'"
  using assms(3)
proof (induction left arbitrary: n last_id s)
  case 0
  then show ?case by simp
next
  case (Suc left)
  have "pub P s (fst (xadd_entry w ekey (request_msg base rf) s))"
    by (rule pub_xadd) (rule assms(2))
  then have req: "pub P s (fst (request_data w ekey base log_fn rf n s))"
    unfolding request_data_def by (rule pub_wbind) (rule assms(1))
  from Suc.prems show ?case
  proof (cases rule: receive_attempts_cases)
    case (got s2 data lid tid)
    have "pub P s2 (fst (received w dir log_fn data tid s2))" by (rule received_pub) (rule assms(1))
    with req got(1,3) pub_trans show ?thesis by fastforce
  next
    case (unlogged s2 msg e)
    with req assms(1) [of s2 "retry_text n msg"] pub_trans show ?thesis by fastforce
  next
    case (again s2 msg lid s3)
    have "pub P s s3" using req assms(1) [of s2 "retry_text n msg"] again(1,3) pub_trans by fastforce
    then show ?thesis using Suc.IH [OF again(4)] by (rule pub_trans)
  qed (use req in auto)
qed

lemma mirror_pub:
  assumes "\<And>m s. pub P s (fst (log_fn m s))"
  shows "pub P s (fst (mirror_to_temp_workspace w eid log_fn s))"
proof -
  let ?dest = "py_join (TEMP_WORKSPACE_DIR w) eid"
  let ?c = "wbind (s, mirror w) (\<lambda>_ s1. log_fn (''mirrored workspace to '' @ abspath (cwd (w_host w)) ?dest
      @ '' for inspection (not cleaned up automatically)'') s1)"
  obtain s1 r1 where c: "?c = (s1, r1)" by fastforce
  have "pub P s (fst (s1, r1))"
    unfolding c [symmetric] by (rule pub_wbind) (simp, rule assms)
  then have p1: "pub P s s1" by simp
  show ?thesis
  proof (cases "\<exists>m. r1 = Inl (OSError m)")
    case True
    then obtain m where "r1 = Inl (OSError m)" by blast
    with c have "mirror_to_temp_workspace w eid log_fn s = log_fn (''could not mirror workspace to '' @ ?dest @ '': '' @ m) s1"
      by (simp add: mirror_to_temp_workspace_def Let_def)
    with pub_trans [OF p1 assms] show ?thesis by simp
  next
    case False
    then have "mirror_to_temp_workspace w eid log_fn s = (s1, r1)"
      unfolding mirror_to_temp_workspace_def Let_def c
      by (cases r1; cases "projl r1") simp_all
    with p1 show ?thesis by simp
  qed
qed

section \<open>What is written, whatever else happens\<close>

definition wrote :: "(xadd \<Rightarrow> bool) \<Rightarrow> wk \<Rightarrow> wk \<Rightarrow> bool" where
  "wrote P s s' = (\<exists>new. wk_sent s' = wk_sent s @ new \<and> (\<forall>x \<in> set new. P x))"

lemma wrote_trans: "wrote P s s1 \<Longrightarrow> wrote P s1 s2 \<Longrightarrow> wrote P s s2"
  by (auto simp: wrote_def)

lemma pub_wrote: "pub P s s' \<Longrightarrow> wrote P s s'"
  by (auto simp: pub_def wrote_def)

lemma wrote_same: "wk_sent s' = wk_sent s \<Longrightarrow> wrote P s s'"
  by (simp add: wrote_def)

lemma wrote_wbind:
  assumes "wrote P s (fst m)" and "\<And>v s1. wrote P s1 (fst (k v s1))"
  shows "wrote P s (fst (wbind m k))"
  using assms by (cases m; cases "snd m") (auto simp: wbind_def intro: wrote_trans)

lemma wrote_mono: "wrote P s s' \<Longrightarrow> (\<And>x. P x \<Longrightarrow> Q x) \<Longrightarrow> wrote Q s s'"
  by (auto simp: wrote_def)

text \<open>A preparation announces itself, reports a status, logs and asks for data; only one that does not
  leave a prepared directory may also report a failed transfer.\<close>

lemma prepare_with_writes:
  assumes "prepare_with w tid dir eid rf d t s = Some (s', r)"
    and "P (GLOBAL_EXECUTION_EVENTS_STREAM, announce_msg eid (stream_keys eid d))"
    and "P (status_key (stream_keys eid d), (base_fields eid t d)(''type'' \<mapsto> ''STATUS'', ''status'' \<mapsto> ''TRANSFERRING_INPUT''))"
    and "\<And>f. P (log_key (stream_keys eid d), f)"
    and "P (events_key (stream_keys eid d), request_msg (base_fields eid t d) rf)"
  shows "wrote P s s' \<or> wk_prepared s' = wk_prepared s \<and> wrote (\<lambda>x. P x \<or> fst x = status_key (stream_keys eid d)) s s'"
proof -
  let ?keys = "stream_keys eid d" and ?base = "base_fields eid t d" and ?Q = "\<lambda>x. P x \<or> fst x = status_key (stream_keys eid d)"
  let ?log = "publish_log w (log_key ?keys) ?base"
  have log: "pub P s0 (fst (?log m s0))" for m s0 by (rule pub_log) (rule assms(4))
  obtain s1 r1 where first: "wbind (xadd_entry w GLOBAL_EXECUTION_EVENTS_STREAM (announce_msg eid ?keys) s)
      (\<lambda>_. publish_status w (status_key ?keys) ?base ''TRANSFERRING_INPUT'') = (s1, r1)" by fastforce
  have "pub P s (fst (s1, r1))"
    unfolding first [symmetric] by (rule pub_wbind, rule pub_xadd, rule assms(2), rule pub_status, rule assms(3))
  then have p1: "pub P s s1" by simp
  show ?thesis
  proof (cases r1)
    case (Inl e)
    with assms(1) first p1 show ?thesis by (simp add: prepare_with_def Let_def pub_wrote)
  next
    case (Inr u)
    note step = assms(1) [unfolded prepare_with_def Let_def first Inr, simplified]
    obtain s2 r2 where recv: "receive_workspace w (events_key ?keys) ?base dir ?log rf s1 = Some (s2, r2)"
      using step by (cases "receive_workspace w (events_key ?keys) ?base dir ?log rf s1") auto
    have "pub P s1 s2"
      using recv unfolding receive_workspace_def
      by (rule receive_attempts_pub [rotated 2]) (rule log, rule assms(5))
    with p1 have p2: "pub P s s2" by (rule pub_trans)
    consider (raised) e where "r2 = Inl e" | (failed) "r2 = Inr False" | (got) "r2 = Inr True"
      by (cases r2) auto
    then show ?thesis
    proof cases
      case raised
      with step recv p2 show ?thesis by (simp add: pub_wrote)
    next
      case failed
      let ?told = "wbind (publish_status w (status_key ?keys) ?base ''TRANSFER_FAILED'' s2)
          (\<lambda>_. ?log ''workspace transfer failed after max retries; giving up'')"
      have "pub ?Q s2 (fst ?told)"
        by (rule pub_wbind, rule pub_status, simp, rule pub_log) (simp add: assms(4))
      moreover have "wk_sent s' = wk_sent (fst ?told) \<and> wk_prepared s' = wk_prepared (fst ?told)"
        using step recv failed by (auto simp: wbind_def split: prod.splits sum.splits)
      ultimately show ?thesis using p2 pub_mono [OF p2, of ?Q] by (auto simp: pub_def wrote_def)
    next
      case got
      let ?s3 = "s2\<lparr>wk_prepared := (wk_prepared s2)(tid \<mapsto> dir)\<rparr>"
      have "pub P ?s3 (fst (mirror_to_temp_workspace w eid ?log ?s3))" by (rule mirror_pub) (rule log)
      moreover have "mirror_to_temp_workspace w eid ?log ?s3 = (s', r)" using step recv got by simp
      moreover have "wrote P s2 ?s3" by (simp add: wrote_same)
      ultimately show ?thesis using wrote_trans [OF wrote_trans [OF pub_wrote [OF p2]]] pub_wrote by fastforce
    qed
  qed
qed

lemma prepare_with_wrote:
  assumes "P (GLOBAL_EXECUTION_EVENTS_STREAM, announce_msg eid (stream_keys eid d))"
    and "\<And>k f. k \<in> set (key_values (stream_keys eid d)) \<Longrightarrow> P (k, f)"
    and "prepare_with w tid dir eid rf d t s = Some (s', r)"
  shows "wrote P s s'"
proof -
  have "P (events_key (stream_keys eid d), f)" "P (log_key (stream_keys eid d), f)" "P (status_key (stream_keys eid d), f)" for f
    using assms(2) by (simp_all add: key_values_def)
  then have "wrote P s s' \<or> wrote (\<lambda>x. P x \<or> fst x = status_key (stream_keys eid d)) s s'"
    using prepare_with_writes [where P = P, OF assms(3,1)] by blast
  moreover have "P x" if "P x \<or> fst x = status_key (stream_keys eid d)" for x
    using that assms(2) by (cases x) (auto simp: key_values_def)
  ultimately show ?thesis
    using wrote_mono [of "\<lambda>x. P x \<or> fst x = status_key (stream_keys eid d)" s s' P] by blast
qed

section \<open>The task\<close>

lemma xadd_entry_Inr:
  "xadd_entry w k f s = (s', Inr ()) \<longleftrightarrow>
     redis_up w (wk_tries s) \<and> s' = s\<lparr>wk_tries := wk_tries s + 1, wk_sent := wk_sent s @ [(k, f)]\<rparr>"
  by (auto simp: xadd_entry_def Let_def)

lemma xadd_all_Inr:
  assumes "xadd_all w k fs s = (s', Inr u)"
  shows "wk_sent s' = wk_sent s @ map (Pair k) fs"
  using assms
proof (induction fs arbitrary: s)
  case Nil
  then show ?case by simp
next
  case (Cons f fs)
  then obtain s1 where s1: "xadd_entry w k f s = (s1, Inr ())" and rest: "xadd_all w k fs s1 = (s', Inr u)"
    by (auto simp: wbind_Inr)
  from Cons.IH [OF rest] s1 show ?case by (simp add: xadd_entry_Inr)
qed

lemma send_output_Inr:
  assumes "send_output w nt okey base out content (publish_log w lkey base) s = (s', Inr ())"
  shows "\<exists>z m. zip_directory_to_bytes (with_file (w_host w) out ''result.txt'' content) out = Inr z
    \<and> wk_sent s' = wk_sent s @ map (Pair okey) (fst (send_bytes CHUNK_SIZE nt z base)) @ [(lkey, m)]
    \<and> m ''type'' = Some ''LOG''"
proof (cases "zip_directory_to_bytes (with_file (w_host w) out ''result.txt'' content) out")
  case (Inl e)
  with assms show ?thesis by (simp add: send_output_def)
next
  case (Inr z)
  obtain ms res where send: "send_bytes CHUNK_SIZE nt z base = (ms, res)" by fastforce
  obtain s1 where s1: "xadd_all w okey ms s = (s1, Inr ())"
    and rest: "wbind (s1, res) (\<lambda>(tid, ck, size) s2. publish_log w lkey base
        (''output transfer '' @ tid @ '' sent ('' @ str_nat size @ '' bytes)'') s2) = (s', Inr ())"
    using assms by (auto simp: send_output_def Inr send wbind_Inr)
  then obtain tid ck size where "publish_log w lkey base
      (''output transfer '' @ tid @ '' sent ('' @ str_nat size @ '' bytes)'') s1 = (s', Inr ())"
    by (auto simp: wbind_Inr)
  then show ?thesis
    using Inr send xadd_all_Inr [OF s1] unfolding publish_log_def by (auto simp: xadd_entry_Inr)
qed

lemma run_stub_Inr:
  assumes "run_stub_task w dir log_fn s = (s', Inr content)"
  shows "\<exists>names. listdir w dir = Inr names \<and> content = text_bytes (result_text w (sort names))"
  using assms by (auto simp: run_stub_task_def Let_def wbind_Inr split: sum.splits)

lemma task_try_Inr:
  assumes "task_try w nt dir out keys base s = (s', Inr ())"
  shows "\<exists>z names logs m. listdir w dir = Inr names
    \<and> zip_directory_to_bytes (with_file (w_host w) out ''result.txt'' (text_bytes (result_text w (sort names)))) out = Inr z
    \<and> wk_sent s' = wk_sent s @ (status_key keys, base(''type'' \<mapsto> ''STATUS'', ''status'' \<mapsto> ''EXECUTING'')) # logs
        @ map (Pair (output_key keys)) (fst (send_bytes CHUNK_SIZE nt z base)) @ [(log_key keys, m),
          (status_key keys, base(''type'' \<mapsto> ''STATUS'', ''status'' \<mapsto> ''TASK_SUCCEEDED''))]
    \<and> fst ` set logs \<subseteq> {log_key keys} \<and> m ''type'' = Some ''LOG''"
proof -
  let ?log = "publish_log w (log_key keys) base"
  obtain s1 s2 s3 content where
    s1: "publish_status w (status_key keys) base ''EXECUTING'' s = (s1, Inr ())" and
    s2: "run_stub_task w dir ?log s1 = (s2, Inr content)" and
    s3: "send_output w nt (output_key keys) base out content ?log s2 = (s3, Inr ())" and
    s4: "publish_status w (status_key keys) base ''TASK_SUCCEEDED'' s3 = (s', Inr ())"
    using assms by (auto simp: task_try_def Let_def wbind_Inr)
  have "pub (\<lambda>x. fst x = log_key keys) s1 (fst (run_stub_task w dir ?log s1))"
    by (rule pub_run_stub) (rule pub_log, simp)
  then obtain logs where logs: "wk_sent s2 = wk_sent s1 @ logs" "fst ` set logs \<subseteq> {log_key keys}"
    using s2 by (auto simp: pub_def)
  have "wk_sent s1 = wk_sent s @ [(status_key keys, base(''type'' \<mapsto> ''STATUS'', ''status'' \<mapsto> ''EXECUTING''))]"
    using s1 by (simp add: publish_status_def xadd_entry_Inr)
  moreover have "wk_sent s' = wk_sent s3 @ [(status_key keys, base(''type'' \<mapsto> ''STATUS'', ''status'' \<mapsto> ''TASK_SUCCEEDED''))]"
    using s4 by (simp add: publish_status_def xadd_entry_Inr)
  ultimately show ?thesis
    using logs run_stub_Inr [OF s2] send_output_Inr [OF s3] by fastforce
qed

text \<open>A run that stops with an exception has not reported success.\<close>

lemma task_try_Inl:
  assumes "task_try w nt dir out keys base s = (s', Inl e)" and "distinct (key_values keys)"
  shows "pub (\<lambda>x. x \<noteq> (status_key keys, base(''type'' \<mapsto> ''STATUS'', ''status'' \<mapsto> ''TASK_SUCCEEDED''))) s s'"
proof -
  let ?log = "publish_log w (log_key keys) base"
  let ?P = "\<lambda>x. x \<noteq> (status_key keys, base(''type'' \<mapsto> ''STATUS'', ''status'' \<mapsto> ''TASK_SUCCEEDED''))"
  let ?first = "\<lambda>s. wbind (publish_status w (status_key keys) base ''EXECUTING'' s) (\<lambda>_ s1.
      wbind (run_stub_task w dir ?log s1) (\<lambda>content s2.
        send_output w nt (output_key keys) base out content ?log s2))"
  have neq: "log_key keys \<noteq> status_key keys" "output_key keys \<noteq> status_key keys"
    using assms(2) by (auto simp: key_values_def)
  have "base(''type'' \<mapsto> ''STATUS'', ''status'' \<mapsto> ''EXECUTING'')
      \<noteq> base(''type'' \<mapsto> ''STATUS'', ''status'' \<mapsto> ''TASK_SUCCEEDED'')"
    by (auto dest: fun_cong [of _ _ "''status''"])
  then have p: "pub ?P s (fst (?first s))"
    using neq by (intro pub_wbind pub_status pub_run_stub pub_send_output pub_log) auto
  have split: "task_try w nt dir out keys base s =
      wbind (?first s) (\<lambda>_ s3. publish_status w (status_key keys) base ''TASK_SUCCEEDED'' s3)"
    by (simp add: task_try_def Let_def wbind_def split: prod.splits sum.splits)
  obtain s1 r1 where f: "?first s = (s1, r1)" by fastforce
  with p have p1: "pub ?P s s1" by simp
  show ?thesis
  proof (cases r1)
    case (Inl e1)
    with assms(1) split f p1 show ?thesis by (simp add: wbind_def)
  next
    case (Inr u)
    then have "publish_status w (status_key keys) base ''TASK_SUCCEEDED'' s1 = (s', Inl e)"
      using assms(1) split f by (simp add: wbind_def)
    then have "pub ?P s1 s'"
      by (auto simp: publish_status_def xadd_entry_def Let_def pub_def split: if_splits)
    with p1 show ?thesis by (rule pub_trans)
  qed
qed

lemma task_try_pub:
  assumes "distinct (key_values keys)"
  shows "pub (\<lambda>x. fst x \<in> set (key_values keys)) s (fst (task_try w nt dir out keys base s))"
  by (rule pub_task_try) (simp_all add: key_values_def)

lemma report_failure:
  assumes "wbind (publish_log w lkey base m s) (\<lambda>_ s2.
      wbind (publish_status w skey base ''TASK_FAILED'' s2) (\<lambda>_ s3. (s3, Inl e))) = (s', r)"
  shows "r \<noteq> Inr ()"
    and "wk_prepared s' = wk_prepared s" and "wk_removed s' = wk_removed s"
    and "\<exists>new. wk_sent s' = wk_sent s @ new
          \<and> set new \<subseteq> {(lkey, base(''type'' \<mapsto> ''LOG'', ''message'' \<mapsto> m)),
                        (skey, base(''type'' \<mapsto> ''STATUS'', ''status'' \<mapsto> ''TASK_FAILED''))}
          \<and> ((\<forall>n. redis_up w n) \<longrightarrow> r = Inl e \<and> new \<noteq> []
              \<and> last new = (skey, base(''type'' \<mapsto> ''STATUS'', ''status'' \<mapsto> ''TASK_FAILED'')))"
  using assms
  by (auto simp: wbind_def publish_log_def publish_status_def xadd_entry_def Let_def split: if_splits)

text \<open>C16: What a task that was given a workspace leaves behind, on every path, with Redis failing
  at any XADD: its entry in the table of prepared workspaces is gone and both directories are
  removed. It has reported TASK_SUCCEEDED exactly if it returned, and then, as the last
  entry, after the messages of one transfer of the zipped output directory, which holds the
  result text for the workspace's entries, and nothing else on the output stream. If it raised while Redis answered, TASK_FAILED is the last entry.\<close>

theorem execute_task_outcome:
  assumes "wk_prepared s tid = Some dir" and "identity w = Inr idn"
    and "idn ''delegate_id'' = Some d" and "idn ''tenant_id'' = Some t"
    and "execute_task w tid nt out eid s = (s', r)"
  shows "wk_prepared s' = (wk_prepared s)(tid := None) \<and> wk_removed s' = wk_removed s @ [dir, out]
    \<and> (\<exists>new. wk_sent s' = wk_sent s @ new
        \<and> ((status_key (stream_keys eid d),
            (base_fields eid t d)(''type'' \<mapsto> ''STATUS'', ''status'' \<mapsto> ''TASK_SUCCEEDED'')) \<in> set new \<longleftrightarrow> r = Inr ())
        \<and> (r = Inr () \<longrightarrow> new \<noteq> []
            \<and> last new = (status_key (stream_keys eid d),
                (base_fields eid t d)(''type'' \<mapsto> ''STATUS'', ''status'' \<mapsto> ''TASK_SUCCEEDED''))
            \<and> (\<exists>names z. listdir w dir = Inr names
                \<and> zip_directory_to_bytes (with_file (w_host w) out ''result.txt'' (text_bytes (result_text w (sort names)))) out = Inr z
                \<and> map snd (filter (\<lambda>x. fst x = output_key (stream_keys eid d)) new)
                    = fst (send_bytes CHUNK_SIZE nt z (base_fields eid t d))))
        \<and> (r \<noteq> Inr () \<and> (\<forall>n. redis_up w n) \<longrightarrow> new \<noteq> []
            \<and> last new = (status_key (stream_keys eid d),
                (base_fields eid t d)(''type'' \<mapsto> ''STATUS'', ''status'' \<mapsto> ''TASK_FAILED''))))"
proof -
  let ?keys = "stream_keys eid d" and ?base = "base_fields eid t d"
  let ?ok = "(status_key ?keys, ?base(''type'' \<mapsto> ''STATUS'', ''status'' \<mapsto> ''TASK_SUCCEEDED''))"
  let ?bad = "(status_key ?keys, ?base(''type'' \<mapsto> ''STATUS'', ''status'' \<mapsto> ''TASK_FAILED''))"
  let ?s = "s\<lparr>wk_prepared := (wk_prepared s)(tid := None)\<rparr>"
  note dist = key_values_distinct [of eid d]
  obtain s1 r1 where try1: "task_try w nt dir out ?keys ?base ?s = (s1, r1)" by fastforce
  have same: "wk_prepared s1 = (wk_prepared s)(tid := None)" "wk_removed s1 = wk_removed s"
    using task_try_pub [OF dist, of ?s w nt dir out ?base] try1 by (simp_all add: pub_def)
  have neq: "log_key ?keys \<noteq> status_key ?keys" "output_key ?keys \<noteq> status_key ?keys" "log_key ?keys \<noteq> output_key ?keys"
    using dist by (auto simp: key_values_def)
  show ?thesis
  proof (cases r1)
    case (Inr u)
    then have try2: "task_try w nt dir out ?keys ?base ?s = (s1, Inr ())" using try1 by simp
    obtain z names logs m where
      z: "listdir w dir = Inr names"
      "zip_directory_to_bytes (with_file (w_host w) out ''result.txt'' (text_bytes (result_text w (sort names)))) out = Inr z" and
      sent: "wk_sent s1 = wk_sent ?s @ (status_key ?keys, ?base(''type'' \<mapsto> ''STATUS'', ''status'' \<mapsto> ''EXECUTING'')) # logs
        @ map (Pair (output_key ?keys)) (fst (send_bytes CHUNK_SIZE nt z ?base)) @ [(log_key ?keys, m), ?ok]" and
      logs: "fst ` set logs \<subseteq> {log_key ?keys}"
      using task_try_Inr [OF try2] by blast
    have res: "s' = s1\<lparr>wk_removed := wk_removed s1 @ [dir, out]\<rparr>" "r = Inr ()"
      using assms try2 by (simp_all add: execute_task_def Let_def)
    have "filter (\<lambda>x. fst x = output_key ?keys) logs = []"
      using logs neq by (force simp: filter_empty_conv)
    then show ?thesis
      using same neq z by (intro conjI exI [of _ "(status_key ?keys, ?base(''type'' \<mapsto> ''STATUS'', ''status'' \<mapsto> ''EXECUTING'')) # logs
        @ map (Pair (output_key ?keys)) (fst (send_bytes CHUNK_SIZE nt z ?base)) @ [(log_key ?keys, m), ?ok]"])
        (auto simp: res sent comp_def filter_map)
  next
    case (Inl e)
    let ?rep = "wbind (publish_log w (log_key ?keys) ?base (''task failed with exception: '' @ exn_text e) s1) (\<lambda>_ s2.
        wbind (publish_status w (status_key ?keys) ?base ''TASK_FAILED'' s2) (\<lambda>_ s3. (s3, Inl e)))"
    obtain s2 where rep: "?rep = (s2, r)" and res: "s' = s2\<lparr>wk_removed := wk_removed s2 @ [dir, out]\<rparr>"
      using assms try1 Inl by (auto simp: execute_task_def Let_def split: prod.splits)
    note rf = report_failure [OF rep]
    have "pub (\<lambda>x. x \<noteq> ?ok) ?s s1"
      using task_try_Inl [OF _ dist] try1 Inl by blast
    then obtain new1 where new1: "wk_sent s1 = wk_sent s @ new1" "?ok \<notin> set new1"
      by (auto simp: pub_def)
    obtain new2 where new2: "wk_sent s2 = wk_sent s1 @ new2"
      "set new2 \<subseteq> {(log_key ?keys, ?base(''type'' \<mapsto> ''LOG'', ''message'' \<mapsto> ''task failed with exception: '' @ exn_text e)), ?bad}"
      "(\<forall>n. redis_up w n) \<longrightarrow> r = Inl e \<and> new2 \<noteq> [] \<and> last new2 = ?bad"
      using rf(4) by blast
    have "?bad \<noteq> ?ok" by (auto dest: fun_cong [of _ _ "''status''"])
    then have "?ok \<notin> set new2" using new2(2) neq by auto
    then show ?thesis
      using rf(1-3) same new1 new2 by (intro conjI exI [of _ "new1 @ new2"]) (simp_all add: res)
  qed
qed

section \<open>Examples\<close>

text \<open>A worker that can reach Redis and is answered, at every attempt, with an empty transfer. With
  \<open>corrupt\<close> the ZIP codec refuses what it gets; with \<open>silent\<close> nobody answers.\<close>

definition sample_wenv :: wenv where
  "sample_wenv =
     \<lparr>redis_up = (\<lambda>_. True), w_host = sample_host,
      identity = Inr [''delegate_id'' \<mapsto> ''d'', ''tenant_id'' \<mapsto> ''t''],
      wait_timeout = 15000, TRANSFER_MAX_RETRIES = 2, TEMP_WORKSPACE_DIR = ''tmp'',
      attempt_of = (\<lambda>_. \<lparr>ae_now = 0, ae_polls = sample_reply, ae_error = None\<rparr>),
      listdir = (\<lambda>_. Inr []), list_text = (\<lambda>_. ''[]''), mirror = Inr ()\<rparr>"

definition corrupt :: "wenv \<Rightarrow> wenv" where
  "corrupt w = w\<lparr>w_host := (w_host w)\<lparr>zip_read := (\<lambda>_. Inl (OtherError ''BadZipFile''))\<rparr>\<rparr>"

definition silent :: "wenv \<Rightarrow> wenv" where
  "silent w = w\<lparr>attempt_of := (\<lambda>_. \<lparr>ae_now = 0, ae_polls = [(15000, [])], ae_error = None\<rparr>)\<rparr>"

definition wk_init :: wk where
  "wk_init = \<lparr>wk_tries = 0, wk_sent = [], wk_prepared = Map.empty, wk_extracted = [], wk_removed = []\<rparr>"

lemma sample_attempt: "attempt sample_wenv n i = Some (Inr ([], ''1-1'', Some ''t''))"
  by (simp add: attempt_def sample_wenv_def receive_once_def sample_reply_def rx_init_def rx_message_def
      start_msg_def end_msg_def)

lemma sample_attempt_variants [simp]:
  "attempt (corrupt w) n i = attempt w n i"
  "attempt (silent sample_wenv) n i = Some (Inl (TransferFailed ''timeout waiting for transfer progress'' (Some i)))"
  by (simp_all add: attempt_def corrupt_def silent_def sample_wenv_def receive_once_def rx_init_def)

lemma sample_wenv_simps [simp]:
  "redis_up sample_wenv n" "w_host sample_wenv = sample_host" "TRANSFER_MAX_RETRIES sample_wenv = 2"
  "identity sample_wenv = Inr [''delegate_id'' \<mapsto> ''d'', ''tenant_id'' \<mapsto> ''t'']" "mirror sample_wenv = Inr ()"
  "redis_up (silent w) = redis_up w" "redis_up (corrupt w) = redis_up w"
  "w_host (silent w) = w_host w" "zip_read (w_host (corrupt w)) data = Inl (OtherError ''BadZipFile'')"
  "TRANSFER_MAX_RETRIES (silent w) = TRANSFER_MAX_RETRIES w" "TRANSFER_MAX_RETRIES (corrupt w) = TRANSFER_MAX_RETRIES w"
  "identity (silent w) = identity w" "identity (corrupt w) = identity w" "zip_read sample_host data = Inr []"
  by (simp_all add: sample_wenv_def silent_def corrupt_def sample_host_def)

lemma xadd_up: "redis_up w (wk_tries s) \<Longrightarrow>
    xadd_entry w k f s = (s\<lparr>wk_tries := wk_tries s + 1, wk_sent := wk_sent s @ [(k, f)]\<rparr>, Inr ())"
  by (simp add: xadd_entry_def Let_def)

lemmas worker_run =
  prepare_execution_def prepare_with_def receive_workspace_def request_data_def
  received_def extract_zip_bytes_def mirror_to_temp_workspace_def
  publish_log_def publish_status_def xadd_up wbind_def Let_def numeral_2_eq_2

text \<open>With Redis answering, a listable workspace and a packable output, a prepared task returns.\<close>

lemma task_returns:
  assumes "\<forall>n. redis_up w n" and "listdir w dir = Inr names"
    and "\<forall>content. \<exists>z. zip_directory_to_bytes (with_file (w_host w) out ''result.txt'' content) out = Inr z"
    and "identity w = Inr idn" and "idn ''delegate_id'' = Some d" and "idn ''tenant_id'' = Some t" and "wk_prepared s tid = Some dir"
  shows "\<exists>s'. execute_task w tid nt out eid s = (s', Inr ())"
proof -
  let ?keys = "stream_keys eid d" and ?base = "base_fields eid t d"
  have up: "redis_up w n" for n using assms(1) by simp
  have all: "\<exists>s1. xadd_all w k fs s = (s1, Inr ())" for k fs s
    by (induction fs arbitrary: s) (auto simp: wbind_def xadd_up up)
  have logs: "publish_log w k base m s = (s\<lparr>wk_tries := wk_tries s + 1,
      wk_sent := wk_sent s @ [(k, base(''type'' \<mapsto> ''LOG'', ''message'' \<mapsto> m))]\<rparr>, Inr ())" for k base m s
    by (simp add: publish_log_def xadd_up up)
  have statuses: "publish_status w k base m s = (s\<lparr>wk_tries := wk_tries s + 1,
      wk_sent := wk_sent s @ [(k, base(''type'' \<mapsto> ''STATUS'', ''status'' \<mapsto> m))]\<rparr>, Inr ())" for k base m s
    by (simp add: publish_status_def xadd_up up)
  have send: "\<exists>s1. send_output w nt okey base out content (publish_log w lkey base) s = (s1, Inr ())"
    for okey base content lkey s
  proof -
    obtain z where z: "zip_directory_to_bytes (with_file (w_host w) out ''result.txt'' content) out = Inr z"
      using assms(3) by blast
    obtain ms res where ms: "send_bytes CHUNK_SIZE nt z base = (ms, res)" by fastforce
    then have res: "res = Inr (nt, sha256_bytes z, length z)"
      using send_bytes_run [OF _ ms, of None] by (auto simp: CHUNK_SIZE_def)
    obtain s1 where "xadd_all w okey ms s = (s1, Inr ())" using all by blast
    with z ms res show ?thesis by (simp add: send_output_def wbind_def logs)
  qed
  have "\<exists>s1. task_try w nt dir out keys base s = (s1, Inr ())" for keys base s
  proof -
    obtain s2 c where run: "run_stub_task w dir (publish_log w (log_key keys) base)
        (s\<lparr>wk_tries := wk_tries s + 1,
          wk_sent := wk_sent s @ [(status_key keys, base(''type'' \<mapsto> ''STATUS'', ''status'' \<mapsto> ''EXECUTING''))]\<rparr>) = (s2, Inr c)"
      by (simp add: run_stub_task_def assms(2) logs wbind_def Let_def)
    obtain s3 where "send_output w nt (output_key keys) base out c
        (publish_log w (log_key keys) base) s2 = (s3, Inr ())" using send by blast
    with run show ?thesis by (simp add: task_try_def Let_def wbind_def statuses)
  qed
  then obtain s1 where "task_try w nt dir out ?keys ?base (s\<lparr>wk_prepared := (wk_prepared s)(tid := None)\<rparr>) = (s1, Inr ())" by blast
  with assms(4-7) show ?thesis by (simp add: execute_task_def Let_def field_req_def)
qed

lemma sample_zip: "zip_directory_to_bytes (with_file sample_host out ''result.txt'' content) out = Inr []"
  by (simp add: zip_directory_to_bytes_def with_file_def sample_host_def)

lemma sample_task:
  "\<exists>s'. execute_task sample_wenv ''task'' ''x'' ''out'' eid (wk_init\<lparr>wk_prepared := [''task'' \<mapsto> ''dir'']\<rparr>) = (s', Inr ())"
  by (rule task_returns [where names = "[]" and dir = "''dir''" and d = "''d''" and t = "''t''"
      and idn = "[''delegate_id'' \<mapsto> ''d'', ''tenant_id'' \<mapsto> ''t'']"]) (simp_all add: sample_zip, simp add: sample_wenv_def)

lemma execute_task_outcome_witness:
  "\<exists>s'. execute_task sample_wenv ''task'' ''x'' ''out'' ''e''
      (wk_init\<lparr>wk_prepared := [''task'' \<mapsto> ''dir'']\<rparr>) = (s', Inr ())
    \<and> wk_prepared s' ''task'' = None \<and> wk_removed s' = [''dir'', ''out'']
    \<and> last (wk_sent s') = (status_key (stream_keys ''e'' ''d''),
        (base_fields ''e'' ''t'' ''d'')(''type'' \<mapsto> ''STATUS'', ''status'' \<mapsto> ''TASK_SUCCEEDED''))"
proof -
  let ?s = "wk_init\<lparr>wk_prepared := [''task'' \<mapsto> ''dir'']\<rparr>"
  obtain s' where run: "execute_task sample_wenv ''task'' ''x'' ''out'' ''e'' ?s = (s', Inr ())"
    using sample_task by blast
  have "wk_prepared ?s ''task'' = Some ''dir''" by simp
  from execute_task_outcome [OF this _ _ _ run, of "[''delegate_id'' \<mapsto> ''d'', ''tenant_id'' \<mapsto> ''t'']" "''d''" "''t''"] run
  show ?thesis by (auto simp: wk_init_def)
qed

end
