(* ===== verification/PrepareFacts.thy ===== *)
theory PrepareFacts
  imports WorkerFacts
begin

text \<open>
  What the signal handler guarantees before the task runs: the number of DATA_REQUESTs is
  bounded, it comes back, a workspace it leaves for the task was validated against a
  DATA_START, and which failures it reports.
\<close>

section \<open>Receiving with retries\<close>

text \<open>How many DATA_REQUESTs have gone to a stream.\<close>

definition data_requests :: "string \<Rightarrow> wk \<Rightarrow> nat" where
  "data_requests ekey s =
     length (filter (\<lambda>x. fst x = ekey \<and> snd x ''type'' = Some ''DATA_REQUEST'') (wk_sent s))"

definition no_request :: "xadd \<Rightarrow> bool" where
  "no_request x = (snd x ''type'' \<noteq> Some ''DATA_REQUEST'')"

lemma pub_no_request:
  assumes "pub no_request s s'"
  shows "data_requests ekey s' = data_requests ekey s"
proof -
  obtain new where "wk_sent s' = wk_sent s @ new" "\<forall>x \<in> set new. no_request x"
    using assms by (auto simp: pub_def)
  moreover from this(2) have "filter (\<lambda>x. fst x = ekey \<and> snd x ''type'' = Some ''DATA_REQUEST'') new = []"
    by (auto simp: no_request_def filter_empty_conv)
  ultimately show ?thesis by (simp add: data_requests_def)
qed

lemma log_no_request: "pub no_request s (fst (publish_log w lkey base m s))"
  by (rule pub_log) (simp add: no_request_def)

lemma log_extracted: "publish_log w lkey base m s = (s', r) \<Longrightarrow> wk_extracted s' = wk_extracted s"
  by (auto simp: publish_log_def xadd_entry_def Let_def split: if_splits)

lemma request_data_count:
  assumes "request_data w ekey base (publish_log w lkey base) rf n s = (s', r)"
  shows "data_requests ekey s' \<le> data_requests ekey s + 1"
    and "r = Inr () \<Longrightarrow> data_requests ekey s' = data_requests ekey s + 1"
    and "wk_extracted s' = wk_extracted s"
proof -
  let ?note = "''DATA_REQUEST sent (attempt '' @ str_nat n @ ''/'' @ str_nat (TRANSFER_MAX_RETRIES w) @ '')''"
  obtain s1 r1 where x: "xadd_entry w ekey (request_msg base rf) s = (s1, r1)" by fastforce
  have "data_requests ekey s' \<le> data_requests ekey s + 1 \<and> (r = Inr () \<longrightarrow> data_requests ekey s' = data_requests ekey s + 1)
      \<and> wk_extracted s' = wk_extracted s"
  proof (cases r1)
    case (Inl e)
    with assms x show ?thesis
      by (auto simp: request_data_def wbind_def xadd_entry_def Let_def data_requests_def split: if_splits)
  next
    case (Inr u)
    have s1: "s1 = s\<lparr>wk_tries := wk_tries s + 1, wk_sent := wk_sent s @ [(ekey, request_msg base rf)]\<rparr>"
      using x Inr by (simp add: xadd_entry_Inr)
    have lg: "publish_log w lkey base ?note s1 = (s', r)"
      using assms x Inr by (simp add: request_data_def wbind_def)
    have "data_requests ekey s' = data_requests ekey s1"
      using pub_no_request [OF log_no_request [of s1 w lkey base ?note]] lg by simp
    moreover have "data_requests ekey s1 = data_requests ekey s + 1"
      by (simp add: s1 data_requests_def request_msg_def)
    ultimately show ?thesis using log_extracted [OF lg] by (simp add: s1)
  qed
  then show "data_requests ekey s' \<le> data_requests ekey s + 1"
    and "r = Inr () \<Longrightarrow> data_requests ekey s' = data_requests ekey s + 1"
    and "wk_extracted s' = wk_extracted s" by simp_all
qed

lemma received_facts:
  assumes "received w dir (publish_log w lkey base) data tid s = (s', r)"
  shows "data_requests ekey s' = data_requests ekey s"
    and "r = Inr True \<Longrightarrow> \<exists>es. extract_zip_bytes (w_host w) data = Inr es \<and> wk_extracted s' = wk_extracted s @ [(dir, es)]"
    and "r \<noteq> Inr False"
proof -
  have "pub no_request s s'"
    using received_pub [of no_request "publish_log w lkey base" s w dir data tid, OF log_no_request] assms by simp
  then show "data_requests ekey s' = data_requests ekey s" by (rule pub_no_request)
  show "r = Inr True \<Longrightarrow> \<exists>es. extract_zip_bytes (w_host w) data = Inr es \<and> wk_extracted s' = wk_extracted s @ [(dir, es)]"
    using assms by (auto simp: received_def wbind_Inr dest: log_extracted split: sum.splits)
  show "r \<noteq> Inr False"
    using assms by (auto simp: received_def wbind_Inr split: sum.splits)
qed

text \<open>The loop from attempt \<open>n\<close> on, with \<open>left\<close> attempts to go.\<close>

lemma receive_attempts_facts:
  assumes "receive_attempts w ekey base dir (publish_log w lkey base) rf n left last_id s = Some (s', r)"
  shows "data_requests ekey s' \<le> data_requests ekey s + left
    \<and> (r = Inr False \<longrightarrow> data_requests ekey s' = data_requests ekey s + left \<and> wk_extracted s' = wk_extracted s
        \<and> (\<forall>i \<in> {n..<n + left}. \<exists>id msg lid. attempt w i id = Some (Inl (TransferFailed msg lid))))
    \<and> (r = Inr True \<longrightarrow> (\<exists>i id data lid tid es. n \<le> i \<and> i < n + left
        \<and> data_requests ekey s' = data_requests ekey s + (i - n + 1)
        \<and> attempt w i id = Some (Inr (data, lid, tid)) \<and> extract_zip_bytes (w_host w) data = Inr es
        \<and> wk_extracted s' = wk_extracted s @ [(dir, es)]))"
  using assms
proof (induction left arbitrary: n last_id s)
  case 0
  then show ?case by auto
next
  case (Suc left)
  let ?log = "publish_log w lkey base"
  from Suc.prems show ?case
  proof (cases rule: receive_attempts_cases)
    case (unsent e)
    with request_data_count [OF unsent(1)] show ?thesis by auto
  next
    case (got s2 data lid tid)
    note rq = request_data_count [OF got(1)] and rc = received_facts [OF got(3)]
    show ?thesis using rc(1) [of ekey] rc(2,3) rq got(2) by fastforce
  next
    case (raised e)
    with request_data_count [OF raised(1)] show ?thesis by auto
  next
    case (unlogged s2 msg e)
    have "data_requests ekey s' = data_requests ekey s2"
      using pub_no_request [OF log_no_request [of s2 w lkey base "retry_text n msg"], of ekey] unlogged(2) by simp
    with request_data_count [OF unlogged(1)] unlogged(3) show ?thesis by auto
  next
    case (again s2 msg lid s3)
    have c3: "data_requests ekey s3 = data_requests ekey s + 1" "wk_extracted s3 = wk_extracted s"
      using request_data_count [OF again(1)] log_extracted [OF again(3)] again(3)
        pub_no_request [OF log_no_request [of s2 w lkey base "retry_text n msg"], of ekey] by simp_all
    note IH = Suc.IH [OF again(4)]
    have "{n..<n + Suc left} = insert n {n + 1..<n + 1 + left}" by auto
    with IH c3 again(2) have no: "r = Inr False \<longrightarrow> data_requests ekey s' = data_requests ekey s + Suc left
        \<and> wk_extracted s' = wk_extracted s \<and> (\<forall>i \<in> {n..<n + Suc left}. \<exists>id msg lid. attempt w i id = Some (Inl (TransferFailed msg lid)))"
      by auto
    have yes: "\<exists>i id data lid tid es. n \<le> i \<and> i < n + Suc left
        \<and> data_requests ekey s' = data_requests ekey s + (i - n + 1)
        \<and> attempt w i id = Some (Inr (data, lid, tid)) \<and> extract_zip_bytes (w_host w) data = Inr es
        \<and> wk_extracted s' = wk_extracted s @ [(dir, es)]" if r: "r = Inr True"
    proof -
      obtain i id data lid tid es where i: "n + 1 \<le> i" "i < n + 1 + left"
        "data_requests ekey s' = data_requests ekey s3 + (i - (n + 1) + 1)"
        "attempt w i id = Some (Inr (data, lid, tid))" "extract_zip_bytes (w_host w) data = Inr es"
        "wk_extracted s' = wk_extracted s3 @ [(dir, es)]"
        using IH r by blast
      have "data_requests ekey s' = data_requests ekey s + (i - n + 1)"
        using i(1,3) c3(1) by simp
      with i c3(2) show ?thesis by (intro exI [of _ i]) auto
    qed
    from IH c3(1) no yes show ?thesis by auto
  qed
qed

text \<open>Retries are bounded. \<open>_receive_workspace\<close> sends at most TRANSFER_MAX_RETRIES
  DATA_REQUESTs. If it returns False it has sent exactly that many, every attempt ended in
  \<open>TransferFailed\<close>, and nothing was extracted; if it returns True after attempt \<open>n\<close>, it has sent
  exactly \<open>n\<close>, and what that attempt returned is all that was extracted.\<close>

theorem receive_workspace_retries:
  assumes "receive_workspace w ekey base dir (publish_log w lkey base) rf s = Some (s', r)"
  shows "data_requests ekey s' \<le> data_requests ekey s + TRANSFER_MAX_RETRIES w
    \<and> (r = Inr False \<longrightarrow> data_requests ekey s' = data_requests ekey s + TRANSFER_MAX_RETRIES w
        \<and> wk_extracted s' = wk_extracted s
        \<and> (\<forall>n \<in> {1..TRANSFER_MAX_RETRIES w}. \<exists>id msg lid. attempt w n id = Some (Inl (TransferFailed msg lid))))
    \<and> (r = Inr True \<longrightarrow> (\<exists>n id data lid tid es. n \<in> {1..TRANSFER_MAX_RETRIES w}
        \<and> data_requests ekey s' = data_requests ekey s + n
        \<and> attempt w n id = Some (Inr (data, lid, tid)) \<and> extract_zip_bytes (w_host w) data = Inr es
        \<and> wk_extracted s' = wk_extracted s @ [(dir, es)]))"
proof -
  note f = receive_attempts_facts [OF assms [unfolded receive_workspace_def]]
  have "{1..TRANSFER_MAX_RETRIES w} = {1..<1 + TRANSFER_MAX_RETRIES w}" by auto
  moreover have "\<exists>n id data lid tid es. n \<in> {1..TRANSFER_MAX_RETRIES w}
        \<and> data_requests ekey s' = data_requests ekey s + n
        \<and> attempt w n id = Some (Inr (data, lid, tid)) \<and> extract_zip_bytes (w_host w) data = Inr es
        \<and> wk_extracted s' = wk_extracted s @ [(dir, es)]" if "r = Inr True"
  proof -
    obtain i id data lid tid es where "1 \<le> i" "i < 1 + TRANSFER_MAX_RETRIES w"
      "data_requests ekey s' = data_requests ekey s + (i - 1 + 1)"
      "attempt w i id = Some (Inr (data, lid, tid))" "extract_zip_bytes (w_host w) data = Inr es"
      "wk_extracted s' = wk_extracted s @ [(dir, es)]"
      using f \<open>r = Inr True\<close> by blast
    then show ?thesis by (intro exI [of _ i]) auto
  qed
  ultimately show ?thesis using f by simp
qed

text \<open>An attempt that is polled late enough has an outcome.\<close>

definition polled_late :: "wenv \<Rightarrow> nat \<Rightarrow> bool" where
  "polled_late w n =
     (let a = attempt_of w n in
      \<exists>(t, resp) \<in> set (ae_polls a). ae_now a + wait_timeout w \<le> t
        \<and> (\<forall>m \<in> set (poll_msgs (ae_polls a)). msg_time m + wait_timeout w \<le> t))"

lemma attempt_returns:
  assumes "polled_late w n"
  shows "attempt w n last_id \<noteq> None"
proof -
  obtain t resp where "(t, resp) \<in> set (ae_polls (attempt_of w n))" "ae_now (attempt_of w n) + wait_timeout w \<le> t"
    "\<forall>m \<in> set (poll_msgs (ae_polls (attempt_of w n))). msg_time m + wait_timeout w \<le> t"
    using assms by (auto simp: polled_late_def Let_def)
  then have "receive_once (wait_timeout w) (ae_now (attempt_of w n)) last_id (ae_polls (attempt_of w n)) \<noteq> Continue r" for r
    unfolding receive_once_def by (intro receive_loop_late) (simp_all add: rx_init_def)
  then show ?thesis by (auto simp: attempt_def Let_def split: rx_out.splits)
qed

lemma receive_attempts_return:
  assumes "\<forall>i \<in> {n..<n + left}. polled_late w i"
  shows "receive_attempts w ekey base dir log_fn rf n left last_id s \<noteq> None"
  using assms
proof (induction left arbitrary: n last_id s)
  case 0
  then show ?case by simp
next
  case (Suc left)
  then have "attempt w n last_id \<noteq> None" using attempt_returns by simp
  moreover have "\<exists>a b. receive_attempts w ekey base dir log_fn rf (Suc n) left id s3 = Some (a, b)" for id s3
    using Suc.IH [of "Suc n"] Suc.prems by simp
  ultimately show ?case
    by (auto split: prod.splits sum.splits exn.splits)
qed

text \<open>The signal handler returns. If every attempt to receive the workspace is polled once late
  enough (at least the timeout after its start and after every message read), then
  \<open>_prepare_execution\<close> comes back, with whatever outcome; it never waits for ever.\<close>

theorem prepare_execution_returns:
  assumes "\<forall>n \<in> {1..TRANSFER_MAX_RETRIES w}. polled_late w n"
  shows "\<exists>s' r. prepare_execution w tid dir args kwargs s = Some (s', r)"
proof -
  have "{1..TRANSFER_MAX_RETRIES w} = {1..<1 + TRANSFER_MAX_RETRIES w}" by auto
  with assms have recv: "receive_workspace w ekey base dir log_fn rf s1 \<noteq> None" for ekey base log_fn rf s1
    unfolding receive_workspace_def by (intro receive_attempts_return) simp
  have "prepare_with w tid dir eid rf d t s \<noteq> None" for eid rf d t
    using recv by (auto simp: prepare_with_def Let_def simp del: not_None_eq split: sum.splits prod.splits option.splits bool.splits)
  then have "prepare_execution w tid dir args kwargs s \<noteq> None"
    by (simp add: prepare_execution_def Let_def del: not_None_eq split: sum.splits prod.splits)
  then show ?thesis by auto
qed

section \<open>What the handler leaves behind\<close>

text \<open>Entries that do not report a failed transfer.\<close>

definition no_failure :: "xadd \<Rightarrow> bool" where
  "no_failure x = (snd x ''status'' \<noteq> Some ''TRANSFER_FAILED'')"

lemma base_fields_status [simp]: "base_fields eid t d ''status'' = None"
  by (simp add: base_fields_def)

lemma log_no_failure: "pub no_failure s (fst (publish_log w lkey (base_fields eid t d) m s))"
  by (rule pub_log) (simp add: no_failure_def)

lemma receive_no_failure:
  assumes "receive_workspace w ekey (base_fields eid t d) dir (publish_log w lkey (base_fields eid t d)) rf s = Some (s', r)"
  shows "pub no_failure s s'"
  using assms unfolding receive_workspace_def
  by (rule receive_attempts_pub [rotated 2])
    (rule log_no_failure, simp add: no_failure_def request_msg_def)

text \<open>The outcomes of the handler, once the identity has been read.\<close>

lemma prepare_with_cases:
  assumes "prepare_with w tid dir eid rf d t s = Some (s', r)"
  defines "keys \<equiv> stream_keys eid d" and "base \<equiv> base_fields eid t d"
  obtains (raised) e where "r = Inl e" "pub no_failure s s'"
    | (failed) s1 s2 where "pub no_failure s s1" "wk_extracted s1 = wk_extracted s"
        "receive_workspace w (events_key keys) base dir (publish_log w (log_key keys) base) rf s1 = Some (s2, Inr False)"
        "wk_prepared s' = wk_prepared s"
        "(\<forall>n. redis_up w n) \<Longrightarrow> r = Inr () \<and> wk_removed s' = wk_removed s @ [dir]
           \<and> (status_key keys, base(''type'' \<mapsto> ''STATUS'', ''status'' \<mapsto> ''TRANSFER_FAILED'')) \<in> set (wk_sent s')"
    | (got) s1 s2 where "pub no_failure s s1" "wk_extracted s1 = wk_extracted s"
        "receive_workspace w (events_key keys) base dir (publish_log w (log_key keys) base) rf s1 = Some (s2, Inr True)"
        "wk_prepared s' = (wk_prepared s)(tid \<mapsto> dir)" "wk_extracted s' = wk_extracted s2" "wk_removed s' = wk_removed s"
proof -
  let ?log = "publish_log w (log_key keys) base"
  obtain s1 r1 where first: "wbind (xadd_entry w GLOBAL_EXECUTION_EVENTS_STREAM (announce_msg eid keys) s)
      (\<lambda>_. publish_status w (status_key keys) base ''TRANSFERRING_INPUT'') = (s1, r1)" by fastforce
  have "pub no_failure s (fst (xadd_entry w GLOBAL_EXECUTION_EVENTS_STREAM (announce_msg eid keys) s))"
    by (rule pub_xadd) (simp add: no_failure_def announce_msg_def)
  then have "pub no_failure s (fst (s1, r1))"
    unfolding first [symmetric] by (rule pub_wbind) (rule pub_status, simp add: no_failure_def)
  then have p1: "pub no_failure s s1" by simp
  have x1: "wk_extracted s1 = wk_extracted s"
    using first by (auto simp: wbind_def publish_status_def xadd_entry_def Let_def split: if_splits)
  note step = assms(1) [unfolded prepare_with_def Let_def, folded keys_def base_def, unfolded first]
  show thesis
  proof (cases r1)
    case (Inl e)
    with step have "r = Inl e" "s' = s1" by simp_all
    with p1 show thesis using raised by simp
  next
    case (Inr u)
    obtain s2 r2 where recv: "receive_workspace w (events_key keys) base dir ?log rf s1 = Some (s2, r2)"
      using step Inr by (cases "receive_workspace w (events_key keys) base dir ?log rf s1") auto
    have p2: "pub no_failure s s2"
      using pub_trans [OF p1 receive_no_failure] recv base_def by blast
    consider e where "r2 = Inl e" | "r2 = Inr False" | "r2 = Inr True" by (cases r2) auto
    then show thesis
    proof cases
      case 1
      with step recv Inr have "r = Inl e" "s' = s2" by simp_all
      with p2 show thesis using raised by simp
    next
      case 2
      have fin: "wbind (publish_status w (status_key keys) base ''TRANSFER_FAILED'' s2) (\<lambda>_ s3.
          wbind (?log ''workspace transfer failed after max retries; giving up'' s3) (\<lambda>_ s4.
            (s4\<lparr>wk_removed := wk_removed s4 @ [dir]\<rparr>, Inr ()))) = (s', r)"
        using step recv 2 Inr by simp
      then have "wk_prepared s' = wk_prepared s2" "(\<forall>n. redis_up w n) \<Longrightarrow> r = Inr () \<and> wk_removed s' = wk_removed s2 @ [dir]
           \<and> (status_key keys, base(''type'' \<mapsto> ''STATUS'', ''status'' \<mapsto> ''TRANSFER_FAILED'')) \<in> set (wk_sent s')"
        by (auto simp: wbind_def publish_log_def publish_status_def xadd_entry_def Let_def split: if_splits)
      with failed [OF p1 x1] recv 2 p2 show thesis by (simp add: pub_def)
    next
      case 3
      let ?s3 = "s2\<lparr>wk_prepared := (wk_prepared s2)(tid \<mapsto> dir)\<rparr>"
      have mir: "mirror_to_temp_workspace w eid ?log ?s3 = (s', r)"
        using step recv 3 Inr by simp
      have "pub (\<lambda>_. True) ?s3 (fst (mirror_to_temp_workspace w eid ?log ?s3))"
        by (rule mirror_pub) (simp add: pub_log)
      then have "wk_prepared s' = (wk_prepared s)(tid \<mapsto> dir)" "wk_removed s' = wk_removed s"
        using mir p2 by (simp_all add: pub_def)
      moreover have "wk_extracted s' = wk_extracted s2"
        using mir by (auto simp: mirror_to_temp_workspace_def Let_def wbind_def dest!: log_extracted
            split: prod.splits sum.splits exn.splits)
      ultimately show thesis using got [OF p1 x1] recv 3 by simp
    qed
  qed
qed

lemma attempt_announced:
  assumes "attempt w n from_id = Some (Inr (data, lid, tr))"
  shows "announced (msg_fields ` set (poll_msgs (ae_polls (attempt_of w n)))) tr
    (Some (int (length data))) (Some (sha256_bytes data))"
proof -
  let ?a = "attempt_of w n"
  have "receive_loop (wait_timeout w) (rx_init (wait_timeout w) (ae_now ?a) from_id) (ae_polls ?a) = Return data lid tr"
    using assms by (auto simp: attempt_def receive_once_def Let_def split: rx_out.splits option.splits)
  then show ?thesis
    by (rule receive_loop_Return [rotated 2]) (simp_all add: rx_explained_def rx_init_def)
qed

lemma prepare_execution_cases:
  assumes "prepare_execution w tid dir args kwargs s = Some (s', r)"
  obtains (skipped) "s' = s"
    | (prepared) eid rf d t idn where "prepare_with w tid dir eid rf d t s = Some (s', r)" "identity w = Inr idn"
        "idn ''delegate_id'' = Some d" "idn ''tenant_id'' = Some t"
        "eid = (case args of a # _ \<Rightarrow> a | [] \<Rightarrow> field_or kwargs ''execution_id'' [])"
  using assms
  by (auto simp: prepare_execution_def Let_def ebind_eq_Inr split: if_splits sum.splits prod.splits)

text \<open>C17: The task only ever runs on a validated workspace. If the handler leaves a directory for a
  task that had none, then some attempt, within the retry limit, returned bytes with the size
  and SHA-256 checksum of a DATA_START among the messages it read, and their ZIP entries are
  what was extracted, once, into that directory.\<close>

theorem prepared_workspace_validated:
  assumes "prepare_execution w tid dir args kwargs s = Some (s', r)"
    and "wk_prepared s tid = None" and "wk_prepared s' tid = Some dir'"
  shows "dir' = dir \<and> wk_removed s' = wk_removed s
    \<and> (\<exists>n id data lid tr es. n \<in> {1..TRANSFER_MAX_RETRIES w} \<and> attempt w n id = Some (Inr (data, lid, tr))
        \<and> announced (msg_fields ` set (poll_msgs (ae_polls (attempt_of w n)))) tr
             (Some (int (length data))) (Some (sha256_bytes data))
        \<and> extract_zip_bytes (w_host w) data = Inr es \<and> wk_extracted s' = wk_extracted s @ [(dir, es)])"
  using assms(1)
proof (cases rule: prepare_execution_cases)
  case skipped
  with assms show ?thesis by simp
next
  case (prepared eid rf d t idn)
  from prepared(1) show ?thesis
  proof (cases rule: prepare_with_cases)
    case (raised e)
    with assms show ?thesis by (simp add: pub_def)
  next
    case (failed s1 s2)
    with assms show ?thesis by simp
  next
    case (got s1 s2)
    note facts = receive_attempts_facts [OF got(3) [unfolded receive_workspace_def]]
    obtain i from_id data lid tr es where i: "1 \<le> i" "i < 1 + TRANSFER_MAX_RETRIES w"
      "attempt w i from_id = Some (Inr (data, lid, tr))" "extract_zip_bytes (w_host w) data = Inr es"
      "wk_extracted s2 = wk_extracted s1 @ [(dir, es)]"
      using facts by blast
    show ?thesis
      using i got assms(3) attempt_announced [OF i(3)]
      by (intro conjI exI [of _ i] exI [of _ from_id] exI [of _ data] exI [of _ lid] exI [of _ tr] exI [of _ es]) auto
  qed
qed

text \<open>C36: Which failures are reported. Redis answers every XADD, and the handler leaves no workspace
  for the execution. If it returned, the transfer had failed: TRANSFER_FAILED is on the status
  stream and the directory is removed. If it raised (a message it cannot parse, a corrupt ZIP),
  nothing of the kind is published and no directory is removed. Either way the task then
  does nothing at all, and says nothing.\<close>

theorem prepare_failure_reporting:
  assumes "\<forall>n. redis_up w n" and "wk_prepared s tid = None" and "wk_prepared s' tid = None"
    and "prepare_execution w tid dir (eid # rest) kwargs s = Some (s', r)" and "eid \<noteq> []"
  shows "(r = Inr () \<longrightarrow> wk_removed s' = wk_removed s @ [dir]
           \<and> (\<exists>d f. (status_key (stream_keys eid d), f) \<in> set (wk_sent s') \<and> f ''status'' = Some ''TRANSFER_FAILED''))
    \<and> (r \<noteq> Inr () \<longrightarrow> wk_removed s' = wk_removed s
           \<and> (\<exists>new. wk_sent s' = wk_sent s @ new \<and> (\<forall>x \<in> set new. snd x ''status'' \<noteq> Some ''TRANSFER_FAILED'')))
    \<and> execute_task w tid nt out eid s' = (s', Inr ())"
proof (cases "\<exists>d t idn. identity w = Inr idn \<and> idn ''delegate_id'' = Some d \<and> idn ''tenant_id'' = Some t")
  case False
  then have "s' = s \<and> r \<noteq> Inr ()"
    using assms(4,5) by (auto simp: prepare_execution_def Let_def field_req_def ebind_def split: sum.splits prod.splits option.splits)
  with assms(2) show ?thesis by (simp add: execute_task_def)
next
  case True
  then obtain d t where with_id:
    "prepare_with w tid dir eid (case rest of b # _ \<Rightarrow> b | [] \<Rightarrow> field_or kwargs ''file_name'' ''*'') d t s = Some (s', r)"
    using assms(4,5) by (auto simp: prepare_execution_def Let_def split: list.splits)
  then show ?thesis
  proof (cases rule: prepare_with_cases)
    case (raised e)
    with assms(3) show ?thesis by (simp add: pub_def no_failure_def execute_task_def)
  next
    case (failed s1 s2)
    from failed(5) [OF assms(1)] assms(3) show ?thesis
      by (auto simp: execute_task_def intro!: exI [of _ d])
  next
    case (got s1 s2)
    with assms(3) show ?thesis by simp
  qed
qed

section \<open>Examples\<close>

lemma receive_workspace_retries_witness:
  "\<exists>s'. receive_workspace (silent sample_wenv) ''e'' Map.empty ''dir'' (publish_log (silent sample_wenv) ''l'' Map.empty) ''*'' wk_init
      = Some (s', Inr False) \<and> data_requests ''e'' s' = 2"
proof -
  obtain s' where run: "receive_workspace (silent sample_wenv) ''e'' Map.empty ''dir''
      (publish_log (silent sample_wenv) ''l'' Map.empty) ''*'' wk_init = Some (s', Inr False)"
    by (simp add: worker_run resume_from_def)
  have "data_requests ''e'' wk_init = 0" by (simp add: data_requests_def wk_init_def)
  with receive_workspace_retries [OF run] run show ?thesis by simp
qed

lemma prepare_execution_returns_witness:
  "\<exists>s' r. prepare_execution (silent sample_wenv) ''task'' ''dir'' [''e''] Map.empty wk_init = Some (s', r)"
  by (rule prepare_execution_returns) (simp add: polled_late_def silent_def sample_wenv_def Let_def)

lemma sample_prepare:
  "\<exists>s'. prepare_execution sample_wenv ''task'' ''dir'' [''e''] Map.empty wk_init = Some (s', Inr ())
     \<and> wk_prepared s' ''task'' = Some ''dir''"
  by (simp add: worker_run sample_attempt)

lemma prepared_workspace_validated_witness:
  "\<exists>s'. prepare_execution sample_wenv ''task'' ''dir'' [''e''] Map.empty wk_init = Some (s', Inr ())
     \<and> wk_prepared s' ''task'' = Some ''dir''
     \<and> (\<exists>n from_id data lid tr. n \<in> {1..2} \<and> attempt sample_wenv n from_id = Some (Inr (data, lid, tr)))"
proof -
  obtain s' where run: "prepare_execution sample_wenv ''task'' ''dir'' [''e''] Map.empty wk_init = Some (s', Inr ())"
    and prep: "wk_prepared s' ''task'' = Some ''dir''"
    using sample_prepare by blast
  have "wk_prepared wk_init ''task'' = None" by (simp add: wk_init_def)
  from prepared_workspace_validated [OF run this prep] run prep show ?thesis by fastforce
qed

lemma prepare_failure_reporting_witness:
  "\<exists>s'. prepare_execution (corrupt sample_wenv) ''task'' ''dir'' [''e''] Map.empty wk_init
      = Some (s', Inl (OtherError ''BadZipFile''))
    \<and> wk_removed s' = [] \<and> (\<forall>x \<in> set (wk_sent s'). snd x ''status'' \<noteq> Some ''TRANSFER_FAILED'')
    \<and> execute_task (corrupt sample_wenv) ''task'' ''x'' ''out'' ''e'' s' = (s', Inr ())"
proof -
  obtain s' where run: "prepare_execution (corrupt sample_wenv) ''task'' ''dir'' [''e''] Map.empty wk_init
      = Some (s', Inl (OtherError ''BadZipFile''))" and prep: "wk_prepared s' ''task'' = None"
    by (simp add: worker_run sample_attempt wk_init_def)
  have "\<forall>n. redis_up (corrupt sample_wenv) n" "wk_prepared wk_init ''task'' = None"
    by (simp_all add: wk_init_def)
  from prepare_failure_reporting [OF this prep run] run show ?thesis
    by (auto simp: wk_init_def)
qed

end
