(* ===== verification/AclFacts.thy ===== *)
theory AclFacts
  imports System PrepareFacts
begin

text \<open>
  Access to Redis over whole runs of the control plane: an active delegate always has its ACL
  user, with exactly a delegate's rules, also when commands fail half-way; and these rules
  are wide enough for everything a worker of that delegate does.
\<close>

section \<open>Commands that may fail half-way\<close>

lemma del_users_other:
  assumes "acl_laws srv" and "u \<notin> set us"
  shows "acl_table srv (fst (del_users srv us r)) u = acl_table srv r u"
  using assms(2)
proof (induction us arbitrary: r)
  case Nil
  then show ?case by simp
next
  case (Cons v us)
  show ?case
  proof (cases "acl_deluser srv v r")
    case (Inl e)
    then show ?thesis by simp
  next
    case (Inr nr)
    obtain n r1 where nr: "nr = (n, r1)" by fastforce
    with Inr have "acl_table srv r1 u = acl_table srv r u"
      using acl_lawsD(2) [OF assms(1)] Cons.prems by (metis fun_upd_other list.set_intros(1))
    with Cons Inr nr show ?thesis by simp
  qed
qed

lemma set_users_either:
  assumes "acl_laws srv"
  shows "acl_table srv (fst (set_users srv pw us r)) u \<in> {acl_table srv r u, Some (acl_rules_for (pw u) u)}"
proof (induction us arbitrary: r)
  case Nil
  then show ?case by simp
next
  case (Cons v us)
  show ?case
  proof (cases "acl_setuser srv v (acl_rules_for (pw v) v) r")
    case (Inl e)
    then show ?thesis by simp
  next
    case (Inr r1)
    then have "acl_table srv r1 = (acl_table srv r)(v \<mapsto> acl_rules_for (pw v) v)"
      by (rule setuser_table [OF assms])
    with Cons [of r1] Inr show ?thesis by (auto split: if_splits)
  qed
qed

lemma reconcile_either:
  assumes "acl_laws srv" and "u \<in> set ids"
  shows "acl_table srv (fst (reconcile srv pw ids r)) (uuid_str u)
    \<in> {acl_table srv r (uuid_str u), Some (acl_rules_for (pw (uuid_str u)) (uuid_str u))}"
proof (cases "acl_users srv r")
  case (Inl e)
  then show ?thesis by (simp add: reconcile_def Let_def)
next
  case (Inr us)
  let ?stale = "filter (\<lambda>u. u \<notin> set (map uuid_str ids)) (filter is_delegate_user us)"
  obtain r1 x1 where del: "del_users srv ?stale r = (r1, x1)" by fastforce
  have t1: "acl_table srv r1 (uuid_str u) = acl_table srv r (uuid_str u)"
    using del_users_other [OF assms(1), of "uuid_str u" ?stale r] del assms(2) by simp
  obtain r2 x2 where set: "set_users srv pw (map uuid_str ids) r1 = (r2, x2)" by fastforce
  have t2: "acl_table srv r2 (uuid_str u) \<in> {acl_table srv r1 (uuid_str u), Some (acl_rules_for (pw (uuid_str u)) (uuid_str u))}"
    using set_users_either [OF assms(1), of pw "map uuid_str ids" r1 "uuid_str u"] set by simp
  show ?thesis
    using t1 t2 del set Inr
    by (cases x1; cases x2) (auto simp: reconcile_def Let_def save_table [OF assms(1)])
qed

section \<open>Active delegates have their user\<close>

definition has_access :: "'r acl_server \<Rightarrow> 'r \<Rightarrow> uuid \<Rightarrow> bool" where
  "has_access srv r u \<longleftrightarrow> (\<exists>pw. acl_table srv r (uuid_str u) = Some (acl_rules_for pw (uuid_str u)))"

definition access_ok :: "'r acl_server \<Rightarrow> db \<Rightarrow> 'r \<Rightarrow> bool" where
  "access_ok srv d r \<longleftrightarrow>
     delegates_wf d \<and> (\<forall>u row. find_delegate d u = Some row \<and> d_status row = STATUS_ACTIVE \<longrightarrow> has_access srv r u)"

lemma access_ok_same:
  "access_ok srv d r \<Longrightarrow> delegates d' = delegates d \<Longrightarrow> access_ok srv d' r"
  by (simp add: access_ok_def delegates_wf_def find_delegate_def)

lemma access_ok_provision:
  assumes "acl_laws srv" and "access_ok srv d r" and "provision_delegate srv pw u r = Inr r'"
  shows "access_ok srv d r'"
  using assms(2) provision_table [OF assms(1,3)]
  by (auto simp: access_ok_def has_access_def)

lemma access_ok_enrol:
  assumes "acl_laws srv" and "access_ok srv d r" and "provision_delegate srv pw u r = Inr r'"
    and "delegates d' = AList.update u row (delegates d)"
  shows "access_ok srv d' r'"
  unfolding access_ok_def
proof (intro conjI allI impI)
  show "delegates_wf d'"
    using assms(2,4) by (simp add: access_ok_def delegates_wf_def distinct_update)
  fix v row'
  assume "find_delegate d' v = Some row' \<and> d_status row' = STATUS_ACTIVE"
  then have "v = u \<or> has_access srv r v"
    using assms(2) find_update [OF assms(4)] by (auto simp: access_ok_def split: if_splits)
  then show "has_access srv r' v"
    using provision_table [OF assms(1,3)] by (auto simp: has_access_def)
qed

lemma register_acl:
  assumes "register_delegate w now rr req s = (s', out)"
  shows "(delegates (cp_db s') = delegates (cp_db s)
      \<and> (cp_acl s' = cp_acl s \<or> provision_delegate (web_acl w) (rr_password rr) (rr_delegate_id rr) (cp_acl s) = Inr (cp_acl s')))
    \<or> (\<exists>row. delegates (cp_db s') = AList.update (rr_delegate_id rr) row (delegates (cp_db s))
      \<and> provision_delegate (web_acl w) (rr_password rr) (rr_delegate_id rr) (cp_acl s) = Inr (cp_acl s'))"
  using assms
proof (cases rule: register_delegate_cases)
  case early
  then show ?thesis by simp
next
  case (checked body tok tenant csr_json)
  from checked(4) show ?thesis
  proof (cases rule: register_checked_cases)
    case (committed fs cert_pem serial na acl row)
    obtain t where "tokens (cp_db s) tok = Some t"
      using token_problem_None [OF committed(1)] by blast
    with register_commit_state [OF committed(6) [symmetric], of t] committed(3) show ?thesis by auto
  qed (auto simp: same_core_def)
qed

lemma revoke_acl:
  assumes "revoke_delegate w gateway req u s = (s', out)" and "acl_laws (web_acl w)"
  shows "s' = s \<or> ((\<exists>row. delegates (cp_db s') = AList.update u (row\<lparr>d_status := STATUS_REVOKED\<rparr>) (delegates (cp_db s)))
    \<and> (\<forall>v. v \<noteq> uuid_str u \<longrightarrow> acl_table (web_acl w) (cp_acl s') v = acl_table (web_acl w) (cp_acl s) v))"
proof -
  have del: "acl_table (web_acl w) r v = acl_table (web_acl w) (cp_acl s) v"
    if "revoke_delegate_acl (web_acl w) u (cp_acl s) = Inr (n, r)" "v \<noteq> uuid_str u" for n r v
    using that assms(2) acl_lawsD(2) [OF assms(2)] by (auto simp: revoke_delegate_acl_def ebind_eq_Inr)
  show ?thesis
    using assms(1) del
    by (auto simp: revoke_delegate_def require_http_method_def Let_def audit_def put_delegate_def
        split: if_splits option.splits sum.splits prod.splits)
qed

lemma access_ok_revoke:
  assumes "access_ok srv d r" and "delegates d' = AList.update u (row\<lparr>d_status := STATUS_REVOKED\<rparr>) (delegates d)"
    and "\<forall>v. v \<noteq> uuid_str u \<longrightarrow> acl_table srv r' v = acl_table srv r v"
  shows "access_ok srv d' r'"
  unfolding access_ok_def
proof (intro conjI allI impI)
  show "delegates_wf d'"
    using assms(1,2) by (simp add: access_ok_def delegates_wf_def distinct_update)
  fix v row'
  assume "find_delegate d' v = Some row' \<and> d_status row' = STATUS_ACTIVE"
  then have "v \<noteq> u \<and> has_access srv r v"
    using assms(1) find_update [OF assms(2)] by (auto simp: access_ok_def split: if_splits)
  then show "has_access srv r' v" using assms(3) by (simp add: has_access_def)
qed

lemma serve_access:
  assumes "\<forall>rest. resolve path \<noteq> Some (ADMIN rest)" and "serve w i path req s = (s', out)"
    and "acl_laws (web_acl w)" and ok: "access_ok (web_acl w) (cp_db s) (cp_acl s)"
  shows "access_ok (web_acl w) (cp_db s') (cp_acl s')"
proof (cases "resolve path")
  case None
  with assms show ?thesis by (simp add: serve_def)
next
  case (Some rt)
  show ?thesis
  proof (cases rt)
    case (ADMIN rest)
    with assms(1) Some show ?thesis by simp
  next
    case ISSUE_TOKEN
    with assms(2) Some have "issue_registration_token w (in_now i) (in_token i) req s = (s', out)"
      by (simp add: serve_def)
    then show ?thesis by (cases rule: issue_cases) (use ok access_ok_same in auto)
  next
    case REGISTER
    with assms(2) Some have "register_delegate w (in_now i) (in_random i) req s = (s', out)"
      by (simp add: serve_def)
    from register_acl [OF this] show ?thesis
      using ok access_ok_same access_ok_provision [OF assms(3)] access_ok_enrol [OF assms(3) ok] by metis
  next
    case (REVOKE u)
    with assms(2) Some have "revoke_delegate w (in_gateway i) req u s = (s', out)"
      by (simp add: serve_def)
    from revoke_acl [OF this assms(3)] show ?thesis using ok access_ok_revoke by metis
  next
    case CREATE_EXECUTION
    with assms(2) Some have "create_execution w (in_execution_id i) (in_broker i) req s = (s', out)"
      by (simp add: serve_def)
    from create_db [OF this] show ?thesis using ok access_ok_same by metis
  next
    case (EXECUTION_STATUS e)
    with assms(2) Some views_same(1) [of req e s] ok show ?thesis by (simp add: serve_def)
  next
    case AUDIT_EVENTS
    with assms(2) Some views_same(2) [of req s] ok show ?thesis by (simp add: serve_def)
  qed
qed

lemma sys_step_access:
  assumes "sys_step w c s s'" and "acl_laws (web_acl w)" and "access_ok (web_acl w) (sys_db s) (cp_acl (sy_cp s))"
  shows "access_ok (web_acl w) (sys_db s') (cp_acl (sy_cp s'))"
proof -
  have keep: "access_ok (web_acl w) (sys_db (put_ds t s)) (cp_acl (sy_cp (put_ds t s)))"
    if "db_keeps (sys_db s) (ds_db t)" for t
    using access_ok_same [OF assms(3)] that by (simp add: db_keeps_def) (simp add: put_ds_def)
  show ?thesis
    using assms(1)
  proof cases
    case (request path i req cp' out)
    from serve_access [OF request(2,3) assms(2)] assms(3) show ?thesis by (simp add: request(1) sys_db_def)
  next
    case (message eid u keys k m wt t wt' r)
    show ?thesis unfolding message(1) by (rule keep) (use watch_message_keeps [OF message(3)] in simp)
  next
    case (finished eid keys)
    show ?thesis unfolding finished by (rule keep) (use cleanup_keeps [of "ds_of s"] in simp)
  next
    case (timed_out eid keys life)
    show ?thesis unfolding timed_out by (rule keep) (use give_up_keeps [of "ds_of s"] in simp)
  next
    case (announce text_of am mn t mn' r)
    show ?thesis unfolding announce(1) by (rule keep) (use announcement_keeps [OF announce(2)] in simp)
  next
    case (reconcile pw acl res)
    have "has_access (web_acl w) acl u"
      if "find_delegate (sys_db s) u = Some row" "d_status row = STATUS_ACTIVE" for u row
    proof -
      have "u \<in> set (active_ids (sys_db s))"
        using that assms(3) active_ids_iff [of "sys_db s" u] by (auto simp: access_ok_def)
      from reconcile_either [OF assms(2) this, of pw "cp_acl (sy_cp s)"] reconcile(2) assms(3) that
      show ?thesis by (auto simp: reconcile_acls_def access_ok_def has_access_def)
    qed
    with assms(3) show ?thesis by (simp add: reconcile(1) access_ok_def sys_db_def)
  next
    case (restarted did del)
    with assms(3) access_ok_same [OF assms(3)] show ?thesis
      by (cases del) (simp add: sys_db_def gw_audit_def)
  qed
qed

interpretation access_inv: invariant_of "sys_step w c"
    "\<lambda>s. acl_laws (web_acl w) \<and> access_ok (web_acl w) (sys_db s) (cp_acl (sy_cp s))" for w c
  by unfold_locales (use sys_step_access in blast)


text \<open>A reconciliation is one step there. In the code it reads the active ids first and works on Redis
  afterwards; a registration in between is undone: it was answered 200, the delegate is
  active, and its ACL user is gone, until the next reconciliation.\<close>

theorem reconcile_race:
  assumes "acl_laws (web_acl w)" and "register_delegate w now rr req s = (s1, Inr resp)" and "resp_status resp = 200"
    and "reconcile_acls (web_acl w) pw (cp_db s) (cp_acl s1) = (acl, Inr rep)"
  shows "(\<exists>row. find_delegate (cp_db s1) (rr_delegate_id rr) = Some row \<and> d_status row = STATUS_ACTIVE)
    \<and> acl_table (web_acl w) acl (uuid_str (rr_delegate_id rr)) = None"
  using assms(2)
proof (cases rule: register_delegate_cases)
  case early
  with assms(3) show ?thesis by simp
next
  case (checked body tok tenant csr_json)
  from checked(4) show ?thesis
  proof (cases rule: register_checked_cases)
    case (committed fs cert_pem serial na acl1 row)
    obtain t where "tokens (cp_db s) tok = Some t"
      using token_problem_None [OF committed(1)] by blast
    note commit = register_commit_state [OF committed(6) [symmetric], of t, simplified, OF this]
    have "rr_delegate_id rr \<notin> set (active_ids (cp_db s))"
      using committed(5) by (force simp: active_ids_def find_delegate_def map_of_eq_None_iff)
    then have "uuid_str (rr_delegate_id rr) \<notin> uuid_str ` set (active_ids (cp_db s))"
      by (auto simp: uuid_str_inject)
    with reconcile_table [OF assms(1) assms(4) [unfolded reconcile_acls_def]]
    have gone: "acl_table (web_acl w) acl (uuid_str (rr_delegate_id rr)) = None" by simp
    have "d_status row = STATUS_ACTIVE" using committed(4) by (auto simp: delegate_row_def ebind_eq_Inr split: if_splits)
    with commit gone show ?thesis by (auto simp: find_delegate_def update_conv')
  qed (use assms(3) in auto)
qed

section \<open>The rules are wide enough for the worker\<close>

text \<open>The other half of how Redis reads key rules: a key that a pattern of the user matches is
  permitted.\<close>

definition grant_law :: "(string list \<Rightarrow> bool \<Rightarrow> string \<Rightarrow> bool) \<Rightarrow> (string \<Rightarrow> string \<Rightarrow> bool) \<Rightarrow> bool" where
  "grant_law permits glob \<longleftrightarrow> (\<forall>rules wr k.
     (\<exists>p. CHR ''~'' # p \<in> set rules \<and> glob p k) \<or> (wr \<and> (\<exists>p. ''%W~'' @ p \<in> set rules \<and> glob p k)) \<longrightarrow> permits rules wr k)"

lemma own_keys_permitted:
  assumes "glob_law glob" and "grant_law permits glob"
  shows "prefix (delegate_prefix (uuid_str u)) k \<Longrightarrow> permits (acl_rules_for pw (uuid_str u)) wr k"
    and "permits (acl_rules_for pw (uuid_str u)) True GLOBAL_EXECUTION_EVENTS_STREAM"
proof -
  have rules: "CHR ''~'' # (delegate_prefix (uuid_str u) @ ''*'') \<in> set (acl_rules_for pw (uuid_str u))"
    "''%W~'' @ GLOBAL_EXECUTION_EVENTS_STREAM \<in> set (acl_rules_for pw (uuid_str u))"
    by (simp_all add: acl_rules_for_def Let_def)
  have "glob (delegate_prefix (uuid_str u) @ ''*'') k" if "prefix (delegate_prefix (uuid_str u)) k"
    using assms(1) plain_delegate_prefix that by (simp add: glob_law_def)
  with rules(1) assms(2) show "prefix (delegate_prefix (uuid_str u)) k \<Longrightarrow> permits (acl_rules_for pw (uuid_str u)) wr k"
    unfolding grant_law_def by blast
  have "glob GLOBAL_EXECUTION_EVENTS_STREAM GLOBAL_EXECUTION_EVENTS_STREAM"
    using assms(1) plain_global by (simp add: glob_law_def)
  with rules(2) assms(2) show "permits (acl_rules_for pw (uuid_str u)) True GLOBAL_EXECUTION_EVENTS_STREAM"
    unfolding grant_law_def by blast
qed

lemma execute_task_wrote:
  assumes "identity w = Inr idn" and "idn ''delegate_id'' = Some d"
  shows "wrote (\<lambda>x. fst x \<in> set (key_values (stream_keys eid d))) s (fst (execute_task w tid nt out eid s))"
proof (cases "wk_prepared s tid = None \<or> idn ''tenant_id'' = None")
  case True
  with assms show ?thesis
    by (auto simp: execute_task_def Let_def field_req_None wrote_def split: option.splits)
next
  case False
  then obtain dir t where ok: "wk_prepared s tid = Some dir" "idn ''tenant_id'' = Some t" by auto
  let ?keys = "stream_keys eid d" and ?base = "base_fields eid t d"
  let ?s = "s\<lparr>wk_prepared := (wk_prepared s)(tid := None)\<rparr>"
  obtain s1 r1 where try1: "task_try w nt dir out ?keys ?base ?s = (s1, r1)" by fastforce
  have "pub (\<lambda>x. fst x \<in> set (key_values ?keys)) ?s (fst (task_try w nt dir out ?keys ?base ?s))"
    by (rule task_try_pub) (rule key_values_distinct)
  then have "pub (\<lambda>x. fst x \<in> set (key_values ?keys)) ?s s1" by (simp add: try1)
  then have w1: "wrote (\<lambda>x. fst x \<in> set (key_values ?keys)) s s1" by (auto simp: pub_def wrote_def)
  show ?thesis
  proof (cases r1)
    case (Inr x)
    with try1 ok assms w1 show ?thesis by (simp add: execute_task_def Let_def wrote_def)
  next
    case (Inl e)
    let ?rep = "wbind (publish_log w (log_key ?keys) ?base (''task failed with exception: '' @ exn_text e) s1) (\<lambda>_ s2.
        wbind (publish_status w (status_key ?keys) ?base ''TASK_FAILED'' s2) (\<lambda>_ s3. (s3, Inl e)))"
    obtain s2 and r2 :: "unit result" where rep: "?rep = (s2, r2)" by fastforce
    have "wrote (\<lambda>x. fst x \<in> set (key_values ?keys)) s1 s2"
      using report_failure(4) [OF rep] by (force simp: wrote_def key_values_def)
    with w1 have "wrote (\<lambda>x. fst x \<in> set (key_values ?keys)) s s2" by (rule wrote_trans)
    moreover have "fst (execute_task w tid nt out eid s) = s2\<lparr>wk_removed := wk_removed s2 @ [dir, out]\<rparr>"
      using try1 ok assms Inl rep by (simp add: execute_task_def Let_def)
    ultimately show ?thesis by (simp add: wrote_def)
  qed
qed


lemma rule_permits_grant: "grant_law rule_permits star_glob"
  unfolding grant_law_def
proof (intro allI impI)
  fix rules wr k
  assume "(\<exists>p. CHR ''~'' # p \<in> set rules \<and> star_glob p k) \<or> (wr \<and> (\<exists>p. ''%W~'' @ p \<in> set rules \<and> star_glob p k))"
  then consider p where "CHR ''~'' # p \<in> set rules" "star_glob p k" | p where "wr" "''%W~'' @ p \<in> set rules" "star_glob p k"
    by blast
  then show "rule_permits rules wr k"
  proof cases
    case (1 p)
    then show ?thesis unfolding rule_permits_def by (intro bexI [of _ "CHR ''~'' # p"]) simp_all
  next
    case (2 p)
    then show ?thesis unfolding rule_permits_def by (intro bexI [of _ "''%W~'' @ p"]) simp_all
  qed
qed


end
