(* ===== verification/Runs.thy ===== *)
theory Runs
  imports AclFacts
begin

text \<open>
  Concrete runs of the control plane: a token is issued and used, a delegate is revoked, an
  execution is created and its output stored. They show that the hypotheses of the theorems
  on whole runs can hold, and the theorems are applied to them.
\<close>

section \<open>A delegate is onboarded\<close>

definition blank_sys :: "(string \<times> string list) list sys" where
  "blank_sys =
     \<lparr>sy_cp = \<lparr>cp_db = empty_db, cp_acl = [], cp_ca = Map.empty, cp_clients = Map.empty, cp_tasks = []\<rparr>,
      sy_files = Map.empty, sy_sent = [], sy_deleted = []\<rparr>"

definition sample_inputs :: "int \<Rightarrow> (string \<times> string list) list inputs" where
  "sample_inputs now =
     \<lparr>in_now = now, in_token = ''t'', in_random = sample_random, in_execution_id = 9, in_broker = Inr (),
      in_gateway = Inr JNull, in_admin = (\<lambda>_ _ s. (s, Inr (json_response 200 [])))\<rparr>"

abbreviation onboarding_web :: "(string \<times> string list) list web" where
  "onboarding_web \<equiv> sample_web (JObj sample_body)"

lemma resolve_paths [simp]:
  "resolve ''/api/registration-token/'' = Some ISSUE_TOKEN" "resolve ''/api/register/'' = Some REGISTER"
  "resolve ''/api/executions/'' = Some CREATE_EXECUTION"
  using resolve_url [of ISSUE_TOKEN] resolve_url [of REGISTER] resolve_url [of CREATE_EXECUTION] by simp_all

definition issued_cp :: "(string \<times> string list) list cp" where
  "issued_cp = fst (issue_registration_token onboarding_web 0 ''t'' post (sy_cp blank_sys))"

lemma issued_cp_facts:
  "\<exists>resp. issue_registration_token onboarding_web 0 ''t'' post (sy_cp blank_sys) = (issued_cp, Inr resp)"
  "token_problem (cp_db issued_cp) 10 ''t'' (JStr ''acme'') = None" "find_delegate (cp_db issued_cp) 5 = None"
  "cp_ca issued_cp = Map.empty" "cp_acl issued_cp = []"
  by (simp_all add: issued_cp_def issue_registration_token_def require_http_method_def Let_def blank_sys_def
      sample_body_def sample_web_def json_body_def post_def empty_db_def
      token_problem_def find_delegate_def audit_def)

lemma issue_step: "sys_step onboarding_web c blank_sys (blank_sys\<lparr>sy_cp := issued_cp\<rparr>)"
proof -
  obtain resp where "issue_registration_token onboarding_web 0 ''t'' post (sy_cp blank_sys) = (issued_cp, Inr resp)"
    using issued_cp_facts(1) by blast
  then have "serve onboarding_web (sample_inputs 0) ''/api/registration-token/'' post (sy_cp blank_sys) = (issued_cp, Inr resp)"
    by (simp add: serve_def sample_inputs_def)
  from sys_step.request [OF _ this] show ?thesis by simp
qed

definition enrolled_sys :: "(string \<times> string list) list sys" where
  "enrolled_sys = blank_sys\<lparr>sy_cp := fst (register_delegate onboarding_web 10 sample_random post issued_cp)\<rparr>"

lemma enrolled:
  obtains resp row where "register_delegate onboarding_web 10 sample_random post issued_cp = (sy_cp enrolled_sys, Inr resp)"
    "resp_status resp = 200" "find_delegate (sys_db enrolled_sys) 5 = Some row" "d_status row = STATUS_ACTIVE"
  using sample_register_in [OF issued_cp_facts(4,5,3,2)] by (auto simp: enrolled_sys_def sys_db_def)

lemma enrol_step: "sys_step onboarding_web c (blank_sys\<lparr>sy_cp := issued_cp\<rparr>) enrolled_sys"
proof -
  obtain resp row where "register_delegate onboarding_web 10 sample_random post issued_cp = (sy_cp enrolled_sys, Inr resp)"
    by (rule enrolled)
  then have "serve onboarding_web (sample_inputs 10) ''/api/register/'' post issued_cp = (sy_cp enrolled_sys, Inr resp)"
    by (simp add: serve_def sample_inputs_def)
  with sys_step.request [where s = "blank_sys\<lparr>sy_cp := issued_cp\<rparr>" and path = "''/api/register/''" and req = post
      and w = onboarding_web and i = "sample_inputs 10"]
  show ?thesis by (simp add: enrolled_sys_def)
qed

lemma onboarding: "rtranclp (sys_step onboarding_web c) blank_sys enrolled_sys"
  using issue_step enrol_step by (meson rtranclp.rtrancl_into_rtrancl rtranclp.rtrancl_refl)



section \<open>A token is used twice\<close>

lemma used_token:
  "\<exists>cp2 resp. register_delegate onboarding_web 10 sample_random post (sy_cp enrolled_sys) = (cp2, Inr resp)"
proof -
  obtain resp where run: "register_delegate onboarding_web 10 sample_random post issued_cp = (sy_cp enrolled_sys, Inr resp)"
    "resp_status resp = 200" by (rule enrolled)
  obtain t where "tokens (cp_db (sy_cp enrolled_sys)) ''t'' = Some t" "t_used_at t \<noteq> None"
    using run(1)
  proof (cases rule: register_db)
    case same
    have "find_delegate (cp_db (sy_cp enrolled_sys)) 5 = find_delegate (cp_db issued_cp) 5"
      using same by (simp add: find_delegate_def)
    with issued_cp_facts(3) enrolled show ?thesis by (metis option.distinct(1) sys_db_def)
  next
    case (enrolled tok t row)
    have "tok = ''t''" using enrolled(6) by (simp add: request_token_def sample_body_def body_req_def)
    with enrolled(7) that [of "t\<lparr>t_used_at := Some 10\<rparr>"] show ?thesis by simp
  qed
  then have "token_problem (cp_db (sy_cp enrolled_sys)) 10 ''t'' (JStr ''acme'') \<noteq> None"
    by (simp add: token_problem_def)
  then show ?thesis
    by (auto simp: register_delegate_def require_http_method_def register_checked_def rejected_def sample_body_def
        body_req_def Let_def)
qed


section \<open>Time-outs and audit events\<close>

definition revoked_sys :: "(string \<times> string list) list sys" where
  "revoked_sys = blank_sys\<lparr>sy_cp := sample_full\<lparr>cp_db := put_delegate 5 (sample_row\<lparr>d_status := STATUS_REVOKED\<rparr>) empty_db\<rparr>\<rparr>"

lemma timed_out_run:
  "rtranclp (sys_step w c) s (put_ds (give_up eid keys life (ds_of s)) s)"
  using sys_step.timed_out by blast


lemma audit_append_only_witness:
  "prefix (audits (sys_db blank_sys)) (audits (sys_db enrolled_sys))"
  using audit_append_only [OF onboarding] by blast

section \<open>An output is stored\<close>

definition create_web :: "(string \<times> string list) list web" where
  "create_web = sample_web (JObj sample_create)"

lemma created_execution:
  obtains s' resp row where "create_execution create_web 9 (Inr ()) post sample_full = (s', Inr resp)"
    "executions (cp_db s') 9 = Some row"
proof -
  obtain s' resp where c: "create_checked create_web 9 (Inr ()) (JObj sample_create) (JStr ''acme'') 5
      (JStr ''demo'') sample_full = (s', Inr resp)" and st: "resp_status resp = 200"
    using sample_created by (auto simp: create_web_def)
  have run: "create_execution create_web 9 (Inr ()) post sample_full = (s', Inr resp)"
    using c uuid_str_hd_last(1) [of 5]
    by (simp add: create_execution_def require_http_method_def body_req_def sample_create_def create_web_def)
  from sample_full_facts(4) c show thesis
  proof (cases rule: create_checked_cases)
    case unchanged
    with st show thesis by simp
  next
    case (created row p task)
    with that run show thesis by simp
  qed
qed

definition served_sys :: "(string \<times> string list) list sys" where
  "served_sys = blank_sys\<lparr>sy_cp := sample_full\<rparr>"

lemma output_step:
  assumes "executions (sys_db s) 9 = Some row"
  shows "\<exists>s' row'. sys_step w c s s' \<and> executions (sys_db s') 9 = Some row' \<and> e_status row' = STATUS_SUCCEEDED"
proof -
  let ?x = "\<lparr>x_tid = ''t'', x_total = 0, x_checksum = sha256_bytes [], x_buf = [], x_seen = {}\<rparr>"
  let ?w = "\<lparr>w_last_ids = Map.empty, w_log_seq = 0, w_output = Some ?x\<rparr>"
  let ?keys = "stream_keys (uuid_str 9) ''d''"
  let ?m = "(''1-0'', [''type'' \<mapsto> ''DATA_END'', ''transfer_id'' \<mapsto> ''t''], ''n'')"
  obtain t w1 r where run: "watch_message c (uuid_str 9) ?keys (output_key ?keys) ?m (ds_of s, ?w) = ((t, w1), r)"
    by (metis surj_pair)
  have closes: "xfer_closes (Some ?x) [''type'' \<mapsto> ''DATA_END'', ''transfer_id'' \<mapsto> ''t'']"
    by (simp add: xfer_closes_def)
  have "executions (ds_db t) = (executions (sys_db s))(9 := map_option (\<lambda>row. row\<lparr>e_status := STATUS_SUCCEEDED,
      e_output_path := out_path (cfg_media c) (uuid_str 9), e_output_checksum := sha256_bytes []\<rparr>) (executions (sys_db s) 9))"
    using run closes key_values_distinct [of "uuid_str 9" "''d''"]
    by (auto simp: watch_message_def Let_def key_values_def output_closing finish_output_def executions_update_fun
        split: prod.splits sum.splits)
  with sys_step.message [OF to_uuid_str run, of w] assms show ?thesis by auto
qed

lemma succeeded_run:
  obtains s' row where "rtranclp (sys_step create_web sample_config) served_sys s'" "executions (sys_db s') 9 = Some row"
    "e_status row = STATUS_SUCCEEDED" "executions (sys_db served_sys) = Map.empty" "cp_clients (sy_cp served_sys) = Map.empty"
proof -
  obtain cp1 resp row1 where run: "create_execution create_web 9 (Inr ()) post sample_full = (cp1, Inr resp)"
    and row1: "executions (cp_db cp1) 9 = Some row1" by (rule created_execution)
  have "serve create_web (sample_inputs 0) ''/api/executions/'' post (sy_cp served_sys) = (cp1, Inr resp)"
    using run by (simp add: serve_def sample_inputs_def served_sys_def)
  from sys_step.request [OF _ this] have one: "sys_step create_web sample_config served_sys (served_sys\<lparr>sy_cp := cp1\<rparr>)"
    by simp
  have "executions (sys_db (served_sys\<lparr>sy_cp := cp1\<rparr>)) 9 = Some row1" using row1 by (simp add: sys_db_def)
  from output_step [OF this] obtain s' row where
    two: "sys_step create_web sample_config (served_sys\<lparr>sy_cp := cp1\<rparr>) s'"
    and row: "executions (sys_db s') 9 = Some row" "e_status row = STATUS_SUCCEEDED" by blast
  from one two have reach: "rtranclp (sys_step create_web sample_config) served_sys s'"
    by (meson rtranclp.rtrancl_into_rtrancl rtranclp.rtrancl_refl)
  have "executions (sys_db served_sys) = Map.empty" "cp_clients (sy_cp served_sys) = Map.empty"
    by (auto simp: sys_db_def served_sys_def sample_full_def sample_cp_def empty_db_def)
  with that reach row show thesis by blast
qed

lemma succeeded_is_stored_witness:
  "\<exists>s' row data. rtranclp (sys_step create_web sample_config) served_sys s' \<and> executions (sys_db s') 9 = Some row
     \<and> e_status row = STATUS_SUCCEEDED \<and> sy_files s' (e_output_path row) = Some data
     \<and> e_output_checksum row = sha256_bytes data"
proof -
  obtain s' row where run: "rtranclp (sys_step create_web sample_config) served_sys s'" "executions (sys_db s') 9 = Some row"
    "e_status row = STATUS_SUCCEEDED" "executions (sys_db served_sys) = Map.empty" "cp_clients (sy_cp served_sys) = Map.empty"
    by (rule succeeded_run)
  from succeeded_is_stored [OF run(4,5,1-3)] run(1-3) show ?thesis by auto
qed

end
