(* ===== verification/Registration.thy ===== *)
theory Registration
  imports Ca Json Clients
begin

text \<open>
  How a delegate comes up: \<open>worker/worker_app/registration.py\<close> (wait for the control plane,
  get a token, register with a CSR, store key, certificates and identity),
  \<open>worker/entrypoint.py\<close> and the configuration of \<open>worker_app/celery_app.py\<close>. What a run does
  to the certificate directory is a list of writes, so that a process killed on the way is
  a prefix of it. The replies of the control plane are functions of the body posted;
  the JSON codec, the RSA key and its texts are arguments. Progress lines are left out.
\<close>

section \<open>Files\<close>

record disk =
  dk_files :: "string \<rightharpoonup> string"
  dk_mode :: "string \<rightharpoonup> nat"

datatype file_op = Write string string | Chmod string nat

fun apply_op :: "file_op \<Rightarrow> disk \<Rightarrow> disk" where
  "apply_op (Write p c) d = d\<lparr>dk_files := (dk_files d)(p \<mapsto> c)\<rparr>"
| "apply_op (Chmod p m) d = d\<lparr>dk_mode := (dk_mode d)(p \<mapsto> m)\<rparr>"

definition apply_ops :: "file_op list \<Rightarrow> disk \<Rightarrow> disk" where
  "apply_ops ops d = fold apply_op ops d"

text \<open>What a process that stops somewhere leaves: some operations done, and of the next write,
  which has emptied the file, a part of the text.\<close>

definition crashed :: "file_op list \<Rightarrow> disk \<Rightarrow> disk \<Rightarrow> bool" where
  "crashed ops d d' \<longleftrightarrow>
     (\<exists>pre post. ops = pre @ post \<and> d' = apply_ops pre d)
     \<or> (\<exists>pre p c post k. ops = pre @ Write p c # post \<and> k < length c
          \<and> d' = apply_op (Write p (take k c)) (apply_ops pre d))"

section \<open>Environment\<close>

text \<open>A reply: an exception of the connection, or a status and the outcome of decoding its body.\<close>

type_synonym http_reply = "(nat \<times> json result) result"

text \<open>
  One turn of \<open>_wait_for_control_plane\<close>: the clock at the loop's head, and the outcome of the
  request; \<open>ConnectionError\<close> stands for \<open>requests.RequestException\<close> and its subclasses.
\<close>

record reg_env =
  re_polls :: "(int \<times> unit result) list"
  re_token_reply :: "json \<Rightarrow> http_reply"
  re_register_reply :: "json \<Rightarrow> http_reply"
  re_key :: key
  csr_text :: "csr \<Rightarrow> string"
  key_text :: "key \<Rightarrow> string"
  load_text :: "string \<Rightarrow> json result"
  dump_text :: "json \<Rightarrow> string"

section \<open>Waiting for the control plane\<close>

fun wait_loop :: "int \<Rightarrow> (int \<times> unit result) list \<Rightarrow> unit result option" where
  "wait_loop deadline [] = None"
| "wait_loop deadline ((now, got) # polls) =
     (if now < deadline then
        (case got of
           Inr _ \<Rightarrow> Some (Inr ())
         | Inl ConnectionError \<Rightarrow> wait_loop deadline polls
         | Inl e \<Rightarrow> Some (Inl e))
      else Some (Inl (RuntimeError ''did not become ready in time'')))"

text \<open>The deadline is 60 seconds after the first reading of the clock. \<open>None\<close>: still waiting.\<close>

definition wait_for_control_plane :: "int \<Rightarrow> (int \<times> unit result) list \<Rightarrow> unit result option" where
  "wait_for_control_plane start polls = wait_loop (start + 60) polls"

section \<open>register\<close>

definition build_csr_pem :: "reg_env \<Rightarrow> key \<Rightarrow> string \<Rightarrow> string" where
  "build_csr_pem env k common_name =
     csr_text env \<lparr>csr_subject = common_name, csr_public_key = k, is_signature_valid = True\<rparr>"

text \<open>\<open>raise_for_status()\<close> and \<open>json()\<close>.\<close>

definition reply_json :: "http_reply \<Rightarrow> json result" where
  "reply_json rep =
     ebind rep (\<lambda>(st, body).
       if 400 \<le> st \<and> st < 600 then Inl (OtherError ''HTTPError'') else body)"

definition identity_path :: "string \<Rightarrow> string" where
  "identity_path cert_dir = py_join cert_dir ''identity.json''"

definition key_path :: "string \<Rightarrow> string" where
  "key_path cert_dir = py_join cert_dir ''delegate.key''"

definition cert_path :: "string \<Rightarrow> string" where
  "cert_path cert_dir = py_join cert_dir ''delegate.crt''"

definition ca_path :: "string \<Rightarrow> string" where
  "ca_path cert_dir = py_join cert_dir ''ca.crt''"

definition token_body :: "string \<Rightarrow> json" where
  "token_body tenant_id = JObj [(''tenant_id'', JStr tenant_id)]"

definition register_body :: "reg_env \<Rightarrow> json \<Rightarrow> string \<Rightarrow> string \<Rightarrow> string \<Rightarrow> int \<Rightarrow> json" where
  "register_body env token tenant_id name queue concurrency =
     JObj [(''token'', token), (''tenant_id'', JStr tenant_id), (''name'', JStr name),
           (''queue'', JStr queue), (''concurrency'', JInt concurrency),
           (''csr_pem'', JStr (build_csr_pem env (re_key env) (tenant_id @ '':'' @ name)))]"

text \<open>\<open>f.write(value)\<close> of a decoded value: only text can be written.\<close>

definition as_text :: "json \<Rightarrow> string result" where
  "as_text j = (case j of JStr s \<Rightarrow> Inr s | _ \<Rightarrow> Inl (TypeError ''write() argument must be str''))"

text \<open>
  The writes once the certificate has been received, in the code's order, up to the first
  value that is missing or no text. The file is opened, and so emptied, before the value
  is looked up.
\<close>

definition store_identity ::
    "reg_env \<Rightarrow> string \<Rightarrow> string \<Rightarrow> string \<Rightarrow> string \<Rightarrow> json \<Rightarrow> file_op list \<times> json result" where
  "store_identity env cert_dir tenant_id name queue body =
     (let ops1 = [Write (key_path cert_dir) (key_text env (re_key env)), Chmod (key_path cert_dir) 384] in
      case ebind (body_req body ''cert_pem'') as_text of
        Inl e \<Rightarrow> (ops1 @ [Write (cert_path cert_dir) []], Inl e)
      | Inr cert_pem \<Rightarrow>
          (let ops2 = ops1 @ [Write (cert_path cert_dir) cert_pem] in
           case ebind (body_req body ''ca_cert_pem'') as_text of
             Inl e \<Rightarrow> (ops2 @ [Write (ca_path cert_dir) []], Inl e)
           | Inr ca_pem \<Rightarrow>
               (let ops3 = ops2 @ [Write (ca_path cert_dir) ca_pem] in
                case ebind (body_req body ''delegate_id'') (\<lambda>did.
                     ebind (body_req body ''cert_expires_at'') (\<lambda>ends. Inr (did, ends))) of
                  Inl e \<Rightarrow> (ops3, Inl e)
                | Inr (did, ends) \<Rightarrow>
                    (let identity = JObj [(''delegate_id'', did), (''tenant_id'', JStr tenant_id), (''name'', JStr name),
                                          (''queue'', JStr queue), (''cert_expires_at'', ends)]
                     in (ops3 @ [Write (identity_path cert_dir) (dump_text env identity)], Inr identity)))))"

text \<open>
  The whole call: the bodies posted, in order, the writes, and the result. \<open>None\<close> while it
  waits. 384 is \<open>0o600\<close>.
\<close>

definition register_new ::
    "reg_env \<Rightarrow> string \<Rightarrow> string \<Rightarrow> string \<Rightarrow> string \<Rightarrow> int \<Rightarrow> json list \<times> file_op list \<times> json result" where
  "register_new env cert_dir tenant_id name queue concurrency =
     (case ebind (reply_json (re_token_reply env (token_body tenant_id))) (\<lambda>j. body_req j ''token'') of
        Inl e \<Rightarrow> ([token_body tenant_id], [], Inl e)
      | Inr token \<Rightarrow>
          (let posted = [token_body tenant_id, register_body env token tenant_id name queue concurrency] in
           case ebind (reply_json (re_register_reply env (register_body env token tenant_id name queue concurrency)))
                  (\<lambda>body. ebind (body_req body ''delegate_id'') (\<lambda>_. Inr body)) of
             Inl e \<Rightarrow> (posted, [], Inl e)
           | Inr body \<Rightarrow> (posted, store_identity env cert_dir tenant_id name queue body)))"

definition register ::
    "reg_env \<Rightarrow> int \<Rightarrow> string \<Rightarrow> string \<Rightarrow> string \<Rightarrow> string \<Rightarrow> int \<Rightarrow> disk
       \<Rightarrow> (json list \<times> file_op list \<times> json result) option" where
  "register env start cert_dir tenant_id name queue concurrency d =
     (case (dk_files d (identity_path cert_dir), dk_files d (cert_path cert_dir)) of
        (Some text, Some _) \<Rightarrow>
          Some ([], [], ebind (load_text env text) (\<lambda>identity.
                        ebind (body_req identity ''delegate_id'') (\<lambda>_. Inr identity)))
      | _ \<Rightarrow>
          (case wait_for_control_plane start (re_polls env) of
             None \<Rightarrow> None
           | Some (Inl e) \<Rightarrow> Some ([], [], Inl e)
           | Some (Inr _) \<Rightarrow> Some (register_new env cert_dir tenant_id name queue concurrency)))"

section \<open>Starting the worker\<close>

text \<open>The Celery application of \<open>celery_app.py\<close>.\<close>

record worker_app =
  wa_broker :: string
  wa_default_queue :: string
  wa_prefix :: string
  wa_ssl :: "tls_options option"
  wa_prefetch :: nat
  wa_acks_late :: bool
  wa_remote_control :: bool
  wa_visibility_timeout :: nat

definition env_or :: "environ \<Rightarrow> string \<Rightarrow> string \<Rightarrow> string" where
  "env_or env k d = (case env k of None \<Rightarrow> d | Some v \<Rightarrow> v)"

text \<open>The id goes into an f-string, so it need not be text; \<open>repr\<close> prints what is not.\<close>

definition celery_app :: "(json \<Rightarrow> string) \<Rightarrow> environ \<Rightarrow> json \<Rightarrow> worker_app result" where
  "celery_app repr env identity =
     ebind (body_req identity ''delegate_id'') (\<lambda>did. Inr
       \<lparr>wa_broker = env_or env ''REDIS_URL'' ''rediss://redis:6379/0'',
        wa_default_queue = env_or env ''DELEGATE_QUEUE'' ''default'',
        wa_prefix = delegate_prefix (json_text repr did),
        wa_ssl = broker_ssl_options env, wa_prefetch = 1, wa_acks_late = True,
        wa_remote_control = False, wa_visibility_timeout = 30\<rparr>)"

text \<open>The arguments of \<open>worker_main\<close>; the queue is passed on as it is.\<close>

definition worker_argv :: "(json \<Rightarrow> string) \<Rightarrow> json \<Rightarrow> json list result" where
  "worker_argv repr identity =
     ebind (body_req identity ''queue'') (\<lambda>queue.
     ebind (body_req identity ''name'') (\<lambda>name. Inr
       [JStr ''worker'', JStr ''--loglevel=INFO'', JStr ''-Q'', queue, JStr ''-n'',
        JStr (json_text repr name @ ''@%h''), JStr ''--concurrency=2'',
        JStr ''--without-mingle'', JStr ''--without-gossip'', JStr ''--without-heartbeat'']))"

text \<open>\<open>main()\<close>: the arguments of \<open>register\<close> in order of evaluation, then the application, which
  reads the identity file again, then the worker.\<close>

definition worker_settings :: "environ \<Rightarrow> (string \<times> string \<times> string \<times> int) result" where
  "worker_settings env =
     (case env ''TENANT_ID'' of
        None \<Rightarrow> Inl (KeyError ''TENANT_ID'')
      | Some tenant_id \<Rightarrow>
          ebind (py_int (env_or env ''DELEGATE_CONCURRENCY'' ''1'')) (\<lambda>concurrency.
            Inr (tenant_id, env_or env ''DELEGATE_NAME'' ''delegate'', env_or env ''DELEGATE_QUEUE'' ''default'', concurrency)))"

definition CERT_DIR :: "environ \<Rightarrow> string" where
  "CERT_DIR env = env_or env ''CERT_DIR'' ''/app/certs''"

definition worker_start ::
    "(json \<Rightarrow> string) \<Rightarrow> environ \<Rightarrow> reg_env \<Rightarrow> json \<Rightarrow> disk \<Rightarrow> (worker_app \<times> json list) result" where
  "worker_start repr env renv identity d =
     ebind (case dk_files d (identity_path (CERT_DIR env)) of
              None \<Rightarrow> Inl (OSError ''No such file or directory'')
            | Some text \<Rightarrow> load_text renv text) (\<lambda>stored.
     ebind (celery_app repr env stored) (\<lambda>app.
     ebind (worker_argv repr identity) (\<lambda>argv. Inr (app, argv))))"

definition worker_main ::
    "(json \<Rightarrow> string) \<Rightarrow> environ \<Rightarrow> reg_env \<Rightarrow> int \<Rightarrow> disk \<Rightarrow> (disk \<times> (worker_app \<times> json list) result) option" where
  "worker_main repr environ renv start d =
     (let env = worker_environ py_join environ in
      case worker_settings env of
        Inl e \<Rightarrow> Some (d, Inl e)
      | Inr (tenant_id, name, queue, concurrency) \<Rightarrow>
          (case register renv start (CERT_DIR env) tenant_id name queue concurrency d of
             None \<Rightarrow> None
           | Some (posted, ops, r) \<Rightarrow>
               (let d1 = apply_ops ops d in
                Some (d1, ebind r (\<lambda>identity. worker_start repr env renv identity d1)))))"

section \<open>What a finished registration has written\<close>

lemmas cert_paths = identity_path_def key_path_def cert_path_def ca_path_def

lemma cert_paths_distinct:
  "distinct [key_path c, cert_path c, ca_path c, identity_path c]"
  by (simp add: cert_paths py_join_inject isabs_def slash_def)

lemma cert_paths_neq [simp]:
  "key_path c \<noteq> cert_path c" "key_path c \<noteq> ca_path c" "key_path c \<noteq> identity_path c" "cert_path c \<noteq> key_path c"
  "cert_path c \<noteq> ca_path c" "cert_path c \<noteq> identity_path c" "ca_path c \<noteq> key_path c" "ca_path c \<noteq> cert_path c"
  "ca_path c \<noteq> identity_path c" "identity_path c \<noteq> key_path c" "identity_path c \<noteq> cert_path c" "identity_path c \<noteq> ca_path c"
  using cert_paths_distinct [of c] by auto

lemma apply_ops_simps [simp]:
  "apply_ops [] d = d" "apply_ops (x # ops) d = apply_ops ops (apply_op x d)"
  "apply_ops (xs @ ys) d = apply_ops ys (apply_ops xs d)"
  by (simp_all add: apply_ops_def)

definition identity_of :: "json \<Rightarrow> string \<Rightarrow> string \<Rightarrow> string \<Rightarrow> json \<Rightarrow> json" where
  "identity_of did tenant_id name queue ends =
     JObj [(''delegate_id'', did), (''tenant_id'', JStr tenant_id), (''name'', JStr name),
           (''queue'', JStr queue), (''cert_expires_at'', ends)]"

definition stored_ops :: "reg_env \<Rightarrow> string \<Rightarrow> string \<Rightarrow> string \<Rightarrow> json \<Rightarrow> file_op list" where
  "stored_ops env cd cert_pem ca_pem identity =
     [Write (key_path cd) (key_text env (re_key env)), Chmod (key_path cd) 384,
      Write (cert_path cd) cert_pem, Write (ca_path cd) ca_pem,
      Write (identity_path cd) (dump_text env identity)]"

lemma store_identity_Inr:
  assumes "store_identity env cd t n q body = (ops, Inr identity)"
  shows "\<exists>cert_pem ca_pem did ends. body_req body ''cert_pem'' = Inr (JStr cert_pem)
    \<and> body_req body ''ca_cert_pem'' = Inr (JStr ca_pem) \<and> body_req body ''delegate_id'' = Inr did
    \<and> identity = identity_of did t n q ends \<and> ops = stored_ops env cd cert_pem ca_pem identity"
proof -
  have as_text: "as_text j = Inr x \<longleftrightarrow> j = JStr x" for j x
    by (cases j) (auto simp: as_text_def)
  show ?thesis
    using assms
    by (auto simp: store_identity_def Let_def stored_ops_def identity_of_def as_text ebind_eq_Inr split: sum.splits)
qed

lemma register_new_Inr:
  assumes "register_new env cd t n q c = (posted, ops, Inr identity)"
  shows "\<exists>j token body. reply_json (re_token_reply env (token_body t)) = Inr j \<and> body_req j ''token'' = Inr token
    \<and> posted = [token_body t, register_body env token t n q c]
    \<and> reply_json (re_register_reply env (register_body env token t n q c)) = Inr body
    \<and> store_identity env cd t n q body = (ops, Inr identity)"
  using assms by (auto simp: register_new_def Let_def ebind_eq_Inr split: sum.splits)

text \<open>Either the identity on disk is used again, or a new registration runs.\<close>

lemma register_cases:
  assumes "register env start cd t n q c d = Some (posted, ops, r)"
  obtains (reused) content where "dk_files d (identity_path cd) = Some content" "dk_files d (cert_path cd) \<noteq> None"
      "posted = []" "ops = []" "r = ebind (load_text env content) (\<lambda>i. ebind (body_req i ''delegate_id'') (\<lambda>_. Inr i))"
    | (waited) e where "dk_files d (identity_path cd) = None \<or> dk_files d (cert_path cd) = None"
        "posted = []" "ops = []" "r = Inl e"
    | (fresh) "dk_files d (identity_path cd) = None \<or> dk_files d (cert_path cd) = None"
        "register_new env cd t n q c = (posted, ops, r)"
proof (cases "dk_files d (identity_path cd) = None \<or> dk_files d (cert_path cd) = None")
  case False
  with assms reused show thesis by (auto simp: register_def)
next
  case True
  then have "(case wait_for_control_plane start (re_polls env) of
             None \<Rightarrow> None
           | Some (Inl e) \<Rightarrow> Some ([], [], Inl e)
           | Some (Inr _) \<Rightarrow> Some (register_new env cd t n q c)) = Some (posted, ops, r)"
    using assms by (auto simp: register_def split: option.splits)
  with True waited fresh show thesis by (auto split: option.splits sum.splits)
qed

end
