(* ===== verification/RegistrationFacts.thy ===== *)
theory RegistrationFacts
  imports Registration
begin

text \<open>
  What a registration leaves in the certificate directory when the process stops at any point
  of it, what the next start makes of that, and how long the worker waits.
\<close>

section \<open>Stopping on the way\<close>

text \<open>The states a finished registration passes through.\<close>

lemma crashed_stored:
  assumes "crashed (stored_ops env cd cert_pem ca_pem i) d d'"
  shows "dk_files d' (identity_path cd) = dk_files d (identity_path cd)
    \<or> (\<exists>k < length (dump_text env i). dk_files d' (identity_path cd) = Some (take k (dump_text env i))
         \<and> dk_files d' (cert_path cd) = Some cert_pem)
    \<or> d' = apply_ops (stored_ops env cd cert_pem ca_pem i) d"
proof -
  from assms consider pre post where "stored_ops env cd cert_pem ca_pem i = pre @ post" "d' = apply_ops pre d"
    | pre p c post k where "stored_ops env cd cert_pem ca_pem i = pre @ Write p c # post" "k < length c"
        "d' = apply_op (Write p (take k c)) (apply_ops pre d)"
    unfolding crashed_def by blast
  then show ?thesis
  proof cases
    case 1
    then show ?thesis
      by (auto simp: stored_ops_def Cons_eq_append_conv)
  next
    case 2
    then show ?thesis
      by (auto simp: stored_ops_def Cons_eq_append_conv)
  qed
qed

lemma stored_files:
  "dk_files (apply_ops (stored_ops env cd cert_pem ca_pem i) d) =
     (dk_files d)(key_path cd \<mapsto> key_text env (re_key env), cert_path cd \<mapsto> cert_pem, ca_path cd \<mapsto> ca_pem,
        identity_path cd \<mapsto> dump_text env i)"
  "dk_mode (apply_ops (stored_ops env cd cert_pem ca_pem i) d) (key_path cd) = Some 384"
  by (simp_all add: stored_ops_def)

lemma register_stored:
  assumes "register env start cd t n q c d = Some (posted, ops, Inr identity)" and "posted \<noteq> []"
  shows "\<exists>cert_pem ca_pem. ops = stored_ops env cd cert_pem ca_pem identity \<and> length posted = 2"
  using assms(1)
proof (cases rule: register_cases)
  case (reused content)
  with assms(2) show ?thesis by simp
next
  case (waited e)
  then show ?thesis by simp
next
  case fresh
  from register_new_Inr [OF fresh(2)] show ?thesis using store_identity_Inr by fastforce
qed

text \<open>C37: Stopping a first registration at any point. The directory holds no identity yet, and the
  process is stopped anywhere in the writes of a registration that would have succeeded. Then
  either the next start registers again from the beginning; or the identity file holds a
  proper part of its text; or everything is there, key, certificate, CA certificate and
  identity of one and the same registration, the key readable by its owner only, and the
  next start uses it without asking anyone.\<close>

theorem register_crash_states:
  assumes "dk_files d (identity_path cd) = None"
    and "register env start cd t n q c d = Some (posted, ops, Inr identity)" and "crashed ops d d'"
  shows "(\<forall>env2 start2 posted2 ops2 i2. register env2 start2 cd t n q c d' = Some (posted2, ops2, Inr i2) \<longrightarrow> length posted2 = 2)
    \<or> (\<exists>k < length (dump_text env identity). dk_files d' (identity_path cd) = Some (take k (dump_text env identity)))
    \<or> (\<exists>cert_pem ca_pem. dk_files d' (key_path cd) = Some (key_text env (re_key env)) \<and> dk_mode d' (key_path cd) = Some 384
        \<and> dk_files d' (cert_path cd) = Some cert_pem \<and> dk_files d' (ca_path cd) = Some ca_pem
        \<and> dk_files d' (identity_path cd) = Some (dump_text env identity)
        \<and> (\<forall>env2 start2. load_text env2 (dump_text env identity) = Inr identity \<longrightarrow>
             register env2 start2 cd t n q c d' = Some ([], [], Inr identity)))"
proof -
  have new: "register_new env cd t n q c = (posted, ops, Inr identity)"
    using assms(2) assms(1) by (cases rule: register_cases) auto
  obtain cert_pem ca_pem did ends where ops: "ops = stored_ops env cd cert_pem ca_pem identity"
    and identity: "identity = identity_of did t n q ends"
    using register_new_Inr [OF new] store_identity_Inr by blast
  consider (none) "dk_files d' (identity_path cd) = None"
    | (torn) k where "k < length (dump_text env identity)" "dk_files d' (identity_path cd) = Some (take k (dump_text env identity))"
    | (complete) "d' = apply_ops ops d"
    using crashed_stored assms(1,3) unfolding ops by metis
  then show ?thesis
  proof cases
    case none
    have "length posted2 = 2" if run: "register env2 start2 cd t n q c d' = Some (posted2, ops2, Inr i2)"
      for env2 start2 posted2 ops2 i2
    proof -
      have "register_new env2 cd t n q c = (posted2, ops2, Inr i2)"
        using run none by (cases rule: register_cases) auto
      then show ?thesis using register_new_Inr by fastforce
    qed
    then show ?thesis by blast
  next
    case torn
    then show ?thesis by blast
  next
    case complete
    have "register env2 start2 cd t n q c d' = Some ([], [], Inr identity)"
      if "load_text env2 (dump_text env identity) = Inr identity" for env2 start2
      using that by (simp add: register_def complete ops stored_files identity identity_of_def body_req_def)
    then show ?thesis by (auto simp: complete ops stored_files)
  qed
qed

text \<open>A torn identity file stops the worker for good. If the process is stopped after the
  identity file has been emptied and before its text is complete, and the JSON decoder
  refuses that part of the text, then every later start raises the decoder's exception,
  posts nothing and writes nothing, so the state never changes again by itself.\<close>

theorem register_torn_identity:
  assumes "register env start cd t n q c d = Some (posted, ops, Inr identity)" and "posted \<noteq> []"
    and "k < length (dump_text env identity)"
    and "load_text env (take k (dump_text env identity)) = Inl e"
  shows "\<exists>d'. crashed ops d d'
    \<and> (\<forall>env2 start2 n2 q2 c2. load_text env2 = load_text env \<longrightarrow> register env2 start2 cd t n2 q2 c2 d' = Some ([], [], Inl e))"
proof -
  obtain cert_pem ca_pem where ops: "ops = stored_ops env cd cert_pem ca_pem identity"
    using register_stored [OF assms(1,2)] by blast
  let ?pre = "butlast ops"
  let ?d = "apply_op (Write (identity_path cd) (take k (dump_text env identity))) (apply_ops ?pre d)"
  have "ops = ?pre @ Write (identity_path cd) (dump_text env identity) # []"
    by (simp add: ops stored_ops_def)
  then have "crashed ops d ?d"
    unfolding crashed_def using assms(3) by blast
  moreover have "register env2 start2 cd t n2 q2 c2 ?d = Some ([], [], Inl e)"
    if "load_text env2 = load_text env" for env2 start2 n2 q2 c2
    using that assms(4) by (simp add: register_def ops stored_ops_def)
  ultimately show ?thesis by blast
qed

text \<open>An old identity with a new certificate. If the directory still holds an identity but no
  certificate, the worker registers anew; stopped after the new certificate is written, it
  then starts under the old identity, with the key and certificate of another delegate.\<close>

theorem register_stale_identity:
  assumes "dk_files d (identity_path cd) = Some old" and "dk_files d (cert_path cd) = None"
    and "register env start cd t n q c d = Some (posted, ops, Inr identity)"
    and "load_text env2 old = Inr old_identity" and "body_req old_identity ''delegate_id'' = Inr old_id"
  shows "\<exists>d' cert_pem. crashed ops d d'
    \<and> dk_files d' (key_path cd) = Some (key_text env (re_key env)) \<and> dk_files d' (cert_path cd) = Some cert_pem
    \<and> register env2 start2 cd t n q c d' = Some ([], [], Inr old_identity)"
proof -
  have new: "register_new env cd t n q c = (posted, ops, Inr identity)"
    using assms(3) assms(2) by (cases rule: register_cases) auto
  obtain cert_pem ca_pem where ops: "ops = stored_ops env cd cert_pem ca_pem identity"
    using register_new_Inr [OF new] store_identity_Inr by blast
  let ?pre = "take 3 ops" and ?d = "apply_ops (take 3 ops) d"
  have "ops = ?pre @ drop 3 ops" by simp
  then have "crashed ops d ?d" unfolding crashed_def by blast
  moreover have "dk_files ?d (key_path cd) = Some (key_text env (re_key env))" "dk_files ?d (cert_path cd) = Some cert_pem"
    by (simp_all add: ops stored_ops_def)
  moreover have "register env2 start2 cd t n q c ?d = Some ([], [], Inr old_identity)"
    using assms(1,4,5) by (simp add: register_def ops stored_ops_def)
  ultimately show ?thesis by blast
qed

section \<open>How long it waits\<close>

lemma wait_loop_late:
  assumes "(now, got) \<in> set polls" and "deadline \<le> now"
  shows "\<exists>r. wait_loop deadline polls = Some r"
  using assms by (induction deadline polls rule: wait_loop.induct) (auto split: sum.splits exn.splits)

text \<open>The worker does not wait for ever. Once the clock is read 60 seconds after the first
  reading, \<open>register\<close> has come back: it has used what is stored, registered, or raised.\<close>

theorem register_returns:
  assumes "(now, got) \<in> set (re_polls env)" and "start + 60 \<le> now"
  shows "\<exists>posted ops r. register env start cd t n q c d = Some (posted, ops, r)"
proof -
  obtain r where "wait_for_control_plane start (re_polls env) = Some r"
    using wait_loop_late [OF assms] unfolding wait_for_control_plane_def by blast
  moreover have "\<exists>posted ops r. register_new env cd t n q c = (posted, ops, r)"
    by (metis prod_cases3)
  ultimately show ?thesis
    by (auto simp: register_def split: option.splits sum.splits)
qed

section \<open>Examples\<close>

text \<open>A control plane that accepts everyone as delegate \<open>5\<close>, and a codec that knows one text.\<close>

definition sample_identity :: json where
  "sample_identity = identity_of (JStr ''5'') ''acme'' ''d'' ''q'' (JInt 9)"

definition sample_renv :: reg_env where
  "sample_renv =
     \<lparr>re_polls = [(0, Inr ())],
      re_token_reply = (\<lambda>_. Inr (200, Inr (JObj [(''token'', JStr ''t'')]))),
      re_register_reply = (\<lambda>_. Inr (200, Inr (JObj [(''delegate_id'', JStr ''5''), (''cert_pem'', JStr ''cert''),
        (''ca_cert_pem'', JStr ''ca''), (''cert_expires_at'', JInt 9)]))),
      re_key = 7, csr_text = csr_subject, key_text = str_nat,
      load_text = (\<lambda>s. if s = ''{}'' then Inr sample_identity else Inl (ValueError ''Expecting value'')),
      dump_text = (\<lambda>_. ''{}'')\<rparr>"

definition empty_disk :: disk where
  "empty_disk = \<lparr>dk_files = Map.empty, dk_mode = Map.empty\<rparr>"

definition sample_stored :: "file_op list" where
  "sample_stored = stored_ops sample_renv ''/certs'' ''cert'' ''ca'' sample_identity"

lemma sample_register_new:
  "register_new sample_renv ''/certs'' ''acme'' ''d'' ''q'' 1 =
     ([token_body ''acme'', register_body sample_renv (JStr ''t'') ''acme'' ''d'' ''q'' 1], sample_stored, Inr sample_identity)"
  by (simp add: register_new_def store_identity_def reply_json_def body_req_def as_text_def Let_def
      sample_stored_def stored_ops_def sample_renv_def sample_identity_def identity_of_def)

lemma sample_run:
  assumes "dk_files d (cert_path ''/certs'') = None"
  shows "register sample_renv 0 ''/certs'' ''acme'' ''d'' ''q'' 1 d = Some
    ([token_body ''acme'', register_body sample_renv (JStr ''t'') ''acme'' ''d'' ''q'' 1], sample_stored, Inr sample_identity)"
proof -
  have "wait_for_control_plane 0 (re_polls sample_renv) = Some (Inr ())"
    by (simp add: wait_for_control_plane_def sample_renv_def)
  with assms show ?thesis
    by (simp add: register_def sample_register_new split: option.splits)
qed

lemma empty_run [simp]: "dk_files empty_disk p = None"
  by (simp add: empty_disk_def)

lemma sample_codec [simp]:
  "dump_text sample_renv j = ''{}''" "load_text sample_renv ''{}'' = Inr sample_identity"
  "load_text sample_renv [] = Inl (ValueError ''Expecting value'')"
  "body_req sample_identity ''delegate_id'' = Inr (JStr ''5'')"
  by (simp_all add: sample_renv_def sample_identity_def identity_of_def body_req_def)

text \<open>Stopped before the first write, the worker registers again.\<close>

lemma register_crash_states_witness:
  "\<exists>posted ops identity. register sample_renv 0 ''/certs'' ''acme'' ''d'' ''q'' 1 empty_disk = Some (posted, ops, Inr identity)
     \<and> length posted = 2"
proof -
  have "crashed sample_stored empty_disk empty_disk"
    unfolding crashed_def by (metis append_Nil apply_ops_simps(1))
  from register_crash_states [OF empty_run sample_run [OF empty_run] this] have
    "\<forall>env2 start2 posted2 ops2 i2.
       register env2 start2 ''/certs'' ''acme'' ''d'' ''q'' 1 empty_disk = Some (posted2, ops2, Inr i2) \<longrightarrow> length posted2 = 2"
    by simp
  with sample_run [OF empty_run] show ?thesis by blast
qed

lemma register_torn_identity_witness:
  "\<exists>d'. crashed sample_stored empty_disk d'
     \<and> register sample_renv 99 ''/certs'' ''acme'' ''d'' ''q'' 1 d' = Some ([], [], Inl (ValueError ''Expecting value''))"
proof -
  from register_torn_identity [OF sample_run [OF empty_run], of 0 "ValueError ''Expecting value''"]
  show ?thesis by fastforce
qed

lemma register_stale_identity_witness:
  "\<exists>d'. dk_files d' (key_path ''/certs'') = Some (key_text sample_renv 7)
     \<and> register sample_renv 99 ''/certs'' ''acme'' ''d'' ''q'' 1 d' = Some ([], [], Inr sample_identity)"
proof -
  let ?d = "apply_op (Write (identity_path ''/certs'') ''{}'') empty_disk"
  have files: "dk_files ?d (identity_path ''/certs'') = Some ''{}''" "dk_files ?d (cert_path ''/certs'') = None"
    by simp_all
  have "re_key sample_renv = 7" by (simp add: sample_renv_def)
  with register_stale_identity [OF files sample_run [OF files(2)] sample_codec(2,4), of 99] show ?thesis by auto
qed

lemma register_returns_witness:
  "\<exists>posted ops r. register (sample_renv\<lparr>re_polls := [(0, Inl ConnectionError), (60, Inl ConnectionError)]\<rparr>) 0 ''/certs''
      ''acme'' ''d'' ''q'' 1 empty_disk = Some (posted, ops, r)"
  by (rule register_returns [of 60 "Inl ConnectionError"]) simp_all

end
