(* ===== verification/AgentManager.thy ===== *)
theory AgentManager
  imports Json
begin

text \<open>
  \<open>agent_manager/agent_manager.py\<close>: the process beside a delegate that keeps a websocket to the
  restart gateway and restarts the delegate's containers on command. A session is one turn
  of the \<open>while\<close> loop: the outcome of connecting and of sending the HELLO, the messages
  received with what Docker answers at that time, and how the stream of messages ends. The
  loop never ends, so a run is a list of sessions. Docker is outside the repository.
\<close>

section \<open>Restarting\<close>

record docker =
  from_env :: "unit result"
  containers :: "string \<Rightarrow> string list result"
  container_restart :: "string \<Rightarrow> unit result"

text \<open>The \<open>for\<close> loop: the containers restarted, up to the first that fails.\<close>

fun restart_all :: "docker \<Rightarrow> string list \<Rightarrow> string list \<times> unit result" where
  "restart_all D [] = ([], Inr ())"
| "restart_all D (c # cs) =
     (case container_restart D c of
        Inl e \<Rightarrow> ([], Inl e)
      | Inr _ \<Rightarrow> (case restart_all D cs of (ds, r) \<Rightarrow> (c # ds, r)))"

definition restart_delegate :: "string \<Rightarrow> docker \<Rightarrow> string list \<times> unit result" where
  "restart_delegate service D =
     (case ebind (from_env D) (\<lambda>_. containers D (''com.docker.compose.service='' @ service)) of
        Inl e \<Rightarrow> ([], Inl e)
      | Inr cs \<Rightarrow>
          if cs = [] then ([], Inl (RuntimeError (''no container found for compose service '' @ CHR 0x27 # service @ [CHR 0x27])))
          else restart_all D cs)"

section \<open>Sessions\<close>

definition hello_msg :: "json \<Rightarrow> json" where
  "hello_msg delegate_id = JObj [(''type'', JStr ''HELLO''), (''delegate_id'', delegate_id)]"

record session =
  se_connect :: "unit result"
  se_send :: "unit result"
  se_incoming :: "(json result \<times> docker) list"
  se_ended :: "unit result"

text \<open>A message is the outcome of \<open>json.loads\<close>; \<open>json.loads(message).get("type")\<close> may raise too.\<close>

fun on_messages :: "string \<Rightarrow> (json result \<times> docker) list \<Rightarrow> string list \<times> unit result" where
  "on_messages service [] = ([], Inr ())"
| "on_messages service ((loads, D) # ms) =
     (case ebind loads (\<lambda>j. body_get j ''type'' JNull) of
        Inl e \<Rightarrow> ([], Inl e)
      | Inr ty \<Rightarrow>
          if ty = JStr ''RESTART'' then
            (case restart_delegate service D of
               (rs, Inl e) \<Rightarrow> (rs, Inl e)
             | (rs, Inr _) \<Rightarrow> (case on_messages service ms of (rs', r) \<Rightarrow> (rs @ rs', r)))
          else on_messages service ms)"

definition run_session :: "string \<Rightarrow> json \<Rightarrow> session \<Rightarrow> json list \<times> string list \<times> unit result" where
  "run_session service delegate_id s =
     (case se_connect s of
        Inl e \<Rightarrow> ([], [], Inl e)
      | Inr _ \<Rightarrow>
          (case se_send s of
             Inl e \<Rightarrow> ([], [], Inl e)
           | Inr _ \<Rightarrow>
               (case on_messages service (se_incoming s) of
                  (rs, Inl e) \<Rightarrow> ([hello_msg delegate_id], rs, Inl e)
                | (rs, Inr _) \<Rightarrow> ([hello_msg delegate_id], rs, se_ended s))))"

text \<open>The state of the loop: what has been sent, the containers restarted, and the number of
  pauses of three seconds, one after every exception.\<close>

record am =
  am_sent :: "json list"
  am_restarted :: "string list"
  am_pauses :: nat

fun am_loop :: "string \<Rightarrow> json \<Rightarrow> session list \<Rightarrow> am \<Rightarrow> am" where
  "am_loop service delegate_id [] a = a"
| "am_loop service delegate_id (s # ss) a =
     (case run_session service delegate_id s of
        (hs, rs, r) \<Rightarrow>
          am_loop service delegate_id ss
            (a\<lparr>am_sent := am_sent a @ hs, am_restarted := am_restarted a @ rs,
               am_pauses := am_pauses a + (if is_ok r then 0 else 1)\<rparr>))"

text \<open>\<open>run()\<close>: reading the identity file and the certificate files may end the process. The id
  is looked up inside the loop, so an identity without one fails in every session.\<close>

definition am_init :: am where
  "am_init = \<lparr>am_sent = [], am_restarted = [], am_pauses = 0\<rparr>"

definition session_of :: "json \<Rightarrow> session \<Rightarrow> session" where
  "session_of identity s =
     (case body_req identity ''delegate_id'' of Inl e \<Rightarrow> s\<lparr>se_send := Inl e\<rparr> | Inr _ \<Rightarrow> s)"

definition am_run :: "json result \<Rightarrow> unit result \<Rightarrow> string \<Rightarrow> session list \<Rightarrow> am result" where
  "am_run identity tls service ss =
     ebind identity (\<lambda>i. ebind tls (\<lambda>_.
       Inr (am_loop service (case body_req i ''delegate_id'' of Inl _ \<Rightarrow> JNull | Inr d \<Rightarrow> d)
              (map (session_of i) ss) am_init)))"

section \<open>Restarts are carried out\<close>

lemma am_loop_append: "am_loop service d (xs @ ys) a = am_loop service d ys (am_loop service d xs a)"
  by (induction xs arbitrary: a) (auto split: prod.splits)

lemma am_loop_restarted:
  "am_restarted (am_loop service d ss a) = am_restarted a @ concat (map (\<lambda>s. fst (snd (run_session service d s))) ss)"
  by (induction ss arbitrary: a) (auto split: prod.splits)

text \<open>Docker at work: all containers of the service exist and restart.\<close>

definition docker_up :: "string \<Rightarrow> docker \<Rightarrow> string list \<Rightarrow> bool" where
  "docker_up service D cs \<longleftrightarrow>
     from_env D = Inr () \<and> containers D (''com.docker.compose.service='' @ service) = Inr cs \<and> cs \<noteq> []
     \<and> (\<forall>c \<in> set cs. container_restart D c = Inr ())"

lemma restart_all_up: "(\<forall>c \<in> set cs. container_restart D c = Inr ()) \<Longrightarrow> restart_all D cs = (cs, Inr ())"
  by (induction cs) auto

lemma restart_delegate_up: "docker_up service D cs \<Longrightarrow> restart_delegate service D = (cs, Inr ())"
  by (simp add: docker_up_def restart_delegate_def restart_all_up)

text \<open>A message that does not end the session.\<close>

definition harmless :: "string \<Rightarrow> json result \<times> docker \<Rightarrow> bool" where
  "harmless service m \<longleftrightarrow>
     (\<exists>kv. fst m = Inr (JObj kv) \<and> (map_of kv ''type'' = Some (JStr ''RESTART'') \<longrightarrow> (\<exists>cs. docker_up service (snd m) cs)))"

lemma on_messages_harmless:
  assumes "\<forall>m \<in> set ms. harmless service m"
  shows "\<exists>rs. on_messages service (ms @ rest) = (rs @ fst (on_messages service rest), snd (on_messages service rest))
    \<and> on_messages service ms = (rs, Inr ())"
  using assms
proof (induction ms)
  case Nil
  then show ?case by simp
next
  case (Cons m ms)
  obtain j D where m: "m = (j, D)" by fastforce
  then obtain kv where kv: "j = Inr (JObj kv)"
    "map_of kv ''type'' = Some (JStr ''RESTART'') \<longrightarrow> (\<exists>cs. docker_up service D cs)"
    using Cons.prems by (auto simp: harmless_def)
  obtain rs where rs: "on_messages service (ms @ rest) = (rs @ fst (on_messages service rest), snd (on_messages service rest))"
    "on_messages service ms = (rs, Inr ())"
    using Cons by auto
  show ?case
  proof (cases "map_of kv ''type'' = Some (JStr ''RESTART'')")
    case True
    with kv(2) obtain cs where "docker_up service D cs" by blast
    with m kv(1) True rs show ?thesis by (simp add: restart_delegate_up)
  next
    case False
    with m kv(1) rs show ?thesis by (auto split: option.splits)
  qed
qed

text \<open>A RESTART is carried out. Whatever happened in earlier sessions, failed connections,
  messages that are no JSON, a Docker that fails: if the agent is connected, no message of
  this session before has ended it, and Docker works, then the RESTART makes it restart
  exactly the containers of its service, after all those restarted before; and whatever
  comes later takes none of it back.\<close>

theorem restart_carried_out:
  assumes "se_connect s = Inr ()" and "se_send s = Inr ()" and "body_req i ''delegate_id'' = Inr did"
    and "se_incoming s = before @ (Inr (JObj kv), D) # after"
    and "\<forall>m \<in> set before. harmless service m"
    and "map_of kv ''type'' = Some (JStr ''RESTART'')" and "docker_up service D cs"
  shows "\<exists>a earlier later. am_run (Inr i) (Inr ()) service (pre @ s # post) = Inr a
    \<and> am_run (Inr i) (Inr ()) service (pre @ [s\<lparr>se_incoming := before\<rparr>]) = Inr earlier
    \<and> am_restarted a = am_restarted earlier @ cs @ later"
proof -
  let ?m = "(Inr (JObj kv), D)"
  obtain rs where rs: "on_messages service (before @ ?m # after) =
      (rs @ fst (on_messages service (?m # after)), snd (on_messages service (?m # after)))"
    "on_messages service before = (rs, Inr ())"
    using on_messages_harmless [OF assms(5)] by blast
  obtain rs' where m: "fst (on_messages service (?m # after)) = cs @ rs'"
    using assms(6) restart_delegate_up [OF assms(7)] by (cases "on_messages service after") simp
  have now: "fst (snd (run_session service did s)) = rs @ cs @ rs'"
    using assms(1,2,4) rs(1) m by (auto simp: run_session_def split: prod.splits sum.splits)
  have until: "fst (snd (run_session service did (s\<lparr>se_incoming := before\<rparr>))) = rs"
    using assms(1,2) rs(2) by (simp add: run_session_def)
  have same: "map (session_of i) ss = ss" for ss
    by (simp add: session_of_def assms(3) map_idI)
  show ?thesis
    by (simp add: am_run_def assms(3) same am_loop_restarted now until del: map_append)
       (simp add: now until)
qed

text \<open>The agent outlives its sessions. With an identity it could read, every session the
  environment offers is taken up: the agent says HELLO once in each that connects, with its
  own id, and pauses after each that ends in an exception, and only then.\<close>

theorem agent_keeps_trying:
  assumes "body_req i ''delegate_id'' = Inr did"
  shows "\<exists>a. am_run (Inr i) (Inr ()) service ss = Inr a
    \<and> am_sent a = replicate (length (filter (\<lambda>s. se_connect s = Inr () \<and> se_send s = Inr ()) ss)) (hello_msg did)
    \<and> am_pauses a = length (filter (\<lambda>s. \<not> is_ok (snd (snd (run_session service did s)))) ss)"
proof -
  have hello: "fst (run_session service did s) = (if se_connect s = Inr () \<and> se_send s = Inr () then [hello_msg did] else [])" for s
    by (auto simp: run_session_def split: sum.splits prod.splits)
  have "am_sent (am_loop service did ss a) =
      am_sent a @ replicate (length (filter (\<lambda>s. se_connect s = Inr () \<and> se_send s = Inr ()) ss)) (hello_msg did)
    \<and> am_pauses (am_loop service did ss a) = am_pauses a
        + length (filter (\<lambda>s. \<not> is_ok (snd (snd (run_session service did s)))) ss)" for a
  proof (induction ss arbitrary: a)
    case Nil
    then show ?case by simp
  next
    case (Cons s ss)
    obtain hs rs r where run: "run_session service did s = (hs, rs, r)" by (cases "run_session service did s") auto
    with hello [of s] have "hs = (if se_connect s = Inr () \<and> se_send s = Inr () then [hello_msg did] else [])" by simp
    then show ?case using Cons run by simp
  qed
  moreover have "map (session_of i) ss = ss" by (simp add: session_of_def assms map_idI)
  ultimately show ?thesis
    using assms by (simp add: am_run_def am_init_def)
qed

section \<open>Examples\<close>

definition sample_docker :: docker where
  "sample_docker =
     \<lparr>from_env = Inr (), containers = (\<lambda>_. Inr [''worker-1'']), container_restart = (\<lambda>_. Inr ())\<rparr>"

definition restart_json :: json where
  "restart_json = JObj [(''type'', JStr ''RESTART'')]"

definition sample_session :: session where
  "sample_session =
     \<lparr>se_connect = Inr (), se_send = Inr (), se_incoming = [(Inr restart_json, sample_docker)], se_ended = Inl ConnectionError\<rparr>"

lemma restart_carried_out_witness:
  "\<exists>a. am_run (Inr (JObj [(''delegate_id'', JStr ''5'')])) (Inr ()) ''worker''
        [sample_session\<lparr>se_connect := Inl ConnectionError\<rparr>, sample_session] = Inr a
     \<and> ''worker-1'' \<in> set (am_restarted a)"
proof -
  let ?i = "JObj [(''delegate_id'', JStr ''5'')]"
  have "docker_up ''worker'' sample_docker [''worker-1'']"
    by (simp add: docker_up_def sample_docker_def)
  from restart_carried_out [of sample_session ?i _ "[]" "[(''type'', JStr ''RESTART'')]" sample_docker "[]" "''worker''",
      OF _ _ _ _ _ _ this, of "JStr ''5''" "[sample_session\<lparr>se_connect := Inl ConnectionError\<rparr>]" "[]"]
  show ?thesis
    by (auto simp: sample_session_def restart_json_def body_req_def)
qed

lemma agent_keeps_trying_witness:
  "\<exists>a. am_run (Inr (JObj [(''delegate_id'', JStr ''5'')])) (Inr ()) ''worker''
        [sample_session\<lparr>se_connect := Inl ConnectionError\<rparr>, sample_session] = Inr a
     \<and> am_sent a = [hello_msg (JStr ''5'')]"
proof -
  have "body_req (JObj [(''delegate_id'', JStr ''5'')]) ''delegate_id'' = Inr (JStr ''5'')"
    by (simp add: body_req_def)
  from agent_keeps_trying [OF this, of "''worker''" "[sample_session\<lparr>se_connect := Inl ConnectionError\<rparr>, sample_session]"]
  show ?thesis by (auto simp: sample_session_def)
qed

end
