(* ===== verification/EndToEnd.thy ===== *)
theory EndToEnd
  imports Runs RegistrationFacts AgentManager
begin

text \<open>
  The two sides together: the worker's registration against the handlers of the API, the
  worker's announcement and streams against the dispatcher, the agent manager against the
  restart gateway. What lies between them is the JSON codec, HTTP, Redis and a websocket;
  what they promise is written as hypotheses on the values exchanged.
\<close>

section \<open>Onboarding\<close>

text \<open>An answer of the API as its client sees it: an exception of a handler is a 500 without JSON.\<close>

definition http_of :: "response result \<Rightarrow> http_reply" where
  "http_of out =
     (case out of
        Inl e \<Rightarrow> Inr (500, Inl (ValueError ''Expecting value''))
      | Inr resp \<Rightarrow> Inr (resp_status resp, Inr (JObj (resp_body resp))))"

definition post_json :: "(json \<Rightarrow> bytes) \<Rightarrow> json \<Rightarrow> request" where
  "post_json encode j = \<lparr>req_method = ''POST'', req_body = encode j\<rparr>"

text \<open>The codec carries a value from the client to the handler.\<close>

definition carried :: "'r web \<Rightarrow> (json \<Rightarrow> bytes) \<Rightarrow> json \<Rightarrow> bool" where
  "carried w encode j \<longleftrightarrow> encode j \<noteq> [] \<and> json_loads w (encode j) = Inr (Some j)"

lemma json_body_carried: "carried w encode j \<Longrightarrow> json_body w (post_json encode j) = Inr j"
  by (simp add: carried_def json_body_def post_json_def)

lemma reply_http_of_Inr:
  assumes "reply_json (http_of out) = Inr body"
  obtains resp where "out = Inr resp" "body = JObj (resp_body resp)" "\<not> (400 \<le> resp_status resp \<and> resp_status resp < 600)"
  using assms by (auto simp: reply_json_def http_of_def split: sum.splits if_splits)

lemma refused_status:
  assumes "register_delegate w now rr req s = (s', Inr resp)" and "resp_status resp \<noteq> 200"
  shows "400 \<le> resp_status resp \<and> resp_status resp < 600"
proof -
  have rej: "400 \<le> resp_status r \<and> resp_status r < 600" if "rejected w tenant detail st msg s0 = (s1, Inr r)" "400 \<le> st" "st < 600"
    for tenant detail st msg s0 s1 r
    using that by (auto simp: rejected_def error_response_def json_response_def)
  have com: "resp_status r = 200" if "register_commit w now u tok tenant row s0 = (s1, Inr r)" for u tok tenant row s0 s1 r
    using that by (auto simp: register_commit_def Let_def json_response_def ebind_eq_Inr)
  have chk: "400 \<le> resp_status resp \<and> resp_status resp < 600"
    if "register_checked w now rr body tok tenant csr_json s = (s', Inr resp)" for body tok tenant csr_json
    using that rej com assms(2)
    by (fastforce simp: register_checked_def Let_def split: option.splits prod.splits sum.splits if_splits)
  show ?thesis
    using assms chk
    by (auto simp: register_delegate_def require_http_method_def json_response_def error_response_def
        simp del: missing_fields.simps split: if_splits sum.splits)
qed

lemma sign_csr_key:
  assumes "sign_for w now rr (JStr p) fs = (fs', Inr (cert_pem, serial, na))" and "load_csr (web_crypto w) p = Inr q"
  shows "\<exists>cert. cert_pem = pem (web_crypto w) cert \<and> c_subject cert = uuid_str (rr_delegate_id rr)
    \<and> c_public_key cert = csr_public_key q \<and> na = c_not_after cert"
  using assms
  by (auto simp: sign_for_def sign_csr_def sign_csr_cert_def Let_def emap_def ebind_eq_Inr delegate_cert_def
      split: sum.splits if_splits)

lemma register_commit_reply:
  assumes "register_commit w now u tok tenant row s = (s', Inr resp)"
  shows "\<exists>ca_pem. resp_body resp = [(''delegate_id'', JStr (uuid_str u)), (''cert_pem'', JStr (d_cert_pem row)),
    (''ca_cert_pem'', JStr ca_pem), (''cert_expires_at'', JInt (d_cert_expires_at row))]"
  using assms by (auto simp: register_commit_def Let_def json_response_def ebind_eq_Inr)

text \<open>What a registration with the worker's body does when it answers 200.\<close>

lemma worker_registered:
  assumes "carried w encode (register_body env token t n q conc)"
    and "register_delegate w now rr (post_json encode (register_body env token t n q conc)) s = (s', Inr resp)"
    and "resp_status resp = 200"
    and "load_csr (web_crypto w) (build_csr_pem env (re_key env) (t @ '':'' @ n)) = Inr csr"
  obtains row cert where "find_delegate (cp_db s') (rr_delegate_id rr) = Some row" "d_status row = STATUS_ACTIVE"
    "d_tenant_id row = t" "d_name row = n" "d_queue row = q" "d_concurrency row = conc"
    "d_cert_pem row = pem (web_crypto w) cert" "c_subject cert = uuid_str (rr_delegate_id rr)"
    "c_public_key cert = csr_public_key csr" "body_req (JObj (resp_body resp)) ''delegate_id'' = Inr (JStr (uuid_str (rr_delegate_id rr)))"
    "body_req (JObj (resp_body resp)) ''cert_pem'' = Inr (JStr (d_cert_pem row))"
    "body_req (JObj (resp_body resp)) ''cert_expires_at'' = Inr (JInt (d_cert_expires_at row))"
proof -
  let ?body = "register_body env token t n q conc"
  from assms(2) show thesis
  proof (cases rule: register_delegate_cases)
    case early
    with assms(3) show thesis by auto
  next
    case (checked body tok tenant csr_json)
    have body: "body = ?body" using checked(1) json_body_carried [OF assms(1)] by simp
    have tenant: "tenant = JStr t" using checked(3) by (simp add: body register_body_def body_req_def)
    have run: "register_checked w now rr ?body tok (JStr t) csr_json s = (s', Inr resp)"
      using checked(4) by (simp add: body tenant)
    have csr_json: "csr_json = JStr (build_csr_pem env (re_key env) (t @ '':'' @ n))"
      using checked(5) by (simp add: body register_body_def body_req_def)
    from run show thesis
    proof (cases rule: register_checked_cases)
      case (committed fs cert_pem serial na acl row)
      obtain cert where cert: "cert_pem = pem (web_crypto w) cert" "c_subject cert = uuid_str (rr_delegate_id rr)"
        "c_public_key cert = csr_public_key csr" "na = c_not_after cert"
        using sign_csr_key [OF committed(2) [unfolded csr_json] assms(4)] by blast
      obtain tk where tk: "tokens (cp_db s) tok = Some tk"
        using token_problem_None [OF committed(1)] by blast
      have new: "find_delegate (cp_db s') (rr_delegate_id rr) = Some row"
        using register_commit_state [OF committed(6) [symmetric], of tk] tk by (simp add: find_delegate_def update_conv')
      have row: "d_status row = STATUS_ACTIVE" "d_tenant_id row = t" "d_name row = n" "d_queue row = q" "d_concurrency row = conc"
        "d_cert_pem row = cert_pem"
        using committed(4) by (auto simp: delegate_row_def ebind_eq_Inr register_body_def body_req_def split: if_splits)
      show thesis
        using that [OF new row(1-5), of cert] row(6) cert register_commit_reply [OF committed(6) [symmetric]]
        by (auto simp: body_req_def)
    qed (use assms(3) in auto)
  qed
qed

text \<open>C2: Onboarding, both sides. A worker with no identity registers against the API's handlers, its
  CSR text carrying the key it was built from. If its registration succeeds, then on the
  control plane there is an active delegate of exactly its tenant, name, queue and
  concurrency; on the worker's disk there are its private key, readable by its owner only,
  and the certificate of that row, which names the delegate and holds that very key; and the
  identity it starts Celery with makes it consume under the delegate's key prefix, from the
  delegate's queue.\<close>

theorem onboarding_end_to_end:
  assumes "\<forall>j \<in> set posted. carried w encode j"
    and "load_csr (web_crypto w) (build_csr_pem env (re_key env) (t @ '':'' @ n))
           = Inr \<lparr>csr_subject = t @ '':'' @ n, csr_public_key = re_key env, is_signature_valid = True\<rparr>"
    and "re_token_reply env = (\<lambda>j. http_of (snd (issue_registration_token w now tok (post_json encode j) s0)))"
    and "re_register_reply env = (\<lambda>j. http_of (snd (register_delegate w now2 rr (post_json encode j) s1)))"
    and "dk_files d (identity_path cd) = None"
    and "register env start cd t n q conc d = Some (posted, ops, Inr idt)"
  shows "\<exists>s2 resp row cert app. register_delegate w now2 rr (post_json encode (posted ! 1)) s1 = (s2, Inr resp)
    \<and> resp_status resp = 200 \<and> find_delegate (cp_db s2) (rr_delegate_id rr) = Some row \<and> d_status row = STATUS_ACTIVE
    \<and> d_tenant_id row = t \<and> d_name row = n \<and> d_queue row = q \<and> d_concurrency row = conc
    \<and> dk_files (apply_ops ops d) (key_path cd) = Some (key_text env (re_key env))
    \<and> dk_mode (apply_ops ops d) (key_path cd) = Some 384
    \<and> dk_files (apply_ops ops d) (cert_path cd) = Some (d_cert_pem row)
    \<and> d_cert_pem row = pem (web_crypto w) cert \<and> c_subject cert = uuid_str (rr_delegate_id rr) \<and> c_public_key cert = re_key env
    \<and> celery_app rep environ idt = Inr app \<and> wa_prefix app = delegate_prefix (uuid_str (rr_delegate_id rr))
    \<and> (\<exists>pre post. worker_argv rep idt = Inr (pre @ [JStr ''-Q'', JStr (d_queue row)] @ post))"
proof -
  have new: "register_new env cd t n q conc = (posted, ops, Inr idt)"
    using assms(6) assms(5) by (cases rule: register_cases) auto
  obtain token body where posted: "posted = [token_body t, register_body env token t n q conc]"
    and reply: "reply_json (re_register_reply env (register_body env token t n q conc)) = Inr body"
    and store: "store_identity env cd t n q body = (ops, Inr idt)"
    using register_new_Inr [OF new] by blast
  let ?req = "post_json encode (register_body env token t n q conc)"
  obtain s2 out where run: "register_delegate w now2 rr ?req s1 = (s2, out)" by fastforce
  from reply have "reply_json (http_of out) = Inr body" by (simp add: assms(4) run)
  then obtain resp where resp: "out = Inr resp" "body = JObj (resp_body resp)" "\<not> (400 \<le> resp_status resp \<and> resp_status resp < 600)"
    by (rule reply_http_of_Inr)
  with run have ok: "resp_status resp = 200" using refused_status by blast
  have carried: "carried w encode (register_body env token t n q conc)" using assms(1) posted by simp
  obtain row cert where row: "find_delegate (cp_db s2) (rr_delegate_id rr) = Some row" "d_status row = STATUS_ACTIVE"
    "d_tenant_id row = t" "d_name row = n" "d_queue row = q" "d_concurrency row = conc"
    "d_cert_pem row = pem (web_crypto w) cert" "c_subject cert = uuid_str (rr_delegate_id rr)" "c_public_key cert = re_key env"
    "body_req body ''delegate_id'' = Inr (JStr (uuid_str (rr_delegate_id rr)))" "body_req body ''cert_pem'' = Inr (JStr (d_cert_pem row))"
    by (rule worker_registered [OF carried run [unfolded resp(1)] ok assms(2)]) (simp add: resp(2))
  obtain ca_pem ends where idt: "idt = identity_of (JStr (uuid_str (rr_delegate_id rr))) t n q ends"
    and ops: "ops = stored_ops env cd (d_cert_pem row) ca_pem idt"
    using store_identity_Inr [OF store] row(10,11) by auto
  obtain app where app: "celery_app rep environ idt = Inr app" "wa_prefix app = delegate_prefix (uuid_str (rr_delegate_id rr))"
    by (simp add: celery_app_def idt identity_of_def body_req_def)
  have "worker_argv rep idt = Inr ([JStr ''worker'', JStr ''--loglevel=INFO''] @ [JStr ''-Q'', JStr (d_queue row)] @
      [JStr ''-n'', JStr (n @ ''@%h''), JStr ''--concurrency=2'', JStr ''--without-mingle'', JStr ''--without-gossip'',
       JStr ''--without-heartbeat''])"
    by (simp add: worker_argv_def idt identity_of_def body_req_def row(5))
  then have "\<exists>pre post. worker_argv rep idt = Inr (pre @ [JStr ''-Q'', JStr (d_queue row)] @ post)" by blast
  with run resp(1) ok row app ops show ?thesis
    by (intro exI [of _ s2] exI [of _ resp] exI [of _ row] exI [of _ cert] exI [of _ app])
      (simp add: posted stored_files)
qed

text \<open>A concrete onboarding: both requests answered by the handlers, on an empty control plane.\<close>

definition demo_body :: json where
  "demo_body = JObj [(''token'', JStr ''t''), (''tenant_id'', JStr ''acme''), (''name'', JStr ''d''), (''queue'', JStr ''default''),
     (''concurrency'', JInt 1), (''csr_pem'', JStr ''acme:d'')]"

definition demo_encode :: "json \<Rightarrow> bytes" where
  "demo_encode j = (if j = demo_body then [2] else [1])"

definition demo_web :: "(string \<times> string list) list web" where
  "demo_web = (sample_web JNull)\<lparr>json_loads := (\<lambda>b. Inr (Some (if b = [2] then demo_body else token_body ''acme'')))\<rparr>"

definition demo_issued :: "(string \<times> string list) list cp" where
  "demo_issued = fst (issue_registration_token demo_web 0 ''t'' (post_json demo_encode (token_body ''acme'')) (sy_cp blank_sys))"

definition demo_env :: reg_env where
  "demo_env =
     \<lparr>re_polls = [(0, Inr ())],
      re_token_reply = (\<lambda>j. http_of (snd (issue_registration_token demo_web 0 ''t'' (post_json demo_encode j) (sy_cp blank_sys)))),
      re_register_reply = (\<lambda>j. http_of (snd (register_delegate demo_web 10 sample_random (post_json demo_encode j) demo_issued))),
      re_key = 7, csr_text = csr_subject, key_text = str_nat,
      load_text = (\<lambda>_. Inl (ValueError ''Expecting value'')), dump_text = (\<lambda>_. ''{}'')\<rparr>"

lemma demo_bodies:
  "register_body demo_env (JStr ''t'') ''acme'' ''d'' ''default'' 1 = demo_body"
  "carried demo_web demo_encode demo_body" "carried demo_web demo_encode (token_body ''acme'')"
  by (simp_all add: register_body_def build_csr_pem_def demo_env_def demo_body_def carried_def demo_encode_def demo_web_def
      token_body_def)

lemma demo_issue:
  "\<exists>resp. issue_registration_token demo_web 0 ''t'' (post_json demo_encode (token_body ''acme'')) (sy_cp blank_sys)
     = (demo_issued, Inr resp) \<and> resp_status resp = 200 \<and> body_req (JObj (resp_body resp)) ''token'' = Inr (JStr ''t'')"
  "token_problem (cp_db demo_issued) 10 ''t'' (JStr ''acme'') = None" "find_delegate (cp_db demo_issued) 5 = None"
  "cp_ca demo_issued = Map.empty" "cp_acl demo_issued = []"
  by (simp_all add: demo_issued_def issue_registration_token_def json_body_carried [OF demo_bodies(3)])
    (simp_all add: require_http_method_def Let_def blank_sys_def post_json_def json_response_def demo_web_def sample_web_def
      empty_db_def token_problem_def find_delegate_def audit_def token_body_def body_req_def)

lemma demo_sign:
  "\<exists>fs c. sign_for demo_web 10 sample_random (JStr ''acme:d'') Map.empty = (fs, Inr c)
     \<and> ca_cert_pem sample_crypto ''/ca'' fs = Inr (c_subject (root_cert 10 (1, 2)))"
  using ca_paths_distinct [of "''/ca''"]
  by (auto simp: sign_for_def demo_web_def sample_web_def sign_csr_def sign_csr_cert_def sample_random_def Let_def
      ensure_root_ca_def load_ca_def sample_crypto_def ca_cert_pem_def)

lemma demo_register:
  "\<exists>s' resp ca_pem cert_pem ends. register_delegate demo_web 10 sample_random (post_json demo_encode demo_body) demo_issued = (s', Inr resp)
     \<and> resp_status resp = 200
     \<and> resp_body resp = [(''delegate_id'', JStr (uuid_str 5)), (''cert_pem'', JStr cert_pem),
         (''ca_cert_pem'', JStr ca_pem), (''cert_expires_at'', JInt ends)]"
proof -
  obtain fs cert_pem serial na where sign: "sign_for demo_web 10 sample_random (JStr ''acme:d'') Map.empty = (fs, Inr (cert_pem, serial, na))"
    "ca_cert_pem sample_crypto ''/ca'' fs = Inr (c_subject (root_cert 10 (1, 2)))"
    using demo_sign by (metis prod_cases3)
  obtain acl where acl: "provision_delegate (web_acl (sample_web JNull)) ''pw'' 5 [] = Inr acl"
    using sample_provision by blast
  have sel: "rr_delegate_id sample_random = 5" "rr_password sample_random = ''pw''" "req_method (post_json e j) = ''POST''"
    "web_acl demo_web = web_acl (sample_web JNull)" "web_crypto demo_web = sample_crypto" "CA_DIR demo_web = ''/ca''" for e j
    by (simp_all add: sample_random_def post_json_def demo_web_def sample_web_def)
  show ?thesis
    using sign acl demo_issue(2-5)
    by (simp add: register_delegate_def require_http_method_def sel json_body_carried [OF demo_bodies(2)])
      (simp add: demo_body_def body_req_def register_checked_def delegate_row_def register_commit_def Let_def json_response_def sel)
qed

lemma demo_run:
  "\<exists>ops idt. register demo_env 0 ''/certs'' ''acme'' ''d'' ''default'' 1 empty_disk
     = Some ([token_body ''acme'', demo_body], ops, Inr idt)"
proof -
  obtain resp where one: "issue_registration_token demo_web 0 ''t'' (post_json demo_encode (token_body ''acme'')) (sy_cp blank_sys)
      = (demo_issued, Inr resp)" "resp_status resp = 200" "body_req (JObj (resp_body resp)) ''token'' = Inr (JStr ''t'')"
    using demo_issue(1) by blast
  obtain s' resp2 ca_pem cert_pem ends where two:
    "register_delegate demo_web 10 sample_random (post_json demo_encode demo_body) demo_issued = (s', Inr resp2)"
    "resp_status resp2 = 200" "resp_body resp2 = [(''delegate_id'', JStr (uuid_str 5)), (''cert_pem'', JStr cert_pem),
         (''ca_cert_pem'', JStr ca_pem), (''cert_expires_at'', JInt ends)]"
    using demo_register by blast
  have reply1: "reply_json (re_token_reply demo_env (token_body ''acme'')) = Inr (JObj (resp_body resp))"
    using one(1,2) by (simp add: demo_env_def http_of_def reply_json_def)
  have reply2: "reply_json (re_register_reply demo_env demo_body) = Inr (JObj (resp_body resp2))"
    using two(1,2) by (simp add: demo_env_def http_of_def reply_json_def)
  have "wait_for_control_plane 0 (re_polls demo_env) = Some (Inr ())"
    by (simp add: wait_for_control_plane_def demo_env_def)
  then show ?thesis
    using one(3) two(3)
    by (simp add: register_def register_new_def reply1 demo_bodies(1) reply2 store_identity_def as_text_def Let_def body_req_def)
qed

lemma onboarding_end_to_end_witness:
  "\<exists>s2 resp row. register_delegate demo_web 10 sample_random (post_json demo_encode demo_body) demo_issued = (s2, Inr resp)
     \<and> find_delegate (cp_db s2) 5 = Some row \<and> d_status row = STATUS_ACTIVE \<and> d_name row = ''d''"
proof -
  obtain ops idt where run: "register demo_env 0 ''/certs'' ''acme'' ''d'' ''default'' 1 empty_disk
      = Some ([token_body ''acme'', demo_body], ops, Inr idt)"
    using demo_run by blast
  have csr: "load_csr (web_crypto demo_web) (build_csr_pem demo_env (re_key demo_env) (''acme'' @ '':'' @ ''d''))
      = Inr \<lparr>csr_subject = ''acme'' @ '':'' @ ''d'', csr_public_key = re_key demo_env, is_signature_valid = True\<rparr>"
    by (simp add: demo_web_def sample_web_def sample_crypto_def build_csr_pem_def demo_env_def)
  have replies: "re_token_reply demo_env = (\<lambda>j. http_of (snd (issue_registration_token demo_web 0 ''t'' (post_json demo_encode j) (sy_cp blank_sys))))"
    "re_register_reply demo_env = (\<lambda>j. http_of (snd (register_delegate demo_web 10 sample_random (post_json demo_encode j) demo_issued)))"
    by (simp_all add: demo_env_def)
  have five: "rr_delegate_id sample_random = 5" by (simp add: sample_random_def)
  have "\<forall>j \<in> set [token_body ''acme'', demo_body]. carried demo_web demo_encode j" using demo_bodies(2,3) by simp
  from onboarding_end_to_end [OF this csr replies empty_run run, of "\<lambda>_. []" Map.empty] show ?thesis by (auto simp: five)
qed

section \<open>The workspace travels\<close>

text \<open>The polls of a receiver deliver the messages of a transfer: first to last, chunks possibly
  repeated and mixed with others, in time, after messages that did not end the call.\<close>

definition delivered :: "int \<Rightarrow> int \<Rightarrow> string \<Rightarrow> poll list \<Rightarrow> string \<Rightarrow> fields list \<Rightarrow> bool" where
  "delivered wt t0 last_id polls tid ms \<longleftrightarrow>
     (\<exists>start chunks closing pre m0 got m1 post r1. ms = start # chunks @ [closing]
        \<and> poll_msgs polls = pre @ m0 # got @ m1 # post \<and> rx_batch wt (rx_init wt t0 last_id) pre = Continue r1
        \<and> msg_fields m0 = start \<and> msg_fields m1 = closing \<and> delivery tid {} chunks (map msg_fields got)
        \<and> (\<forall>(now, resp) \<in> set polls. now < t0 + wt) \<and> (\<forall>m \<in> set (poll_msgs polls). t0 \<le> msg_time m))"

lemma receive_delivered:
  assumes "0 < cs" and "delivered wt t0 last_id polls tid (fst (send_bytes cs tid data base))"
  shows "\<exists>lid. receive_once wt t0 last_id polls = Return data lid (Some tid)"
proof -
  obtain start chunks closing pre m0 got m1 post r1 where
    ms: "fst (send_bytes cs tid data base) = start # chunks @ [closing]" and
    rest: "poll_msgs polls = pre @ m0 # got @ m1 # post" "rx_batch wt (rx_init wt t0 last_id) pre = Continue r1"
    "msg_fields m0 = start" "msg_fields m1 = closing" "delivery tid {} chunks (map msg_fields got)"
    "\<forall>(now, resp) \<in> set polls. now < t0 + wt" "\<forall>m \<in> set (poll_msgs polls). t0 \<le> msg_time m"
    using assms(2) unfolding delivered_def by blast
  from ms obtain res where "send_bytes cs tid data base = (start # chunks @ [closing], res)" by (metis prod.collapse)
  from receive_transfer [OF assms(1) this rest] show ?thesis by blast
qed

lemma chunk_size_pos: "0 < CHUNK_SIZE"
  by (simp add: CHUNK_SIZE_def)

lemma data_request_answered:
  assumes "to_uuid eid = Inr eu" and "executions (ds_db s) eu = Some ex" and "to_uuid d = Inr du"
    and "authorized (ds_db s) ex du d t" and "workspace_zip h (py_join fixtures (e_workspace_fixture ex)) rf = Inr (Some z)"
  shows "\<exists>s1. handle_data_request h fixtures ntid eid ekey (request_msg (base_fields eid t d) rf) s = (s1, Inr ())
    \<and> ds_sent s1 = ds_sent s @ map (Pair ekey) (fst (send_bytes CHUNK_SIZE ntid z [''execution_id'' \<mapsto> eid, ''tenant_id'' \<mapsto> t]))"
proof -
  let ?base = "[''execution_id'' \<mapsto> eid, ''tenant_id'' \<mapsto> t]"
  obtain ms res where send: "send_bytes CHUNK_SIZE ntid z ?base = (ms, res)" by fastforce
  then have "res = Inr (ntid, sha256_bytes z, length z)"
    using send_bytes_run [OF chunk_size_pos send, of None] by blast
  with send assms show ?thesis
    by (simp add: handle_data_request_def request_msg_def base_fields_def field_or_def Let_def)
qed

lemma prepare_first_attempt:
  assumes "\<forall>n. redis_up w n" and "identity w = Inr idn" and "idn ''delegate_id'' = Some d" and "idn ''tenant_id'' = Some t"
    and "TRANSFER_MAX_RETRIES w \<noteq> 0" and "eid \<noteq> []"
    and "attempt w 1 ''0'' = Some (Inr (data, lid, tr))" and "extract_zip_bytes (w_host w) data = Inr es"
  shows "\<exists>s' r. prepare_execution w task dir [eid, rf] kwargs s = Some (s', r)
    \<and> wk_prepared s' task = Some dir \<and> wk_extracted s' = wk_extracted s @ [(dir, es)]
    \<and> (events_key (stream_keys eid d), request_msg (base_fields eid t d) rf) \<in> set (wk_sent s')"
proof -
  obtain k where k: "TRANSFER_MAX_RETRIES w = Suc k" using assms(5) by (cases "TRANSFER_MAX_RETRIES w") auto
  have up: "redis_up w n" for n using assms(1) by simp
  show ?thesis
    using assms(2-4,6-8) up
    by (cases "mirror w") (auto simp: worker_run field_req_def k split: exn.splits)
qed

lemma workspace_arrives:
  assumes "\<forall>es z. zip_write h es = Inr z \<longrightarrow> zip_read (w_host w) z = Inr es"
    and "to_uuid eid = Inr eu" and "executions (ds_db ds) eu = Some ex"
    and "to_uuid d = Inr du" and "authorized (ds_db ds) ex du d t"
    and "zip_directory_to_bytes h (py_join fixtures (e_workspace_fixture ex)) = Inr z"
    and "\<forall>n. redis_up w n" and "identity w = Inr idn" and "idn ''delegate_id'' = Some d" and "idn ''tenant_id'' = Some t"
    and "TRANSFER_MAX_RETRIES w \<noteq> 0"
    and "handle_data_request h fixtures ntid eid (events_key (stream_keys eid d)) (request_msg (base_fields eid t d) ''*'') ds = (ds1, out)"
    and "delivered (wait_timeout w) (ae_now (attempt_of w 1)) ''0'' (ae_polls (attempt_of w 1)) ntid
           (map snd (drop (length (ds_sent ds)) (ds_sent ds1)))"
  shows "out = Inr () \<and> (\<exists>wk' r es. prepare_execution w task dir [eid, ''*''] kwargs wk = Some (wk', r)
    \<and> (events_key (stream_keys eid d), request_msg (base_fields eid t d) ''*'') \<in> set (wk_sent wk')
    \<and> wk_prepared wk' task = Some dir \<and> wk_extracted wk' = wk_extracted wk @ [(dir, es)]
    \<and> read_entries h (map (\<lambda>p. (p, relpath (cwd h) p (py_join fixtures (e_workspace_fixture ex))))
         (concat (map (\<lambda>(root, files). map (py_join root) files) (walk h (py_join fixtures (e_workspace_fixture ex)))))) = Inr es)"
proof -
  let ?dir = "py_join fixtures (e_workspace_fixture ex)"
  have "workspace_zip h ?dir ''*'' = Inr (Some z)" using assms(6) by (simp add: workspace_zip_def)
  from data_request_answered [OF assms(2-5) this, of ntid "events_key (stream_keys eid d)"] assms(12)
  have out: "out = Inr ()" and sent: "map snd (drop (length (ds_sent ds)) (ds_sent ds1))
      = fst (send_bytes CHUNK_SIZE ntid z [''execution_id'' \<mapsto> eid, ''tenant_id'' \<mapsto> t])"
    by (auto simp: comp_def)
  obtain lid where "receive_once (wait_timeout w) (ae_now (attempt_of w 1)) ''0'' (ae_polls (attempt_of w 1)) = Return z lid (Some ntid)"
    using receive_delivered [OF chunk_size_pos assms(13) [unfolded sent]] by blast
  then have attempt: "attempt w 1 ''0'' = Some (Inr (z, lid, Some ntid))" by (simp add: attempt_def)
  obtain es where es: "read_entries h (map (\<lambda>p. (p, relpath (cwd h) p ?dir))
      (concat (map (\<lambda>(root, files). map (py_join root) files) (walk h ?dir)))) = Inr es" "zip_write h es = Inr z"
    using assms(6) by (auto simp: zip_directory_to_bytes_def Let_def ebind_eq_Inr)
  then have read: "extract_zip_bytes (w_host w) z = Inr es" using assms(1) by (simp add: extract_zip_bytes_def)
  have "eid \<noteq> []" using assms(2) by (auto simp: to_uuid_def uuid_of_str_def Let_def strip_with_def)
  from prepare_first_attempt [OF assms(7-11) this attempt read, of task dir "''*''" kwargs wk] out es(1) show ?thesis by blast
qed

text \<open>C3: The workspace arrives. A worker of the delegate an execution is assigned to prepares it,
  with Redis answering; the dispatcher handles the worker's DATA_REQUEST for the whole
  workspace; and the messages it sends are delivered to the worker's first attempt, chunks
  repeated and mixed with others as may be. Then the handler returns normally and the worker's
  directory, ready for the task, holds exactly the files of the workspace on the control
  plane's host, under their relative names and with their contents. Of the ZIP codec only
  this is used: what one side writes, the other reads back.\<close>

theorem workspace_end_to_end:
  assumes "\<forall>es z. zip_write h es = Inr z \<longrightarrow> zip_read (w_host w) z = Inr es"
    and "to_uuid eid = Inr eu" and "executions (ds_db ds) eu = Some ex"
    and "to_uuid d = Inr du" and "authorized (ds_db ds) ex du d t"
    and "zip_directory_to_bytes h (py_join fixtures (e_workspace_fixture ex)) = Inr z"
    and "\<forall>n. redis_up w n" and "identity w = Inr idn" and "idn ''delegate_id'' = Some d" and "idn ''tenant_id'' = Some t"
    and "TRANSFER_MAX_RETRIES w \<noteq> 0"
    and "handle_data_request h fixtures ntid eid (events_key (stream_keys eid d)) (request_msg (base_fields eid t d) ''*'') ds = (ds1, out)"
    and "delivered (wait_timeout w) (ae_now (attempt_of w 1)) ''0'' (ae_polls (attempt_of w 1)) ntid
           (map snd (drop (length (ds_sent ds)) (ds_sent ds1)))"
  shows "out = Inr () \<and> (\<exists>wk' r es. prepare_execution w task dir [eid, ''*''] kwargs wk = Some (wk', r)
    \<and> (events_key (stream_keys eid d), request_msg (base_fields eid t d) ''*'') \<in> set (wk_sent wk')
    \<and> wk_prepared wk' task = Some dir \<and> wk_extracted wk' = wk_extracted wk @ [(dir, es)]
    \<and> read_entries h (map (\<lambda>p. (p, relpath (cwd h) p (py_join fixtures (e_workspace_fixture ex))))
         (concat (map (\<lambda>(root, files). map (py_join root) files) (walk h (py_join fixtures (e_workspace_fixture ex)))))) = Inr es)"
  by (rule workspace_arrives [OF assms])

text \<open>A workspace with one file, written by a codec that knows only this one.\<close>

definition demo_host :: host where
  "demo_host = sample_host
     \<lparr>walk := (\<lambda>d. [(d, [''a''])]), read_file := (\<lambda>_. Inr [7]),
      zip_write := (\<lambda>es. if es = [(''a'', [7])] then Inr [] else Inl (OtherError ''zip'')),
      zip_read := (\<lambda>_. Inr [(''a'', [7])])\<rparr>"

lemma demo_relpath: "relpath ''/'' (py_join (py_join ''/fixtures'' ''demo'') ''a'') (py_join ''/fixtures'' ''demo'') = ''a''"
  by code_simp

lemma demo_zip: "zip_directory_to_bytes demo_host (py_join ''/fixtures'' ''demo'') = Inr []"
  by (simp add: zip_directory_to_bytes_def demo_host_def sample_host_def demo_relpath)

definition demo_ds :: ds where
  "demo_ds = sample_ds\<lparr>ds_db := put_delegate 2 sample_delegate (put_execution 1 sample_execution empty_db)\<rparr>"

definition demo_base :: fields where
  "demo_base = [''execution_id'' \<mapsto> uuid_str 1, ''tenant_id'' \<mapsto> ''acme'']"

definition demo_polls :: "poll list" where
  "demo_polls = [(0, [(''k'', [(''1-0'', start_msg demo_base CHUNK_SIZE ''t'' [], 0), (''1-1'', end_msg demo_base ''t'' 0, 0)])])]"

definition demo_wenv :: wenv where
  "demo_wenv = sample_wenv
     \<lparr>w_host := demo_host, identity := Inr [''delegate_id'' \<mapsto> uuid_str 2, ''tenant_id'' \<mapsto> ''acme''],
      attempt_of := (\<lambda>_. \<lparr>ae_now = 0, ae_polls = demo_polls, ae_error = None\<rparr>)\<rparr>"

lemma demo_send: "fst (send_bytes CHUNK_SIZE ''t'' [] demo_base) = [start_msg demo_base CHUNK_SIZE ''t'' [], end_msg demo_base ''t'' 0]"
  by (simp add: send_bytes_def Let_def py_range_def CHUNK_SIZE_def)

lemma demo_delivered: "delivered 15000 0 ''0'' demo_polls ''t'' (fst (send_bytes CHUNK_SIZE ''t'' [] demo_base))"
  unfolding delivered_def demo_send
  by (intro exI [of _ "start_msg demo_base CHUNK_SIZE ''t'' []"] exI [of _ "[]"] exI [of _ "end_msg demo_base ''t'' 0"] exI [of _ "[]"]
      exI [of _ "(''1-0'', start_msg demo_base CHUNK_SIZE ''t'' [], 0)"] exI [of _ "[]"]
      exI [of _ "(''1-1'', end_msg demo_base ''t'' 0, 0)"] exI [of _ "[]"] exI [of _ "rx_init 15000 0 ''0''"])
    (auto simp: demo_polls_def msg_fields_def msg_time_def intro: delivery.finished)

lemma workspace_end_to_end_witness:
  "\<exists>wk' r. prepare_execution demo_wenv ''task'' ''dir'' [uuid_str 1, ''*''] Map.empty wk_init = Some (wk', r)
     \<and> wk_prepared wk' ''task'' = Some ''dir'' \<and> wk_extracted wk' = [(''dir'', [(''a'', [7])])]"
proof -
  let ?keys = "stream_keys (uuid_str 1) (uuid_str 2)"
  let ?req = "request_msg (base_fields (uuid_str 1) ''acme'' (uuid_str 2)) ''*''"
  have law: "\<forall>es z. zip_write demo_host es = Inr z \<longrightarrow> zip_read (w_host demo_wenv) z = Inr es"
    by (auto simp: demo_host_def demo_wenv_def split: if_splits)
  have ex: "executions (ds_db demo_ds) 1 = Some sample_execution"
    by (simp add: demo_ds_def)
  have auth: "authorized (ds_db demo_ds) sample_execution 2 (uuid_str 2) ''acme''"
    by (simp add: demo_ds_def authorized_def sample_delegate_def sample_execution_def delegate_id_text_def)
  have fixture: "e_workspace_fixture sample_execution = ''demo''" by (simp add: sample_execution_def)
  have zip: "zip_directory_to_bytes demo_host (py_join ''/fixtures'' (e_workspace_fixture sample_execution)) = Inr []"
    by (simp add: fixture demo_zip)
  obtain ds1 where req: "handle_data_request demo_host ''/fixtures'' ''t'' (uuid_str 1) (events_key ?keys) ?req demo_ds = (ds1, Inr ())"
    and sent: "ds_sent ds1 = ds_sent demo_ds @ map (Pair (events_key ?keys)) (fst (send_bytes CHUNK_SIZE ''t'' [] demo_base))"
    using data_request_answered [OF to_uuid_str ex to_uuid_str auth, of demo_host "''/fixtures''" "''*''" "[]" "''t''" "events_key ?keys"] zip
    by (auto simp: workspace_zip_def demo_base_def)
  have env: "\<forall>n. redis_up demo_wenv n" "identity demo_wenv = Inr [''delegate_id'' \<mapsto> uuid_str 2, ''tenant_id'' \<mapsto> ''acme'']"
    "TRANSFER_MAX_RETRIES demo_wenv \<noteq> 0" "wait_timeout demo_wenv = 15000" "attempt_of demo_wenv i = \<lparr>ae_now = 0, ae_polls = demo_polls, ae_error = None\<rparr>" for i
    by (simp_all add: demo_wenv_def sample_wenv_def)
  have idn: "[''delegate_id'' \<mapsto> uuid_str 2, ''tenant_id'' \<mapsto> ''acme''] ''delegate_id'' = Some (uuid_str 2)"
    "[''delegate_id'' \<mapsto> uuid_str 2, ''tenant_id'' \<mapsto> ''acme''] ''tenant_id'' = Some ''acme''" by simp_all
  have "delivered (wait_timeout demo_wenv) (ae_now (attempt_of demo_wenv 1)) ''0'' (ae_polls (attempt_of demo_wenv 1)) ''t''
      (map snd (drop (length (ds_sent demo_ds)) (ds_sent ds1)))"
    using demo_delivered by (simp add: sent comp_def env(4,5))
  from workspace_end_to_end [OF law to_uuid_str ex to_uuid_str auth zip env(1,2) idn env(3) req this, of "''task''" "''dir''" Map.empty wk_init]
  show ?thesis
    by (auto simp: fixture demo_host_def sample_host_def demo_relpath wk_init_def)
qed

section \<open>The output travels back\<close>

text \<open>The chunks of a transfer, delivered once and in order.\<close>

lemma delivery_itself: "\<forall>f \<in> set sent. chunk_no tid f \<noteq> None \<Longrightarrow> delivery tid S sent sent"
  by (induction sent arbitrary: S) (auto intro: delivery.finished delivery.new_chunk)

lemma send_delivery:
  assumes "0 < cs" and "send_bytes cs tid data base = (start # chunks @ [closing], res)"
  shows "delivery tid {} chunks chunks"
proof -
  have "send_bytes (int (nat cs)) tid data base = (start # chunks @ [closing], res)" using assms by simp
  from send_bytes_messages [OF _ this] assms(1) obtain n g where "chunks = map (\<lambda>i. chunk_msg base tid i (g i)) [0..<n]"
    by auto
  then have "\<forall>f \<in> set chunks. chunk_no tid f \<noteq> None" by (auto simp: chunk_no_def chunk_msg_def)
  then show ?thesis by (rule delivery_itself)
qed

lemma execute_task_sends:
  assumes "wk_prepared s tid = Some dir" and "identity w = Inr idn" and "idn ''delegate_id'' = Some d" and "idn ''tenant_id'' = Some t"
    and "execute_task w tid nt out eid s = (s', Inr ())"
  shows "\<exists>names z. listdir w dir = Inr names
    \<and> zip_directory_to_bytes (with_file (w_host w) out ''result.txt'' (text_bytes (result_text w (sort names)))) out = Inr z
    \<and> map snd (filter (\<lambda>x. fst x = output_key (stream_keys eid d)) (drop (length (wk_sent s)) (wk_sent s')))
        = fst (send_bytes CHUNK_SIZE nt z (base_fields eid t d))"
proof -
  let ?keys = "stream_keys eid d" and ?base = "base_fields eid t d"
  let ?s = "s\<lparr>wk_prepared := (wk_prepared s)(tid := None)\<rparr>"
  note dist = key_values_distinct [of eid d]
  obtain s1 where try1: "task_try w nt dir out ?keys ?base ?s = (s1, Inr ())" and sent': "wk_sent s' = wk_sent s1"
    using assms(1-5)
    by (cases "task_try w nt dir out ?keys ?base ?s"; cases "snd (task_try w nt dir out ?keys ?base ?s)")
      (auto simp: execute_task_def Let_def wbind_def split: prod.splits sum.splits)
  obtain z names logs m where z: "listdir w dir = Inr names"
      "zip_directory_to_bytes (with_file (w_host w) out ''result.txt'' (text_bytes (result_text w (sort names)))) out = Inr z"
    and sent: "wk_sent s1 = wk_sent ?s @ (status_key ?keys, ?base(''type'' \<mapsto> ''STATUS'', ''status'' \<mapsto> ''EXECUTING'')) # logs
        @ map (Pair (output_key ?keys)) (fst (send_bytes CHUNK_SIZE nt z ?base)) @ [(log_key ?keys, m),
          (status_key ?keys, ?base(''type'' \<mapsto> ''STATUS'', ''status'' \<mapsto> ''TASK_SUCCEEDED''))]"
    and logs: "fst ` set logs \<subseteq> {log_key ?keys}"
    using task_try_Inr [OF try1] by blast
  have neq: "status_key ?keys \<noteq> output_key ?keys" "log_key ?keys \<noteq> output_key ?keys" using dist by (auto simp: key_values_def)
  have "filter (\<lambda>x. fst x = output_key ?keys) logs = []" using logs neq by (force simp: filter_empty_conv)
  then have "map snd (filter (\<lambda>x. fst x = output_key ?keys) (drop (length (wk_sent s)) (wk_sent s')))
      = fst (send_bytes CHUNK_SIZE nt z ?base)"
    using neq by (simp add: sent' sent comp_def filter_map)
  with z show ?thesis by blast
qed

text \<open>C4: The output arrives. A task that returns has sent its result; once the dispatcher's watcher has
  consumed what the worker added to the output stream, mixed with any messages of the other
  streams, the control plane has stored exactly the ZIP of the worker's output directory, with
  the result text for the files the task found in its workspace, and the execution's row has
  its path and checksum; and if nothing came after it, the execution is SUCCEEDED.\<close>

theorem output_end_to_end:
  assumes "wk_prepared s tid = Some dir" and "identity w = Inr idn" and "idn ''delegate_id'' = Some d" and "idn ''tenant_id'' = Some t"
    and "execute_task w tid nt out eid s = (s', Inr ())"
    and "to_uuid eid = Inr u" and "executions (ds_db ds) u \<noteq> None"
    and "outs_of (stream_keys eid d) ms = pre @ map snd (filter (\<lambda>x. fst x = output_key (stream_keys eid d))
           (drop (length (wk_sent s)) (wk_sent s')))"
    and "watch_messages c eid (stream_keys eid d) ms (ds, wt) = ((ds1, wt1), Inr ())"
  shows "\<exists>names z row. listdir w dir = Inr names
    \<and> zip_directory_to_bytes (with_file (w_host w) out ''result.txt'' (text_bytes (result_text w (sort names)))) out = Inr z
    \<and> ds_files ds1 (out_path (cfg_media c) eid) = Some z
    \<and> executions (ds_db ds1) u = Some row \<and> e_output_path row = out_path (cfg_media c) eid
    \<and> e_output_checksum row = sha256_bytes z
    \<and> (fst (last ms) = output_key (stream_keys eid d) \<longrightarrow> e_status row = STATUS_SUCCEEDED)"
proof -
  let ?keys = "stream_keys eid d" and ?base = "base_fields eid t d"
  obtain names z where z: "listdir w dir = Inr names"
      "zip_directory_to_bytes (with_file (w_host w) out ''result.txt'' (text_bytes (result_text w (sort names)))) out = Inr z"
    and outs: "outs_of ?keys ms = pre @ fst (send_bytes CHUNK_SIZE nt z ?base)"
    using execute_task_sends [OF assms(1-5)] assms(8) by auto
  obtain ms' res where send: "send_bytes CHUNK_SIZE nt z ?base = (ms', res)" by fastforce
  obtain start chunks closing where ms': "ms' = start # chunks @ [closing]"
    using send_bytes_run [OF chunk_size_pos send, of None] by blast
  have "outs_of ?keys ms = pre @ start # chunks @ [closing]" using outs send ms' by simp
  moreover have "delivery nt {} chunks chunks"
    using send_delivery [OF chunk_size_pos send [unfolded ms']] .
  ultimately show ?thesis
    using output_transfer [OF refl assms(6,7) chunk_size_pos send [unfolded ms'] _ _ assms(9)] z by blast
qed

lemma output_end_to_end_witness:
  "\<exists>s' ds1 wt1 row. execute_task sample_wenv ''task'' ''x'' ''out'' (uuid_str 1) (wk_init\<lparr>wk_prepared := [''task'' \<mapsto> ''dir'']\<rparr>) = (s', Inr ())
     \<and> watch_messages sample_config (uuid_str 1) (stream_keys (uuid_str 1) ''d'')
         (map (\<lambda>x. (fst x, ''1-0'', snd x, ''n'')) (filter (\<lambda>x. fst x = output_key (stream_keys (uuid_str 1) ''d'')) (wk_sent s')))
         (demo_ds, watch_init (stream_keys (uuid_str 1) ''d'')) = ((ds1, wt1), Inr ())
     \<and> executions (ds_db ds1) 1 = Some row \<and> e_output_checksum row = sha256_bytes []"
proof -
  let ?s = "wk_init\<lparr>wk_prepared := [''task'' \<mapsto> ''dir'']\<rparr>" and ?keys = "stream_keys (uuid_str 1) ''d''"
  let ?base = "base_fields (uuid_str 1) ''t'' ''d''" and ?idn = "[''delegate_id'' \<mapsto> ''d'', ''tenant_id'' \<mapsto> ''t'']"
  obtain s' where run: "execute_task sample_wenv ''task'' ''x'' ''out'' (uuid_str 1) ?s = (s', Inr ())"
    using sample_task by blast
  have zip: "zip_directory_to_bytes (with_file sample_host ''out'' ''result.txt'' content) ''out'' = Inr []" for content
    by (simp add: zip_directory_to_bytes_def with_file_def sample_host_def)
  have send: "fst (send_bytes CHUNK_SIZE ''x'' [] ?base) = [start_msg ?base CHUNK_SIZE ''x'' [], end_msg ?base ''x'' 0]"
    by (simp add: send_bytes_def Let_def py_range_def CHUNK_SIZE_def)
  have prep: "wk_prepared ?s ''task'' = Some ''dir''" by simp
  let ?L = "filter (\<lambda>x. fst x = output_key ?keys) (wk_sent s')"
  obtain z where "map snd ?L = fst (send_bytes CHUNK_SIZE ''x'' z ?base)" and "z = []"
    using execute_task_sends [OF prep _ _ _ run, of ?idn "''d''" "''t''"] zip by (auto simp: wk_init_def)
  then have L: "map snd ?L = [start_msg ?base CHUNK_SIZE ''x'' [], end_msg ?base ''x'' 0]" by (simp add: send)
  let ?ms = "map (\<lambda>x. (fst x, ''1-0'', snd x, ''n'')) ?L"
  have "?ms = map (\<lambda>f. (output_key ?keys, ''1-0'', f, ''n'')) (map snd ?L)" by simp
  then have ms: "?ms = [(output_key ?keys, ''1-0'', start_msg ?base CHUNK_SIZE ''x'' [], ''n''),
      (output_key ?keys, ''1-0'', end_msg ?base ''x'' 0, ''n'')]" unfolding L by simp
  have nc: "\<not> xfer_closes None (start_msg ?base CHUNK_SIZE ''x'' [])" by (simp add: xfer_closes_def)
  obtain ds1 wt1 where watch: "watch_messages sample_config (uuid_str 1) ?keys ?ms (demo_ds, watch_init ?keys) = ((ds1, wt1), Inr ())"
    unfolding ms
    by (simp add: watch_message_output [OF refl] Let_def output_not_closing nc xfer_step_start_msg watch_init_def
        output_closing xfer_closes_def end_msg_def finish_output_def)
  have outs: "outs_of ?keys ?ms = [] @ map snd (filter (\<lambda>x. fst x = output_key ?keys) (drop (length (wk_sent ?s)) (wk_sent s')))"
    unfolding ms using L by (simp add: wk_init_def)
  have row: "executions (ds_db demo_ds) 1 \<noteq> None" by (simp add: demo_ds_def)
  from output_end_to_end [OF prep _ _ _ run to_uuid_str row, of ?idn "''d''" "''t''", OF _ _ _ outs watch] run watch zip
  show ?thesis by auto
qed

section \<open>A restart, from the operator to the containers\<close>

lemma hello_accepted:
  assumes "gw_conns g ws = None" and "peer_cert_delegate_id cert = Some (uuid_str u)"
    and "find_delegate (gw_db g) u = Some row" and "d_status row = STATUS_ACTIVE"
  shows "\<exists>g'. gw_run g g' \<and> map_of (CONNECTED g') (uuid_str u) = Some ws \<and> gw_db g' = gw_db g \<and> gw_sent g' = gw_sent g"
proof -
  let ?c = "\<lparr>cn_cert = Some (uuid_str u), cn_id = None, cn_phase = Reading\<rparr>"
  let ?g1 = "gw_accept ws cert g"
  let ?g2 = "gw_message ws ?c (Inr (hello_msg (JStr (uuid_str u)))) ?g1"
  let ?g3 = "gw_lookup ws (?c\<lparr>cn_phase := Looking (uuid_str u)\<rparr>) (uuid_str u) ?g2"
  let ?g4 = "gw_resume ws (?c\<lparr>cn_phase := Looked (uuid_str u) (Some (u, row))\<rparr>) (uuid_str u) (Some (u, row)) ?g3"
  have c1: "gw_conns ?g1 ws = Some ?c" by (simp add: gw_accept_def assms(2))
  have g2: "?g2 = set_conn ws (?c\<lparr>cn_phase := Looking (uuid_str u)\<rparr>) ?g1"
    using uuid_str_hd_last(1) [of u] by (simp add: gw_message_def hello_msg_def)
  have look: "lookup_active_delegate (gw_db ?g2) (uuid_str u) = Some (u, row)"
    unfolding g2 using assms(3,4) by (simp add: gw_accept_def lookup_active_delegate_def)
  have "gw_step g ?g1" using assms(1) by (rule gw_step.accept)
  moreover have "gw_step ?g1 ?g2" by (rule gw_step.message [OF c1]) simp
  moreover have "gw_step ?g2 ?g3" by (rule gw_step.lookup) (simp_all add: g2)
  moreover have "gw_step ?g3 ?g4" by (rule gw_step.resume) (simp_all add: gw_lookup_def look)
  ultimately have "gw_run g ?g4" by (meson gw_run.intros)
  moreover have "map_of (CONNECTED ?g4) (uuid_str u) = Some ws" "gw_db ?g4 = gw_db g" "gw_sent ?g4 = gw_sent g"
    unfolding g2 by (simp_all add: gw_resume_def gw_lookup_def gw_accept_def update_conv')
  ultimately show ?thesis by blast
qed



section \<open>A task, from the API to the watcher\<close>

text \<open>C5: A created execution is set up on all sides. If the API answers 200, the one task it sent is
  for the key prefix and the queue its delegate's worker consumes, and carries the
  execution's id. When a worker with that delegate's identity announces it, the dispatcher,
  unless a live thread watches it already, starts one watcher, on exactly the four streams
  that worker writes to, and finds nothing to complain about; and as long as the database has
  the execution and the delegate as they are now, the worker's data requests are authorised,
  and a request by any other delegate or for another tenant is not.\<close>

theorem execution_end_to_end:
  assumes "clients_wf (cp_clients s)"
    and "create_checked w new_id (Inr ()) body tenant u fixture s = (s', Inr resp)" and "resp_status resp = 200"
    and "executions (ds_db ds) = executions (cp_db s')" and "delegates (ds_db ds) = delegates (cp_db s')"
    and "\<forall>t \<in> alive. mn_watched mn (uuid_str new_id) \<noteq> Some t"
  shows "\<exists>task row ex. cp_tasks s' = cp_tasks s @ [task] \<and> find_delegate (cp_db s') u = Some row
    \<and> task_prefix task = delegate_prefix (uuid_str u) \<and> task_queue task = d_queue row \<and> task_execution_id task = uuid_str new_id
    \<and> executions (ds_db ds) new_id = Some ex
    \<and> announcement text_of (i, announce_msg (task_execution_id task) (stream_keys (task_execution_id task) (uuid_str u)), alive) (ds, mn)
        = ((ds, spawn (uuid_str new_id) (stream_keys (uuid_str new_id) (uuid_str u)) (mn\<lparr>mn_last_id := i\<rparr>)), Inr ())
    \<and> (\<forall>v d t. to_uuid d = Inr v \<longrightarrow>
         (authorized (ds_db ds) ex v d t \<longleftrightarrow> d = uuid_str u \<and> t = d_tenant_id row))"
  using assms(1,2)
proof (cases rule: create_checked_cases)
  case unchanged
  with assms(3) show ?thesis by simp
next
  case (created row p task)
  let ?eid = "uuid_str new_id"
  have ex: "executions (ds_db ds) new_id = Some (queued row u p)" using created(7) assms(4) by simp
  have row: "find_delegate (ds_db ds) u = Some row" "find_delegate (cp_db s') u = Some row"
    using created(1,8) assms(5) by (simp_all add: find_delegate_def)
  have "announcement text_of (i, announce_msg ?eid (stream_keys ?eid (uuid_str u)), alive) (ds, mn)
      = ((ds, spawn ?eid (stream_keys ?eid (uuid_str u)) (mn\<lparr>mn_last_id := i\<rparr>)), Inr ())"
    using ex assms(6) uuid_str_hd_last(1) [of new_id]
    by (auto simp: announcement_def announce_msg_def field_or_def announced_keys_match_def queued_def Let_def)
  moreover have "authorized (ds_db ds) (queued row u p) v d t \<longleftrightarrow> d = uuid_str u \<and> t = d_tenant_id row"
    if d: "to_uuid d = Inr v" for v d t
  proof (cases "d = uuid_str u")
    case True
    then have "v = u" using d by simp
    with True row(1) created(2) show ?thesis by (auto simp: authorized_def queued_def delegate_id_text_def)
  next
    case False
    then show ?thesis by (simp add: authorized_def queued_def delegate_id_text_def split: option.splits)
  qed
  ultimately show ?thesis using created(13-16) ex row(2) by auto
qed

lemma execution_end_to_end_witness:
  "\<exists>s' resp task. create_checked create_web 9 (Inr ()) (JObj sample_create) (JStr ''acme'') 5 (JStr ''demo'') sample_full = (s', Inr resp)
     \<and> cp_tasks s' = [task] \<and> task_prefix task = delegate_prefix (uuid_str 5)
     \<and> announcement (\<lambda>_. []) (''1-0'', announce_msg (task_execution_id task) (stream_keys (task_execution_id task) (uuid_str 5)), {})
         (sample_ds\<lparr>ds_db := cp_db s'\<rparr>, main_init)
         = ((sample_ds\<lparr>ds_db := cp_db s'\<rparr>, spawn (uuid_str 9) (stream_keys (uuid_str 9) (uuid_str 5)) (main_init\<lparr>mn_last_id := ''1-0''\<rparr>)), Inr ())"
proof -
  obtain s' resp where run: "create_checked create_web 9 (Inr ()) (JObj sample_create) (JStr ''acme'') 5 (JStr ''demo'') sample_full = (s', Inr resp)"
    and ok: "resp_status resp = 200"
    using sample_created by (auto simp: create_web_def)
  have "cp_tasks sample_full = []" by (simp add: sample_full_def sample_cp_def)
  with execution_end_to_end [OF sample_full_facts(4) run ok, of "sample_ds\<lparr>ds_db := cp_db s'\<rparr>" "{}" main_init "\<lambda>_. []" "''1-0''"] run
  show ?thesis by auto
qed

end
