(* ===== verification/Deployment.thy ===== *)
theory Deployment
  imports Gateway Registration
begin

text \<open>
  What the processes are started with: the constants of
  \<open>control_plane/control_plane/settings.py\<close> that come from the environment, the start and the
  TLS context of the restart gateway, and the TLS context of the agent manager; and that the
  two contexts, with the certificates the CA issues, make a connection exactly when they
  should. A handshake is what the \<open>ssl\<close> module documents: each side checks the other's
  certificate against the root it trusts, its purpose and its validity, and the client checks
  the host name. Reading PEM texts belongs to the \<open>ssl\<close> module and is an argument.
\<close>

section \<open>Settings\<close>

record settings =
  set_redis_url :: string
  set_gateway_url :: string
  set_ca_dir :: string
  set_media_root :: string
  set_fixtures_dir :: string
  set_cert_days :: int
  set_token_ttl :: int

definition settings_of :: "string \<Rightarrow> environ \<Rightarrow> settings result" where
  "settings_of base_dir env =
     ebind (py_int (env_or env ''DELEGATE_CERT_VALIDITY_DAYS'' ''1'')) (\<lambda>days.
     ebind (py_int (env_or env ''REGISTRATION_TOKEN_TTL_SECONDS'' ''300'')) (\<lambda>ttl. Inr
       \<lparr>set_redis_url = env_or env ''REDIS_URL'' ''rediss://redis:6379/0'',
        set_gateway_url = env_or env ''RESTART_GATEWAY_CONTROL_URL'' ''http://restart_gateway:8766'',
        set_ca_dir = env_or env ''CA_DIR'' (py_join base_dir ''ca''),
        set_media_root = env_or env ''MEDIA_ROOT'' (py_join base_dir ''media''),
        set_fixtures_dir = env_or env ''WORKSPACE_FIXTURES_DIR'' ''/fixtures'',
        set_cert_days = days, set_token_ttl = ttl\<rparr>))"

section \<open>TLS contexts\<close>

record tls_server =
  ts_cert :: certificate
  ts_key :: key
  ts_root :: certificate
  ts_client_required :: bool

record tls_client =
  tc_cert :: certificate
  tc_key :: key
  tc_root :: certificate

text \<open>\<open>load_cert_chain\<close> and \<open>load_verify_locations\<close> on the files of the CA directory; a key that is
  not the certificate's is refused.\<close>

definition load_cert_chain :: "ca_files \<Rightarrow> string \<Rightarrow> string \<Rightarrow> (certificate \<times> key) result" where
  "load_cert_chain fs cp kp =
     (case (fs cp, fs kp) of
        (Some (CertFile c), Some (KeyFile k)) \<Rightarrow>
          if c_public_key c = k then Inr (c, k) else Inl (OtherError ''SSLError'')
      | (None, _) \<Rightarrow> Inl (OSError ''No such file or directory'')
      | (_, None) \<Rightarrow> Inl (OSError ''No such file or directory'')
      | _ \<Rightarrow> Inl (OtherError ''SSLError''))"

definition load_verify_locations :: "ca_files \<Rightarrow> string \<Rightarrow> certificate result" where
  "load_verify_locations fs p =
     (case fs p of
        Some (CertFile c) \<Rightarrow> Inr c
      | Some (KeyFile _) \<Rightarrow> Inl (OtherError ''SSLError'')
      | None \<Rightarrow> Inl (OSError ''No such file or directory''))"

definition gateway_context :: "string \<Rightarrow> ca_files \<Rightarrow> tls_server result" where
  "gateway_context ca_dir fs =
     ebind (load_cert_chain fs (server_cert_path ca_dir) (server_key_path ca_dir)) (\<lambda>(c, k).
     ebind (load_verify_locations fs (ca_cert_path ca_dir)) (\<lambda>root.
       Inr \<lparr>ts_cert = c, ts_key = k, ts_root = root, ts_client_required = True\<rparr>))"

text \<open>\<open>Command.handle\<close> of the gateway, up to the listening sockets.\<close>

definition gateway_start ::
    "crypto \<Rightarrow> string \<Rightarrow> string \<Rightarrow> int \<Rightarrow> fresh \<Rightarrow> fresh \<Rightarrow> ca_files \<Rightarrow> (ca_files \<times> tls_server) result" where
  "gateway_start c cp_env ca_dir now root_fr fr fs =
     ebind (ensure_control_plane_server_cert c cp_env ca_dir now root_fr fr (ensure_root_ca ca_dir now root_fr fs)) (\<lambda>fs1.
     ebind (gateway_context ca_dir fs1) (\<lambda>ctx. Inr (fs1, ctx)))"

text \<open>The agent's context, from the files its delegate has stored.\<close>

definition read_text :: "disk \<Rightarrow> string \<Rightarrow> string result" where
  "read_text d p = (case dk_files d p of None \<Rightarrow> Inl (OSError ''No such file or directory'') | Some t \<Rightarrow> Inr t)"

definition agent_context ::
    "(string \<Rightarrow> certificate result) \<Rightarrow> (string \<Rightarrow> key result) \<Rightarrow> string \<Rightarrow> disk \<Rightarrow> tls_client result" where
  "agent_context load_pem load_key cert_dir d =
     ebind (ebind (read_text d (ca_path cert_dir)) load_pem) (\<lambda>root.
     ebind (ebind (read_text d (cert_path cert_dir)) load_pem) (\<lambda>cert.
     ebind (ebind (read_text d (key_path cert_dir)) load_key) (\<lambda>k.
       if c_public_key cert = k then Inr \<lparr>tc_cert = cert, tc_key = k, tc_root = root\<rparr>
       else Inl (OtherError ''SSLError''))))"

section \<open>Handshakes\<close>

definition in_time :: "int \<Rightarrow> certificate \<Rightarrow> bool" where
  "in_time t c \<longleftrightarrow> c_not_before c \<le> t \<and> t \<le> c_not_after c"

definition chain_ok :: "int \<Rightarrow> certificate \<Rightarrow> eku \<Rightarrow> certificate \<Rightarrow> bool" where
  "chain_ok t root purpose c \<longleftrightarrow>
     c_signed_by c = c_public_key root \<and> c_issuer c = c_subject root \<and> c_ca root \<and> ''key_cert_sign'' \<in> set (c_key_usage root)
     \<and> in_time t root \<and> in_time t c \<and> purpose \<in> set (c_eku c)"

definition server_accepts :: "int \<Rightarrow> tls_server \<Rightarrow> certificate option \<Rightarrow> bool" where
  "server_accepts t srv peer =
     (case peer of None \<Rightarrow> \<not> ts_client_required srv | Some c \<Rightarrow> chain_ok t (ts_root srv) CLIENT_AUTH c)"

definition client_accepts :: "int \<Rightarrow> string \<Rightarrow> tls_client \<Rightarrow> certificate \<Rightarrow> bool" where
  "client_accepts t host cl c \<longleftrightarrow> chain_ok t (tc_root cl) SERVER_AUTH c \<and> DNSName host \<in> set (c_san c)"

text \<open>The subject as \<open>getpeercert\<close> shows it: these certificates have a common name only.\<close>

definition subject_of :: "certificate \<Rightarrow> peercert" where
  "subject_of c = [[(''commonName'', c_subject c)]]"

section \<open>The gateway comes up\<close>

text \<open>A CA directory whose root was made at \<open>t0\<close>; and its server certificate is either not there yet
  or was issued at \<open>t1\<close> by this root.\<close>

definition rooted :: "string \<Rightarrow> int \<Rightarrow> fresh \<Rightarrow> ca_files \<Rightarrow> bool" where
  "rooted d t0 rf fs \<longleftrightarrow> fs (ca_key_path d) = Some (KeyFile (fst rf)) \<and> fs (ca_cert_path d) = Some (CertFile (root_cert t0 rf))"

definition serving :: "crypto \<Rightarrow> string \<Rightarrow> string \<Rightarrow> int \<Rightarrow> fresh \<Rightarrow> int \<Rightarrow> fresh \<Rightarrow> ca_files \<Rightarrow> bool" where
  "serving c cp_env d t0 rf t1 fr fs \<longleftrightarrow>
     fs (server_key_path d) = Some (KeyFile (fst fr))
     \<and> fs (server_cert_path d) = Some (CertFile (leaf_cert t1 fr (fst rf) (root_cert t0 rf) ''control_plane'' SERVER_AUTH
         (map (san_entry c) (CONTROL_PLANE_SERVER_NAMES cp_env))))"

lemma rooted_ensure: "rooted d t0 rf fs \<Longrightarrow> ensure_root_ca d now rf' fs = fs"
  by (simp add: rooted_def ensure_root_ca_def)

lemma gateway_up:
  assumes "rooted d t0 rf fs"
    and "serving c cp_env d t0 rf t1 fr fs \<or> (fs (server_key_path d) = None \<or> fs (server_cert_path d) = None) \<and> t1 = now \<and> fr = fr'"
  shows "\<exists>fs1 srv. gateway_start c cp_env d now rf' fr' fs = Inr (fs1, srv) \<and> rooted d t0 rf fs1
    \<and> ts_cert srv = leaf_cert t1 fr (fst rf) (root_cert t0 rf) ''control_plane'' SERVER_AUTH
         (map (san_entry c) (CONTROL_PLANE_SERVER_NAMES cp_env))
    \<and> ts_root srv = root_cert t0 rf \<and> ts_client_required srv"
proof -
  let ?leaf = "leaf_cert t1 fr (fst rf) (root_cert t0 rf) ''control_plane'' SERVER_AUTH
      (map (san_entry c) (CONTROL_PLANE_SERVER_NAMES cp_env))"
  have "\<exists>fs1. ensure_control_plane_server_cert c cp_env d now rf' fr' fs = Inr fs1 \<and> rooted d t0 rf fs1
      \<and> serving c cp_env d t0 rf t1 fr fs1"
    using assms ca_paths_distinct [of d] rooted_ensure [OF assms(1)]
    by (auto simp: ensure_control_plane_server_cert_def issue_leaf_cert_def Let_def load_ca_def rooted_def serving_def)
  then obtain fs1 where fs1: "ensure_control_plane_server_cert c cp_env d now rf' fr' fs = Inr fs1" "rooted d t0 rf fs1"
    "serving c cp_env d t0 rf t1 fr fs1" by blast
  have "gateway_context d fs1 = Inr \<lparr>ts_cert = ?leaf, ts_key = fst fr, ts_root = root_cert t0 rf, ts_client_required = True\<rparr>"
    using fs1(2,3) by (simp add: gateway_context_def load_cert_chain_def load_verify_locations_def rooted_def serving_def leaf_cert_def)
  with fs1(1,2) show ?thesis by (simp add: gateway_start_def rooted_ensure [OF assms(1)])
qed

lemma sign_rooted:
  assumes "rooted d t0 rf fs" and "load_csr c csr_pem = Inr q" and "is_signature_valid q"
  shows "sign_csr_cert c d now rf' serial csr_pem cn days fs =
    (fs, Inr (delegate_cert now serial (fst rf) (root_cert t0 rf) q cn days))"
  using assms by (simp add: sign_csr_cert_def rooted_ensure load_ca_def rooted_def Let_def)

text \<open>C29: Mutual TLS between agent and gateway. On a CA directory with its root, whether its server
  certificate is still to be issued or was issued before, the gateway starts. A delegate's
  certificate signed from that directory, stored by the worker with its key and the CA
  certificate, gives the agent a context with which the handshake succeeds in both
  directions, under the gateway's name in the network, at every time all certificates are
  valid; and the gateway then reads the delegate's id off the certificate. The gateway takes
  no one without a certificate and none that the root's key did not sign, and not this one
  after its days are over.\<close>

theorem mtls_handshake:
  assumes "rooted d t0 rf fs"
    and "serving c cp_env d t0 rf t1 fr fs \<or> (fs (server_key_path d) = None \<or> fs (server_cert_path d) = None) \<and> t1 = now \<and> fr = fr'"
    and "load_csr c csr_pem = Inr q" and "is_signature_valid q"
    and "dk_files dk (ca_path cd) = Some ca_pem" and "ca_cert_pem c d fs = Inr ca_pem"
    and "dk_files dk (cert_path cd) = Some cert_pem" and "dk_files dk (key_path cd) = Some key_pem"
    and "snd (sign_csr c d t2 rf'' serial csr_pem cn days fs) = Inr (cert_pem, ser, na)"
    and "load_key key_pem = Inr (csr_public_key q)"
    and "\<forall>x \<in> {root_cert t0 rf, delegate_cert t2 serial (fst rf) (root_cert t0 rf) q cn days}. load_pem (pem c x) = Inr x"
    and "\<not> is_ip c ''restart_gateway''"
  shows "\<exists>fs1 srv cl. gateway_start c cp_env d now rf' fr' fs = Inr (fs1, srv) \<and> agent_context load_pem load_key cd dk = Inr cl
    \<and> (\<forall>t. t0 \<le> t \<and> t1 \<le> t \<and> t2 \<le> t \<and> t \<le> t0 + 3650 * 86400 \<and> t \<le> t1 + 3650 * 86400 \<and> t \<le> t2 + days * 86400 \<longrightarrow>
         client_accepts t ''restart_gateway'' cl (ts_cert srv) \<and> server_accepts t srv (Some (tc_cert cl)))
    \<and> peer_cert_delegate_id (Some (subject_of (tc_cert cl))) = Some cn
    \<and> (\<forall>t. \<not> server_accepts t srv None) \<and> (\<forall>t x. server_accepts t srv (Some x) \<longrightarrow> c_signed_by x = fst rf)
    \<and> (\<forall>t > t2 + days * 86400. \<not> server_accepts t srv (Some (tc_cert cl)))"
proof -
  let ?cert = "delegate_cert t2 serial (fst rf) (root_cert t0 rf) q cn days"
  have "cert_pem = pem c ?cert"
    using assms(9) sign_rooted [OF assms(1,3,4), of t2 rf'' serial cn days] by (simp add: sign_csr_def emap_def)
  moreover have "ca_pem = pem c (root_cert t0 rf)"
    using assms(1,6) by (simp add: ca_cert_pem_def rooted_def)
  ultimately have cl: "agent_context load_pem load_key cd dk
      = Inr \<lparr>tc_cert = ?cert, tc_key = csr_public_key q, tc_root = root_cert t0 rf\<rparr>"
    using assms(5,7,8,10,11) by (simp add: agent_context_def read_text_def delegate_cert_def)
  obtain fs1 srv where srv: "gateway_start c cp_env d now rf' fr' fs = Inr (fs1, srv)"
    "ts_cert srv = leaf_cert t1 fr (fst rf) (root_cert t0 rf) ''control_plane'' SERVER_AUTH
         (map (san_entry c) (CONTROL_PLANE_SERVER_NAMES cp_env))"
    "ts_root srv = root_cert t0 rf" "ts_client_required srv"
    using gateway_up [OF assms(1,2), of rf'] by blast
  have "DNSName ''restart_gateway'' \<in> set (c_san (ts_cert srv))"
    using assms(12) by (simp add: srv(2) leaf_cert_def CONTROL_PLANE_SERVER_NAMES_def san_entry_def)
  then show ?thesis
    using cl srv(1,3,4)
    by (intro exI [of _ fs1] exI [of _ srv] exI [of _ "\<lparr>tc_cert = ?cert, tc_key = csr_public_key q, tc_root = root_cert t0 rf\<rparr>"])
      (auto simp: client_accepts_def server_accepts_def chain_ok_def in_time_def srv(2) leaf_cert_def delegate_cert_def root_cert_def
        Let_def subject_of_def peer_cert_delegate_id_def)
qed

lemma mtls_handshake_witness:
  "\<exists>fs1 srv c. gateway_start sample_crypto [] ''/ca'' 10 (8, 8) (3, 4)
       [ca_key_path ''/ca'' \<mapsto> KeyFile 1, ca_cert_path ''/ca'' \<mapsto> CertFile (root_cert 0 (1, 2))] = Inr (fs1, srv)
     \<and> server_accepts 30 srv (Some c) \<and> c_subject c = ''d'' \<and> \<not> server_accepts 30 srv None"
proof -
  let ?fs = "[ca_key_path ''/ca'' \<mapsto> KeyFile 1, ca_cert_path ''/ca'' \<mapsto> CertFile (root_cert 0 (1, 2))]"
  let ?q = "\<lparr>csr_subject = ''csr'', csr_public_key = 7, is_signature_valid = True\<rparr>"
  let ?root = "root_cert 0 (1, 2)" and ?cert = "delegate_cert 20 5 (fst (1 :: nat, 2 :: nat)) (root_cert 0 (1, 2)) ?q ''d'' 1"
  let ?load = "\<lambda>s. if s = ''d'' then Inr ?cert else Inr ?root"
  let ?dk = "\<lparr>dk_files = [ca_path ''/certs'' \<mapsto> c_subject ?root, cert_path ''/certs'' \<mapsto> ''d'', key_path ''/certs'' \<mapsto> ''k''], dk_mode = Map.empty\<rparr>"
  have rooted: "rooted ''/ca'' 0 (1, 2) ?fs" using ca_paths_distinct [of "''/ca''"] by (simp add: rooted_def)
  have new: "serving sample_crypto [] ''/ca'' 0 (1, 2) 10 (3, 4) ?fs
      \<or> (?fs (server_key_path ''/ca'') = None \<or> ?fs (server_cert_path ''/ca'') = None) \<and> (10 :: int) = 10 \<and> (3 :: nat, 4 :: nat) = (3, 4)"
    using ca_paths_distinct [of "''/ca''"] by auto
  have csr: "load_csr sample_crypto ''csr'' = Inr ?q" "is_signature_valid ?q" by (simp_all add: sample_crypto_def)
  have ca: "dk_files ?dk (ca_path ''/certs'') = Some (c_subject ?root)" "ca_cert_pem sample_crypto ''/ca'' ?fs = Inr (c_subject ?root)"
    "dk_files ?dk (cert_path ''/certs'') = Some ''d''" "dk_files ?dk (key_path ''/certs'') = Some ''k''"
    using rooted by (simp_all add: ca_cert_pem_def sample_crypto_def rooted_def)
  have sign: "snd (sign_csr sample_crypto ''/ca'' 20 (9, 9) 5 ''csr'' ''d'' 1 ?fs) = Inr (''d'', hex_nat 5, 20 + 1 * 86400)"
    using sign_rooted [OF rooted csr, of 20 "(9, 9)" 5 "''d''" 1] by (simp add: sign_csr_def emap_def sample_crypto_def delegate_cert_def)
  have pem: "\<forall>x \<in> {root_cert 0 (1, 2), ?cert}. ?load (pem sample_crypto x) = Inr x"
    by (simp add: sample_crypto_def root_cert_def delegate_cert_def Let_def)
  have ip: "\<not> is_ip sample_crypto ''restart_gateway''" by (simp add: sample_crypto_def)
  from mtls_handshake [OF rooted new csr ca sign _ pem ip, of "\<lambda>_. Inr 7" "(8, 8)"]
  obtain fs1 srv cl where g: "gateway_start sample_crypto [] ''/ca'' 10 (8, 8) (3, 4) ?fs = Inr (fs1, srv)"
    "agent_context ?load (\<lambda>_. Inr 7) ''/certs'' ?dk = Inr cl" "server_accepts 30 srv (Some (tc_cert cl))" "\<not> server_accepts 30 srv None"
    by fastforce
  moreover have "tc_cert cl = ?cert" using g(2) by (auto simp: agent_context_def read_text_def delegate_cert_def ebind_eq_Inr root_cert_def Let_def split: if_splits)
  ultimately show ?thesis by (force simp: delegate_cert_def)
qed

end
