(* ===== verification/Recovery.thy ===== *)
theory Recovery
  imports EndToEnd
begin

text \<open>
  Recovery by starting over: a worker that was killed in the middle of a transfer, or whose
  dispatcher was, reads its events stream from the beginning again, past everything earlier
  attempts have left there, and still reconstructs the workspace from the first transfer that is
  complete. \<open>scripts/kill_mid_transfer_test.py\<close> tries this on a deployed system.
\<close>

section \<open>What earlier attempts leave in a stream\<close>

text \<open>Messages that are no part of a transfer (requests), and transfers cut short after any number of
  chunks, each mixed and repeated as a reader may see them.\<close>

definition idle :: "fields \<Rightarrow> bool" where
  "idle f = (f ''type'' \<notin> {Some ''DATA_START'', Some ''DATA_CHUNK'', Some ''DATA_END''})"

inductive aborted :: "fields list \<Rightarrow> bool" where
  nothing: "aborted []"
| idling: "idle f \<Longrightarrow> aborted fs \<Longrightarrow> aborted (f # fs)"
| cut: "0 < cs \<Longrightarrow> send_bytes cs tid data base = (start # (sent @ unsent) @ [closing], res) \<Longrightarrow>
    delivery tid {} sent got \<Longrightarrow> aborted fs \<Longrightarrow> aborted (start # got @ fs)"

text \<open>None of this ends a call of the receiver.\<close>

lemma rx_idle:
  assumes "rx_ok r" and "idle (msg_fields m)"
  shows "\<exists>r'. rx_feed w r m = Inr r' \<and> rx_ok r'"
proof -
  obtain i f now where m: "m = (i, f, now)" by (cases m) auto
  have "rx_feed w r m = Inr (r\<lparr>rx_last_id := i\<rparr>)"
    unfolding m using assms by (intro rx_feed_skip) (auto simp: m idle_def msg_fields_def xfer_closes_def split: option.splits)
  with assms(1) show ?thesis by (auto simp: rx_ok_def)
qed

lemma rx_aborted:
  assumes "aborted fs" and "map msg_fields ms = fs" and "rx_ok r"
  shows "\<exists>r'. fold_res (rx_feed w) r ms = Inr r' \<and> rx_ok r'"
  using assms
proof (induction fs arbitrary: ms r rule: aborted.induct)
  case nothing
  then show ?case by simp
next
  case (idling f fs)
  then obtain m ms' where ms: "ms = m # ms'" "msg_fields m = f" "map msg_fields ms' = fs" by auto
  obtain r1 where "rx_feed w r m = Inr r1" "rx_ok r1"
    using rx_idle [OF idling.prems(2)] idling.hyps(1) ms(2) by metis
  with idling.IH [OF ms(3)] show ?case by (simp add: ms(1))
next
  case (cut cs tid data base start sent unsent closing res got fs)
  then obtain m0 ms0 ms' where ms: "ms = m0 # ms0 @ ms'" "msg_fields m0 = start" "map msg_fields ms0 = got" "map msg_fields ms' = fs"
    by (auto simp: map_eq_Cons_conv map_eq_append_conv)
  obtain r1 where r1: "fold_res (rx_feed w) r (m0 # ms0) = Inr r1" "rx_ok r1"
    using rxs.transfer_partial [OF cut.hyps(1,2) cut.prems(2) ms(2)] cut.hyps(3) ms(3) by metis
  obtain r2 where "fold_res (rx_feed w) r1 ms' = Inr r2" "rx_ok r2"
    using cut.IH [OF ms(4) r1(2)] by blast
  with r1(1) have "fold_res (rx_feed w) r ((m0 # ms0) @ ms') = Inr r2" "rx_ok r2"
    by (simp_all add: fold_res_append del: fold_res.simps append_Cons)
  then show ?case using ms(1) by auto
qed

text \<open>The polls of a restarted receiver: what is left of earlier attempts, then a whole transfer, in time.\<close>

definition recreated :: "int \<Rightarrow> int \<Rightarrow> poll list \<Rightarrow> string \<Rightarrow> fields list \<Rightarrow> bool" where
  "recreated wt t0 polls tid ms \<longleftrightarrow>
     (\<exists>start chunks closing pre m0 got m1 post. ms = start # chunks @ [closing]
        \<and> poll_msgs polls = pre @ m0 # got @ m1 # post \<and> aborted (map msg_fields pre)
        \<and> msg_fields m0 = start \<and> msg_fields m1 = closing \<and> delivery tid {} chunks (map msg_fields got)
        \<and> (\<forall>(now, resp) \<in> set polls. now < t0 + wt) \<and> (\<forall>m \<in> set (poll_msgs polls). t0 \<le> msg_time m))"

lemma recreated_delivered:
  assumes "recreated wt t0 polls tid ms"
  shows "delivered wt t0 ''0'' polls tid ms"
proof -
  obtain start chunks closing pre m0 got m1 post where h: "ms = start # chunks @ [closing]"
    "poll_msgs polls = pre @ m0 # got @ m1 # post" "aborted (map msg_fields pre)"
    "msg_fields m0 = start" "msg_fields m1 = closing" "delivery tid {} chunks (map msg_fields got)"
    "\<forall>(now, resp) \<in> set polls. now < t0 + wt" "\<forall>m \<in> set (poll_msgs polls). t0 \<le> msg_time m"
    using assms unfolding recreated_def by blast
  obtain r1 where "fold_res (rx_feed wt) (rx_init wt t0 ''0'') pre = Inr r1"
    using rx_aborted [OF h(3) refl rx_ok_init] by blast
  from rx_batch_fold [OF this, of "[]"] have "rx_batch wt (rx_init wt t0 ''0'') pre = Continue r1" by simp
  with h show ?thesis unfolding delivered_def by blast
qed

section \<open>Two requests\<close>

lemma data_request_counted:
  assumes "to_uuid eid = Inr eu" and "executions (ds_db s) eu = Some ex" and "to_uuid d = Inr du"
    and "authorized (ds_db s) ex du d t" and "workspace_zip h (py_join fixtures (e_workspace_fixture ex)) ''*'' = Inr (Some z)"
    and "handle_data_request h fixtures ntid eid ekey (request_msg (base_fields eid t d) ''*'') s = (s1, out)"
  shows "out = Inr () \<and> executions (ds_db s1) eu =
      Some (ex\<lparr>e_status := STATUS_TRANSFERRING, e_transfer_id := ntid, e_transfer_attempts := e_transfer_attempts ex + 1\<rparr>)
    \<and> find_delegate (ds_db s1) = find_delegate (ds_db s)"
proof -
  obtain ms res where send: "send_bytes CHUNK_SIZE ntid z [''execution_id'' \<mapsto> eid, ''tenant_id'' \<mapsto> t] = (ms, res)" by fastforce
  then have "res = Inr (ntid, sha256_bytes z, length z)"
    using send_bytes_run [OF chunk_size_pos send, of None] by blast
  with send assms show ?thesis
    by (auto simp: handle_data_request_def request_msg_def base_fields_def field_or_def Let_def)
qed

text \<open>C7: Recovery by starting over. A worker asks for its workspace and is killed; restarted, it asks
  again and reads its stream from the beginning. Whatever the earlier attempts have left
  there, requests and transfers cut short at any chunk, if then the messages of one of the
  two transfers follow as a whole, the preparation returns, the worker's directory holds
  exactly the files of the workspace, and the execution has counted both transfers.\<close>

theorem recovery_end_to_end:
  assumes "\<forall>es z. zip_write h es = Inr z \<longrightarrow> zip_read (w_host w) z = Inr es"
    and "to_uuid eid = Inr eu" and "executions (ds_db ds) eu = Some ex"
    and "to_uuid d = Inr du" and "authorized (ds_db ds) ex du d t"
    and "zip_directory_to_bytes h (py_join fixtures (e_workspace_fixture ex)) = Inr z"
    and "\<forall>n. redis_up w n" and "identity w = Inr idn" and "idn ''delegate_id'' = Some d" and "idn ''tenant_id'' = Some t"
    and "TRANSFER_MAX_RETRIES w \<noteq> 0"
    and "handle_data_request h fixtures tid1 eid (events_key (stream_keys eid d)) (request_msg (base_fields eid t d) ''*'') ds = (ds1, out1)"
    and "handle_data_request h fixtures tid2 eid (events_key (stream_keys eid d)) (request_msg (base_fields eid t d) ''*'') ds1 = (ds2, out2)"
    and "recreated (wait_timeout w) (ae_now (attempt_of w 1)) (ae_polls (attempt_of w 1)) tid1 (map snd (drop (length (ds_sent ds)) (ds_sent ds1)))
       \<or> recreated (wait_timeout w) (ae_now (attempt_of w 1)) (ae_polls (attempt_of w 1)) tid2 (map snd (drop (length (ds_sent ds1)) (ds_sent ds2)))"
  shows "(\<exists>wk' r es. prepare_execution w task dir [eid, ''*''] kwargs wk = Some (wk', r)
    \<and> wk_prepared wk' task = Some dir \<and> wk_extracted wk' = wk_extracted wk @ [(dir, es)]
    \<and> read_entries h (map (\<lambda>p. (p, relpath (cwd h) p (py_join fixtures (e_workspace_fixture ex))))
         (concat (map (\<lambda>(root, files). map (py_join root) files) (walk h (py_join fixtures (e_workspace_fixture ex)))))) = Inr es)
    \<and> (\<exists>row. executions (ds_db ds2) eu = Some row \<and> e_transfer_attempts row = e_transfer_attempts ex + 2)"
proof -
  have zip: "workspace_zip h (py_join fixtures (e_workspace_fixture ex)) ''*'' = Inr (Some z)"
    using assms(6) by (simp add: workspace_zip_def)
  let ?ex = "ex\<lparr>e_status := STATUS_TRANSFERRING, e_transfer_id := tid1, e_transfer_attempts := e_transfer_attempts ex + 1\<rparr>"
  have one: "executions (ds_db ds1) eu = Some ?ex" "find_delegate (ds_db ds1) = find_delegate (ds_db ds)"
    using data_request_counted [OF assms(2-5) zip assms(12)] by simp_all
  have auth: "authorized (ds_db ds1) ?ex du d t" using assms(5) one(2) by (simp add: authorized_def split: option.splits)
  have "\<exists>row. executions (ds_db ds2) eu = Some row \<and> e_transfer_attempts row = e_transfer_attempts ex + 2"
    using data_request_counted [OF assms(2) one(1) assms(4) auth _ assms(13)] zip by simp
  moreover from assms(14) have "\<exists>wk' r es. prepare_execution w task dir [eid, ''*''] kwargs wk = Some (wk', r)
    \<and> wk_prepared wk' task = Some dir \<and> wk_extracted wk' = wk_extracted wk @ [(dir, es)]
    \<and> read_entries h (map (\<lambda>p. (p, relpath (cwd h) p (py_join fixtures (e_workspace_fixture ex))))
         (concat (map (\<lambda>(root, files). map (py_join root) files) (walk h (py_join fixtures (e_workspace_fixture ex)))))) = Inr es"
  proof
    assume "recreated (wait_timeout w) (ae_now (attempt_of w 1)) (ae_polls (attempt_of w 1)) tid1 (map snd (drop (length (ds_sent ds)) (ds_sent ds1)))"
    from workspace_arrives [OF assms(1-12) recreated_delivered [OF this]] show ?thesis by blast
  next
    assume "recreated (wait_timeout w) (ae_now (attempt_of w 1)) (ae_polls (attempt_of w 1)) tid2 (map snd (drop (length (ds_sent ds1)) (ds_sent ds2)))"
    from workspace_arrives [OF assms(1,2) one(1) assms(4) auth _ assms(7-11,13) recreated_delivered [OF this], of z task dir kwargs wk] assms(6)
    show ?thesis by simp blast
  qed
  ultimately show ?thesis by blast
qed

section \<open>A transfer cut short, then a whole one\<close>

abbreviation demo_request :: fields where
  "demo_request \<equiv> request_msg (base_fields (uuid_str 1) ''acme'' (uuid_str 2)) ''*''"

definition cut_msgs :: "rx_msg list" where
  "cut_msgs = [(''1-0'', demo_request, 0), (''1-1'', start_msg demo_base CHUNK_SIZE ''t0'' [], 0), (''1-2'', demo_request, 0)]"

definition cut_polls :: "poll list" where
  "cut_polls = [(0, [(''k'', cut_msgs @ [(''1-3'', start_msg demo_base CHUNK_SIZE ''t'' [], 0), (''1-4'', end_msg demo_base ''t'' 0, 0)])])]"

definition cut_wenv :: wenv where
  "cut_wenv = demo_wenv\<lparr>attempt_of := (\<lambda>_. \<lparr>ae_now = 0, ae_polls = cut_polls, ae_error = None\<rparr>)\<rparr>"

lemma cut_aborted: "aborted (map msg_fields cut_msgs)"
proof -
  have idle: "idle demo_request" by (simp add: idle_def request_msg_def)
  have send: "send_bytes CHUNK_SIZE ''t0'' [] demo_base = (start_msg demo_base CHUNK_SIZE ''t0'' [] # ([] @ []) @ [end_msg demo_base ''t0'' 0],
      Inr (''t0'', sha256_bytes [], 0))"
    by (simp add: send_bytes_def Let_def py_range_def CHUNK_SIZE_def)
  from aborted.cut [OF chunk_size_pos send delivery.finished aborted.idling [OF idle aborted.nothing]]
  have "aborted (start_msg demo_base CHUNK_SIZE ''t0'' [] # [] @ [demo_request])" .
  from aborted.idling [OF idle this] show ?thesis by (simp add: cut_msgs_def msg_fields_def)
qed

lemma cut_recreated: "recreated 15000 0 cut_polls ''t'' (fst (send_bytes CHUNK_SIZE ''t'' [] demo_base))"
  unfolding recreated_def demo_send
  by (intro exI [of _ "start_msg demo_base CHUNK_SIZE ''t'' []"] exI [of _ "[]"] exI [of _ "end_msg demo_base ''t'' 0"] exI [of _ cut_msgs]
      exI [of _ "(''1-3'', start_msg demo_base CHUNK_SIZE ''t'' [], 0)"] exI [of _ "[]"]
      exI [of _ "(''1-4'', end_msg demo_base ''t'' 0, 0)"] exI [of _ "[]"] conjI cut_aborted)
    (auto simp: cut_polls_def cut_msgs_def msg_fields_def msg_time_def intro: delivery.finished)

lemma recovery_end_to_end_witness:
  "\<exists>wk' r. prepare_execution cut_wenv ''task'' ''dir'' [uuid_str 1, ''*''] Map.empty wk_init = Some (wk', r)
     \<and> wk_prepared wk' ''task'' = Some ''dir'' \<and> wk_extracted wk' = [(''dir'', [(''a'', [7])])]"
proof -
  let ?keys = "stream_keys (uuid_str 1) (uuid_str 2)"
  let ?ex = "sample_execution\<lparr>e_status := STATUS_TRANSFERRING, e_transfer_id := ''t0'',
      e_transfer_attempts := e_transfer_attempts sample_execution + 1\<rparr>"
  have law: "\<forall>es z. zip_write demo_host es = Inr z \<longrightarrow> zip_read (w_host cut_wenv) z = Inr es"
    by (auto simp: demo_host_def demo_wenv_def cut_wenv_def split: if_splits)
  have ex: "executions (ds_db demo_ds) 1 = Some sample_execution" by (simp add: demo_ds_def)
  have auth: "authorized (ds_db demo_ds) sample_execution 2 (uuid_str 2) ''acme''"
    by (simp add: demo_ds_def authorized_def sample_delegate_def sample_execution_def delegate_id_text_def)
  have fixture: "e_workspace_fixture sample_execution = ''demo''" by (simp add: sample_execution_def)
  have zip: "zip_directory_to_bytes demo_host (py_join ''/fixtures'' (e_workspace_fixture sample_execution)) = Inr []"
    "workspace_zip demo_host (py_join ''/fixtures'' (e_workspace_fixture sample_execution)) ''*'' = Inr (Some [])"
    by (simp_all add: fixture demo_zip workspace_zip_def)
  obtain ds1 out1 where req1: "handle_data_request demo_host ''/fixtures'' ''t0'' (uuid_str 1) (events_key ?keys) demo_request demo_ds = (ds1, out1)"
    by fastforce
  note one = data_request_counted [OF to_uuid_str ex to_uuid_str auth zip(2) req1]
  then have ex1: "executions (ds_db ds1) 1 = Some ?ex" and auth1: "authorized (ds_db ds1) ?ex 2 (uuid_str 2) ''acme''"
    using auth by (simp_all add: authorized_def split: option.splits)
  have zip1: "workspace_zip demo_host (py_join ''/fixtures'' (e_workspace_fixture ?ex)) ''*'' = Inr (Some [])" using zip(2) by simp
  obtain ds2 where req2: "handle_data_request demo_host ''/fixtures'' ''t'' (uuid_str 1) (events_key ?keys) demo_request ds1 = (ds2, Inr ())"
    and sent: "ds_sent ds2 = ds_sent ds1 @ map (Pair (events_key ?keys)) (fst (send_bytes CHUNK_SIZE ''t'' [] demo_base))"
    using data_request_answered [OF to_uuid_str ex1 to_uuid_str auth1 zip1, of "''t''" "events_key ?keys"]
    by (auto simp: demo_base_def)
  have env: "\<forall>n. redis_up cut_wenv n" "identity cut_wenv = Inr [''delegate_id'' \<mapsto> uuid_str 2, ''tenant_id'' \<mapsto> ''acme'']"
    "TRANSFER_MAX_RETRIES cut_wenv \<noteq> 0" "wait_timeout cut_wenv = 15000" "attempt_of cut_wenv i = \<lparr>ae_now = 0, ae_polls = cut_polls, ae_error = None\<rparr>" for i
    by (simp_all add: cut_wenv_def demo_wenv_def sample_wenv_def)
  have idn: "[''delegate_id'' \<mapsto> uuid_str 2, ''tenant_id'' \<mapsto> ''acme''] ''delegate_id'' = Some (uuid_str 2)"
    "[''delegate_id'' \<mapsto> uuid_str 2, ''tenant_id'' \<mapsto> ''acme''] ''tenant_id'' = Some ''acme''" by simp_all
  have "recreated (wait_timeout cut_wenv) (ae_now (attempt_of cut_wenv 1)) (ae_polls (attempt_of cut_wenv 1)) ''t''
      (map snd (drop (length (ds_sent ds1)) (ds_sent ds2)))"
    using cut_recreated by (simp add: sent comp_def env(4,5))
  from recovery_end_to_end [OF law to_uuid_str ex to_uuid_str auth zip(1) env(1,2) idn env(3) req1 req2 disjI2 [OF this],
      of "''task''" "''dir''" Map.empty wk_init]
  show ?thesis
    by (auto simp: fixture demo_host_def sample_host_def demo_relpath wk_init_def)
qed

end
