(* ===== verification/Scripts.thy ===== *)
theory Scripts
  imports Registration Streams "HOL-Library.Sublist"
begin

text \<open>
  The demonstration scripts of \<open>scripts/\<close>: clients of the HTTP API and of Redis that try the
  system's promises and end with a verdict. A script is a function of the answers it gets; an
  answer of the API is a reply as in Registration, an answer of Redis a value or an exception.
  A loop that polls takes the list of its answers and is \<open>None\<close> while it waits for more.
  Progress lines and sleeping are left out, and the texts of FAIL
  lines are shortened.
\<close>

section \<open>Verdicts and checks\<close>

text \<open>Exit code 0 after a line PASS, 1 after a line FAIL.\<close>

datatype verdict = PASS | FAIL string

text \<open>\<open>FAILURES\<close> and \<open>check\<close>: a check that is not met adds its label.\<close>

definition check :: "string \<Rightarrow> bool \<Rightarrow> string list \<Rightarrow> string list" where
  "check label ok failures = (if ok then failures else failures @ [label])"

text \<open>The exceptions of Redis that \<open>denied\<close> takes for a refusal.\<close>

definition refusal :: "exn \<Rightarrow> bool" where
  "refusal e =
     (case e of
        OtherError n \<Rightarrow> n \<in> {''NoPermissionError'', ''AuthenticationError'', ''ResponseError''}
      | ConnectionError \<Rightarrow> True
      | OSError m \<Rightarrow> True
      | _ \<Rightarrow> False)"

definition denied :: "'a result \<Rightarrow> bool result" where
  "denied r = (case r of Inr v \<Rightarrow> Inr False | Inl e \<Rightarrow> if refusal e then Inr True else Inl e)"

definition granted :: "'a result \<Rightarrow> bool result" where
  "granted r = emap Not (denied r)"

text \<open>A sequence of checks: what escapes the expression of one ends the script.\<close>

type_synonym checks = "(string \<times> bool result) list"

fun run_checks :: "checks \<Rightarrow> string list \<Rightarrow> string list result" where
  "run_checks [] failures = Inr failures"
| "run_checks ((label, ok) # cs) failures = ebind ok (\<lambda>b. run_checks cs (check label b failures))"

definition verdict_of :: "string list \<Rightarrow> verdict" where
  "verdict_of failures = (if failures \<noteq> [] then FAIL (str_nat (length failures) @ '' check(s) failed'') else PASS)"

section \<open>Answers of the API\<close>

text \<open>\<open>requests.get(\<dots>).json()\<close> without \<open>raise_for_status\<close>.\<close>

definition just_json :: "http_reply \<Rightarrow> json result" where
  "just_json rep = ebind rep snd"

text \<open>\<open>text in value\<close>.\<close>

fun py_in :: "string \<Rightarrow> json \<Rightarrow> bool result" where
  "py_in t (JStr s) = Inr (sublist t s)"
| "py_in t (JList xs) = Inr (JStr t \<in> set xs)"
| "py_in t (JObj kv) = Inr (t \<in> set (map fst kv))"
| "py_in t _ = Inl (TypeError ''argument is not iterable'')"

text \<open>\<open>status in {\<dots>}\<close>: only a hashable value can be looked up in a set.\<close>

fun in_set :: "json \<Rightarrow> string list \<Rightarrow> bool result" where
  "in_set (JList xs) ts = Inl (TypeError ''unhashable type'')"
| "in_set (JObj kv) ts = Inl (TypeError ''unhashable type'')"
| "in_set j ts = Inr (j \<in> set (map JStr ts))"

definition terminal :: "string list" where
  "terminal = [''SUCCEEDED'', ''FAILED'', ''TRANSFER_FAILED'']"

text \<open>The loop over \<open>["events"]\<close>, newest first, and the id of the first registration of that name.\<close>

fun pick_delegate :: "string \<Rightarrow> json list \<Rightarrow> json result" where
  "pick_delegate name [] = Inl (RuntimeError ''no DELEGATE_REGISTERED audit event found'')"
| "pick_delegate name (ev # evs) =
     ebind (body_req ev ''event_type'') (\<lambda>ty.
       if ty \<noteq> JStr ''DELEGATE_REGISTERED'' then pick_delegate name evs
       else ebind (body_req ev ''detail'') (\<lambda>detail.
            ebind (py_in (''name='' @ name) detail) (\<lambda>named.
              if named then body_req ev ''delegate_id'' else pick_delegate name evs)))"

definition events_of :: "json \<Rightarrow> json list result" where
  "events_of body =
     ebind (body_req body ''events'') (\<lambda>evs.
       case evs of JList es \<Rightarrow> Inr es | _ \<Rightarrow> Inl (TypeError ''events''))"

definition get_delegate_id :: "(http_reply \<Rightarrow> json result) \<Rightarrow> string \<Rightarrow> http_reply \<Rightarrow> json result" where
  "get_delegate_id decode name rep = ebind (decode rep) (\<lambda>body. ebind (events_of body) (pick_delegate name))"

text \<open>At most \<open>n\<close> tries; only \<open>RuntimeError\<close> makes it try again; \<open>JNull\<close> if all have failed.\<close>

fun await_delegate :: "(http_reply \<Rightarrow> json result) \<Rightarrow> nat \<Rightarrow> string \<Rightarrow> http_reply list \<Rightarrow> json result option" where
  "await_delegate decode 0 name reps = Some (Inr JNull)"
| "await_delegate decode (Suc n) name [] = None"
| "await_delegate decode (Suc n) name (rep # reps) =
     (case get_delegate_id decode name rep of
        Inl (RuntimeError m) \<Rightarrow> await_delegate decode n name reps
      | got \<Rightarrow> Some got)"

definition execution_body :: "string \<Rightarrow> json \<Rightarrow> string \<Rightarrow> json" where
  "execution_body tenant_id delegate_id fixture =
     JObj [(''tenant_id'', JStr tenant_id), (''delegate_id'', delegate_id), (''workspace_fixture'', JStr fixture)]"

text \<open>\<open>if status != "SUCCEEDED"\<close> with the \<open>FAIL\<close> line; the rest of the script otherwise.\<close>

definition unless_succeeded :: "json \<Rightarrow> 'a \<Rightarrow> 'a \<Rightarrow> 'a" where
  "unless_succeeded status failed rest = (if status \<noteq> JStr ''SUCCEEDED'' then failed else rest)"

section \<open>e2e_smoke_test.py\<close>

text \<open>The answers: to the audit log, to the POST of an execution, to its status.\<close>

record script_env =
  sc_events :: "http_reply list"
  sc_create :: "json \<Rightarrow> http_reply"
  sc_status :: "json \<Rightarrow> http_reply list"

text \<open>One look at the status: \<open>body["status"]\<close> and \<open>len(body["logs"])\<close>.\<close>

definition has_length :: "json \<Rightarrow> bool" where
  "has_length j = (case j of JStr s \<Rightarrow> True | JList xs \<Rightarrow> True | JObj kv \<Rightarrow> True | _ \<Rightarrow> False)"

definition smoke_look :: "http_reply \<Rightarrow> (json \<times> json) result" where
  "smoke_look rep =
     ebind (reply_json rep) (\<lambda>body.
     ebind (body_req body ''status'') (\<lambda>status.
     ebind (body_req body ''logs'') (\<lambda>ls.
       if has_length ls then Inr (status, body) else Inl (TypeError ''object has no len()''))))"

text \<open>Polling the status: the last look, terminal or not, after at most \<open>n\<close> tries.\<close>

fun smoke_poll :: "nat \<Rightarrow> http_reply list \<Rightarrow> json \<times> json \<Rightarrow> (json \<times> json) result option" where
  "smoke_poll 0 reps seen = Some (Inr seen)"
| "smoke_poll (Suc n) [] seen = None"
| "smoke_poll (Suc n) (rep # reps) seen =
     (case ebind (smoke_look rep) (\<lambda>(status, body). ebind (in_set status terminal) (\<lambda>t. Inr (t, status, body))) of
        Inl e \<Rightarrow> Some (Inl e)
      | Inr (t, status, body) \<Rightarrow> if t then Some (Inr (status, body)) else smoke_poll n reps (status, body))"

definition output_recorded :: "json \<Rightarrow> bool result" where
  "output_recorded body =
     ebind (body_req body ''output_path'') (\<lambda>p.
       if \<not> truthy p then Inr False else ebind (body_req body ''output_checksum'') (\<lambda>c. Inr (truthy c)))"

definition smoke_finish :: "json \<times> json \<Rightarrow> verdict result" where
  "smoke_finish seen =
     (case seen of (status, body) \<Rightarrow>
        unless_succeeded status (Inr (FAIL ''execution did not succeed''))
          (ebind (output_recorded body) (\<lambda>ok.
             Inr (if ok then PASS else FAIL ''execution SUCCEEDED but no output was recorded''))))"

definition create_and_get_id :: "'a script_env_scheme \<Rightarrow> json \<Rightarrow> json result" where
  "create_and_get_id env posted = ebind (reply_json (sc_create env posted)) (\<lambda>b. body_req b ''execution_id'')"

text \<open>Sequencing of steps that may still be waiting.\<close>

definition obind :: "'a result option \<Rightarrow> ('a \<Rightarrow> 'b result option) \<Rightarrow> 'b result option" where
  "obind m f = (case m of None \<Rightarrow> None | Some (Inl e) \<Rightarrow> Some (Inl e) | Some (Inr v) \<Rightarrow> f v)"

definition smoke_main :: "'a script_env_scheme \<Rightarrow> verdict result option" where
  "smoke_main env =
     obind (await_delegate reply_json 60 ''vm-delegate-1'' (sc_events env)) (\<lambda>delegate_id.
       if \<not> truthy delegate_id then Some (Inr (FAIL ''vm-delegate-1 never registered''))
       else
         obind (Some (create_and_get_id env (execution_body ''tenant-demo'' delegate_id ''sample_workspace''))) (\<lambda>execution_id.
         obind (smoke_poll 60 (sc_status env execution_id) (JNull, JNull)) (\<lambda>seen. Some (smoke_finish seen))))"

section \<open>kill_mid_transfer_test.py\<close>

text \<open>Waiting for the transfer to begin: \<open>False\<close> when \<open>n\<close> looks have not seen it.\<close>

fun await_transferring :: "nat \<Rightarrow> http_reply list \<Rightarrow> bool result option" where
  "await_transferring 0 reps = Some (Inr False)"
| "await_transferring (Suc n) [] = None"
| "await_transferring (Suc n) (rep # reps) =
     (case ebind (just_json rep) (\<lambda>body. body_req body ''status'') of
        Inl e \<Rightarrow> Some (Inl e)
      | Inr status \<Rightarrow> if status = JStr ''TRANSFERRING'' then Some (Inr True) else await_transferring n reps)"

text \<open>
  Polling after the restart: \<open>requests.RequestException\<close>, which a lost connection and, in
  \<open>requests\<close>, undecodable JSON are, sets the status to None and keeps the last body.
\<close>

definition request_exception :: "exn \<Rightarrow> bool" where
  "request_exception e = (case e of ConnectionError \<Rightarrow> True | ValueError m \<Rightarrow> True | _ \<Rightarrow> False)"

text \<open>The status is read after \<open>body\<close> has been assigned, so a body without one is kept too, but its
  \<open>KeyError\<close> escapes; \<open>body.get\<close> of the progress line needs an object.\<close>

fun kill_poll :: "nat \<Rightarrow> http_reply list \<Rightarrow> json \<times> json \<Rightarrow> (json \<times> json) result option" where
  "kill_poll 0 reps seen = Some (Inr seen)"
| "kill_poll (Suc n) [] seen = None"
| "kill_poll (Suc n) (rep # reps) seen =
     (case (case just_json rep of
              Inl e \<Rightarrow> if request_exception e then Inr (JNull, snd seen) else Inl e
            | Inr body \<Rightarrow> ebind (body_req body ''status'') (\<lambda>status. Inr (status, body))) of
        Inl e \<Rightarrow> Some (Inl e)
      | Inr (status, body) \<Rightarrow>
          (case ebind (body_get body ''transfer_attempts'' JNull) (\<lambda>_. in_set status terminal) of
             Inl e \<Rightarrow> Some (Inl e)
           | Inr t \<Rightarrow> if t then Some (Inr (status, body)) else kill_poll n reps (status, body)))"

text \<open>\<open>value < 2\<close>.\<close>

fun below_two :: "json \<Rightarrow> bool result" where
  "below_two (JInt i) = Inr (i < 2)"
| "below_two (JBool b) = Inr True"
| "below_two (JFloat m e) = Inr (if 0 \<le> e then m * 10 ^ nat e < 2 else m < 2 * 10 ^ nat (- e))"
| "below_two j = Inl (TypeError ''not supported between instances'')"

definition kill_finish :: "json \<times> json \<Rightarrow> verdict result" where
  "kill_finish seen =
     (case seen of (status, body) \<Rightarrow>
        unless_succeeded status (Inr (FAIL ''expected SUCCEEDED after recovery''))
          (ebind (body_get body ''transfer_attempts'' (JInt 0)) (\<lambda>attempts.
           ebind (below_two attempts) (\<lambda>few.
             Inr (if few then FAIL ''execution succeeded but transfer_attempts suggests no retry happened'' else PASS)))))"

text \<open>\<open>docker ps\<close> and the two commands on the container are answers too.\<close>

record kill_env = script_env +
  kl_begin :: "json \<Rightarrow> http_reply list"
  kl_ps :: "string list result"
  kl_kill :: "string \<Rightarrow> unit result"
  kl_start :: "string \<Rightarrow> unit result"

definition find_worker_container :: "kill_env \<Rightarrow> string result" where
  "find_worker_container env =
     ebind (kl_ps env) (\<lambda>out.
       case out of [] \<Rightarrow> Inl (RuntimeError ''worker_vm container not found; is docker compose up?'') | c # cs \<Rightarrow> Inr c)"

definition kill_main :: "kill_env \<Rightarrow> verdict result option" where
  "kill_main env =
     obind (await_delegate reply_json 30 ''vm-delegate-1'' (sc_events env)) (\<lambda>delegate_id.
       if \<not> truthy delegate_id then Some (Inr (FAIL ''vm-delegate-1 never registered''))
       else
         obind (Some (create_and_get_id env (execution_body ''tenant-demo'' delegate_id ''large_workspace''))) (\<lambda>execution_id.
         obind (await_transferring 30 (kl_begin env execution_id)) (\<lambda>begun.
           if \<not> begun then Some (Inr (FAIL ''transfer never started''))
           else
             obind (Some (ebind (find_worker_container env) (\<lambda>container.
                          ebind (kl_kill env container) (\<lambda>_. kl_start env container)))) (\<lambda>_.
             obind (kill_poll 120 (sc_status env execution_id) (JNull, JObj [])) (\<lambda>seen. Some (kill_finish seen))))))"

section \<open>Clients of Redis\<close>

text \<open>The commands the scripts issue.\<close>

datatype redis_op =
    PING
  | XADD string
  | XREAD string
  | KEYS string
  | FLUSHALL
  | ACL_LIST
  | CONFIG_GET string
  | GET string
  | LRANGE string
  | LLEN string
  | LPUSH string
  | BRPOP string
  | SMEMBERS string

text \<open>What Redis calls the command, and the keys it reads (\<open>False\<close>) or writes (\<open>True\<close>).\<close>

fun command :: "redis_op \<Rightarrow> string" where
  "command PING = ''ping''"
| "command (XADD k) = ''xadd''"
| "command (XREAD k) = ''xread''"
| "command (KEYS p) = ''keys''"
| "command FLUSHALL = ''flushall''"
| "command ACL_LIST = ''acl|list''"
| "command (CONFIG_GET p) = ''config|get''"
| "command (GET k) = ''get''"
| "command (LRANGE k) = ''lrange''"
| "command (LLEN k) = ''llen''"
| "command (LPUSH k) = ''lpush''"
| "command (BRPOP k) = ''brpop''"
| "command (SMEMBERS k) = ''smembers''"

fun accesses :: "redis_op \<Rightarrow> (bool \<times> string) list" where
  "accesses (XADD k) = [(True, k)]"
| "accesses (XREAD k) = [(False, k)]"
| "accesses (GET k) = [(False, k)]"
| "accesses (LRANGE k) = [(False, k)]"
| "accesses (LLEN k) = [(False, k)]"
| "accesses (LPUSH k) = [(True, k)]"
| "accesses (BRPOP k) = [(False, k), (True, k)]"
| "accesses (SMEMBERS k) = [(False, k)]"
| "accesses _ = []"

text \<open>
  The class \<open>Delegate\<close> of \<open>redis_acl_test.py\<close> and \<open>rogue_task_execution_test.py\<close>: a registration
  over the API, without the loops of a real worker, and the names derived from its answer.
\<close>

record delegate_handle =
  dg_tenant_id :: string
  dg_name :: string
  dg_queue :: string
  dg_id :: string
  dg_files :: "file_op list"

definition dg_prefix :: "delegate_handle \<Rightarrow> string" where
  "dg_prefix d = ''delegate:'' @ dg_id d @ '':''"

definition dg_queue_key :: "delegate_handle \<Rightarrow> string" where
  "dg_queue_key d = dg_prefix d @ dg_queue d"

definition dg_binding_key :: "delegate_handle \<Rightarrow> string" where
  "dg_binding_key d = dg_prefix d @ ''_kombu.binding.'' @ dg_queue d"

definition test_register_body :: "reg_env \<Rightarrow> json \<Rightarrow> string \<Rightarrow> string \<Rightarrow> string \<Rightarrow> json" where
  "test_register_body env token tenant_id name queue =
     JObj [(''token'', token), (''tenant_id'', JStr tenant_id), (''name'', JStr name), (''queue'', JStr queue),
           (''csr_pem'', JStr (build_csr_pem env (re_key env) name))]"

definition Delegate_init :: "reg_env \<Rightarrow> string \<Rightarrow> string \<Rightarrow> string \<Rightarrow> string \<Rightarrow> delegate_handle result" where
  "Delegate_init env tenant_id name queue workdir =
     ebind (ebind (just_json (re_token_reply env (token_body tenant_id))) (\<lambda>b. body_req b ''token'')) (\<lambda>token.
     ebind (reply_json (re_register_reply env (test_register_body env token tenant_id name queue))) (\<lambda>body.
     ebind (ebind (body_req body ''delegate_id'') as_text) (\<lambda>did.
     ebind (ebind (body_req body ''ca_cert_pem'') as_text) (\<lambda>ca_pem.
     ebind (ebind (body_req body ''cert_pem'') as_text) (\<lambda>cert_pem.
       Inr \<lparr>dg_tenant_id = tenant_id, dg_name = name, dg_queue = queue, dg_id = did,
            dg_files = [Write (py_join workdir (name @ ''-ca.crt'')) ca_pem, Write (py_join workdir (name @ ''.crt'')) cert_pem,
                        Write (py_join workdir (name @ ''.key'')) (key_text env (re_key env))]\<rparr>)))))"

section \<open>redis_acl_test.py\<close>

text \<open>
  Its answers: two connections without a valid identity; A's connection; AUTH on it; the API's
  and Redis's answers around a forged announcement; and what there is after A's revocation: the
  connection that was blocked reading (outcome and seconds), the one that was open, a new one,
  the API, and B's connection.
\<close>

record acl_test =
  at_no_cert :: "unit result"
  at_rogue :: "unit result"
  at_do :: "redis_op \<Rightarrow> unit result"
  at_auth :: "string \<Rightarrow> unit result"
  at_create :: "json \<Rightarrow> http_reply"
  at_publish :: "xadd \<Rightarrow> unit result"
  at_audits :: "http_reply list"
  at_forged :: "string \<Rightarrow> fields list result"
  at_revoke :: http_reply
  at_blocked :: "string \<times> int"
  at_live :: "redis_op \<Rightarrow> unit result"
  at_new :: "redis_op \<Rightarrow> unit result"
  at_audit_after :: http_reply
  at_create_after :: "json \<Rightarrow> http_reply"
  at_b :: "redis_op \<Rightarrow> unit result"

definition identity_checks :: "acl_test \<Rightarrow> checks" where
  "identity_checks t =
     [(''no client certificate is rejected at the TLS handshake'', denied (at_no_cert t)),
      (''self-signed cert claiming A's CN (not signed by the CA) is rejected'', denied (at_rogue t))]"

definition scope_checks :: "string \<Rightarrow> string \<Rightarrow> (redis_op \<Rightarrow> unit result) \<Rightarrow> checks" where
  "scope_checks a b run =
     [(''A can XADD to its own stream'', granted (run (XADD (a @ ''execution:x:events'')))),
      (''A cannot XADD to B's stream'', denied (run (XADD (b @ ''execution:x:events'')))),
      (''A cannot XREAD B's stream'', denied (run (XREAD (b @ ''execution:x:events'')))),
      (''A cannot write outside its prefix'', denied (run (XADD ''execution:legacy:events''))),
      (''A cannot run KEYS *'', denied (run (KEYS ''*''))),
      (''A cannot run FLUSHALL'', denied (run FLUSHALL)),
      (''A cannot run ACL LIST'', denied (run ACL_LIST)),
      (''A cannot run CONFIG GET *'', denied (run (CONFIG_GET ''*''))),
      (''A cannot run GET on a foreign key'', denied (run (GET ''anything'')))]"

definition global_checks :: "(redis_op \<Rightarrow> unit result) \<Rightarrow> checks" where
  "global_checks run =
     [(''A can XADD to global:execution_events'', granted (run (XADD ''global:execution_events''))),
      (''A cannot XREAD global:execution_events'', denied (run (XREAD ''global:execution_events'')))]"

definition auth_checks :: "string \<Rightarrow> (string \<Rightarrow> unit result) \<Rightarrow> checks" where
  "auth_checks b_id auth = map (\<lambda>u. (''A cannot AUTH as '' @ take 12 u, denied (auth u))) [b_id, ''cp-admin'', ''default'']"

text \<open>The forged announcement: the entries A adds, the search of the audit log for the mismatch in at
  most 15 looks, and the data messages that have appeared on A's stream.\<close>

definition forged_announcement :: "string \<Rightarrow> string \<Rightarrow> fields" where
  "forged_announcement a exec_id =
     [''type'' \<mapsto> ''EXECUTION_STARTED'', ''execution_id'' \<mapsto> exec_id,
      ''events_stream'' \<mapsto> a @ ''execution:'' @ exec_id @ '':events'',
      ''log_stream'' \<mapsto> a @ ''l'', ''status_stream'' \<mapsto> a @ ''s'', ''output_stream'' \<mapsto> a @ ''o'']"

definition forged_request :: "string \<Rightarrow> string \<Rightarrow> string \<Rightarrow> fields" where
  "forged_request tenant_b b_id exec_id =
     [''type'' \<mapsto> ''DATA_REQUEST'', ''execution_id'' \<mapsto> exec_id, ''tenant_id'' \<mapsto> tenant_b,
      ''delegate_id'' \<mapsto> b_id, ''requested_file'' \<mapsto> ''*'']"

fun has_event :: "string \<Rightarrow> string \<Rightarrow> json \<Rightarrow> json list \<Rightarrow> bool result" where
  "has_event ty key v [] = Inr False"
| "has_event ty key v (ev # evs) =
     ebind (body_req ev ''event_type'') (\<lambda>t.
       if t \<noteq> JStr ty then has_event ty key v evs
       else ebind (body_req ev key) (\<lambda>x. if x = v then Inr True else has_event ty key v evs))"

definition audit_has :: "string \<Rightarrow> string \<Rightarrow> json \<Rightarrow> http_reply \<Rightarrow> bool result" where
  "audit_has ty key v rep = ebind (just_json rep) (\<lambda>body. ebind (events_of body) (has_event ty key v))"

fun await_mismatch :: "nat \<Rightarrow> json \<Rightarrow> http_reply list \<Rightarrow> bool result option" where
  "await_mismatch 0 eid reps = Some (Inr False)"
| "await_mismatch (Suc n) eid [] = None"
| "await_mismatch (Suc n) eid (rep # reps) =
     (case audit_has ''ANNOUNCEMENT_STREAM_MISMATCH'' ''execution_id'' eid rep of
        Inl e \<Rightarrow> Some (Inl e)
      | Inr found \<Rightarrow> if found then Some (Inr True) else await_mismatch n eid reps)"

definition data_replies :: "fields list \<Rightarrow> string list" where
  "data_replies fs =
     concat (map (\<lambda>f. case f ''type'' of None \<Rightarrow> []
       | Some ty \<Rightarrow> if prefix ''DATA_'' ty \<and> ty \<noteq> ''DATA_REQUEST'' then [ty] else []) fs)"

definition forged_checks ::
    "acl_test \<Rightarrow> delegate_handle \<Rightarrow> delegate_handle \<Rightarrow> string list \<Rightarrow> string list result option" where
  "forged_checks t a b failures =
     obind (Some (ebind (just_json (at_create t (execution_body (dg_tenant_id b) (JStr (dg_id b)) ''sample_workspace'')))
                    (\<lambda>body. ebind (body_req body ''execution_id'') as_text))) (\<lambda>exec_id.
       let events = dg_prefix a @ ''execution:'' @ exec_id @ '':events'' in
       obind (Some (ebind (at_publish t (''global:execution_events'', forged_announcement (dg_prefix a) exec_id)) (\<lambda>_.
                    at_publish t (events, forged_request (dg_tenant_id b) (dg_id b) exec_id)))) (\<lambda>_.
       obind (await_mismatch 15 (JStr exec_id) (at_audits t)) (\<lambda>mismatch.
         Some (ebind (at_forged t events) (\<lambda>fs.
               run_checks
                 [(''dispatcher audits the announcement/DB stream-name mismatch'', Inr mismatch),
                  (''dispatcher sent no workspace data onto A's forged stream'', Inr (data_replies fs = []))]
                 failures)))))"

text \<open>\<open>rev.get("redis_acl_removed") is True\<close>, and the status of the last POST.\<close>

definition removed_reported :: "http_reply \<Rightarrow> bool result" where
  "removed_reported rep = ebind (just_json rep) (\<lambda>body. emap (\<lambda>v. v = JBool True) (body_get body ''redis_acl_removed'' JNull))"

definition revocation_checks :: "acl_test \<Rightarrow> delegate_handle \<Rightarrow> delegate_handle \<Rightarrow> checks" where
  "revocation_checks t a b =
     [(''revoke API reports the Redis ACL user was removed'', removed_reported (at_revoke t)),
      (''A's blocked XREAD (open connection) was terminated promptly'',
       Inr (fst (at_blocked t) = ''ConnectionError'' \<and> snd (at_blocked t) < 8)),
      (''A's other open connection can no longer write'', denied (at_live t (XADD (dg_prefix a @ ''live'')))),
      (''a NEW connection with A's still-valid cert is refused'', denied (at_new t (XADD (dg_prefix a @ ''live'')))),
      (''audit log records REDIS_ACL_REVOKED'', audit_has ''REDIS_ACL_REVOKED'' ''delegate_id'' (JStr (dg_id a)) (at_audit_after t)),
      (''control plane refuses new tasks for the revoked delegate'',
       emap (\<lambda>r. fst r = 403) (at_create_after t (execution_body (dg_tenant_id a) (JStr (dg_id a)) ''sample_workspace''))),
      (''victim B is unaffected by A's revocation'', granted (at_b t (XADD (dg_prefix b @ ''ok''))))]"

text \<open>The sections one after the other; A's \<open>live\<close> connection writes once before the revocation.\<close>

definition acl_test_main :: "acl_test \<Rightarrow> delegate_handle \<Rightarrow> delegate_handle \<Rightarrow> verdict result option" where
  "acl_test_main t a b =
     obind (Some (run_checks (identity_checks t @ scope_checks (dg_prefix a) (dg_prefix b) (at_do t)
                    @ global_checks (at_do t) @ auth_checks (dg_id b) (at_auth t)) [])) (\<lambda>f1.
     obind (forged_checks t a b f1) (\<lambda>f2.
     obind (Some (at_do t (XADD (dg_prefix a @ ''live'')))) (\<lambda>_.
       Some (emap verdict_of (run_checks (revocation_checks t a b) f2)))))"

section \<open>rogue_task_execution_test.py\<close>

text \<open>
  Its answers: the lists at the queue keys, read with the delegate's own connection, R's
  connection to V's and to its own keys, the revocation of R, and R's connection after it.
\<close>

record rogue_test =
  rg_create :: "json \<Rightarrow> http_reply"
  rg_queued :: "string list result"
  rg_do :: "redis_op \<Rightarrow> unit result"
  rg_still :: "string list result"
  rg_own :: "string list result"
  rg_revoke :: http_reply
  rg_after :: "redis_op \<Rightarrow> unit result"

definition rogue_create :: "rogue_test \<Rightarrow> delegate_handle \<Rightarrow> string result" where
  "rogue_create t d =
     ebind (reply_json (rg_create t (execution_body (dg_tenant_id d) (JStr (dg_id d)) ''sample_workspace'')))
       (\<lambda>body. ebind (body_req body ''execution_id'') as_text)"

definition one_task :: "string \<Rightarrow> string list \<Rightarrow> bool" where
  "one_task exec_id queued = (length queued = 1 \<and> sublist exec_id (hd queued))"

definition theft_checks :: "delegate_handle \<Rightarrow> (redis_op \<Rightarrow> unit result) \<Rightarrow> checks" where
  "theft_checks v run =
     [(''rogue cannot LRANGE (read/steal) the victim's queued task'', denied (run (LRANGE (dg_queue_key v)))),
      (''rogue cannot BRPOP (dequeue/steal) the victim's queued task'', denied (run (BRPOP (dg_queue_key v)))),
      (''rogue cannot LPUSH (inject) a forged task onto the victim's queue'', denied (run (LPUSH (dg_queue_key v)))),
      (''rogue cannot read the victim's kombu binding key'', denied (run (SMEMBERS (dg_binding_key v)))),
      (''rogue cannot even LLEN the victim's queue'', denied (run (LLEN (dg_queue_key v))))]"

definition own_queue_checks :: "rogue_test \<Rightarrow> delegate_handle \<Rightarrow> string \<Rightarrow> checks" where
  "own_queue_checks t r exec_id =
     [(''rogue can read its own queued task'', granted (rg_do t (LRANGE (dg_queue_key r)))),
      (''rogue's own task is really its own'', emap (one_task exec_id) (rg_own t)),
      (''rogue can dequeue (BRPOP) its own task'', granted (rg_do t (BRPOP (dg_queue_key r)))),
      (''revoke API reports the ACL user was removed'', removed_reported (rg_revoke t)),
      (''revoked rogue can no longer read even its own queue'', denied (rg_after t (LRANGE (dg_queue_key r))))]"

definition rogue_main :: "rogue_test \<Rightarrow> delegate_handle \<Rightarrow> delegate_handle \<Rightarrow> verdict result" where
  "rogue_main t v r =
     ebind (rogue_create t v) (\<lambda>exec_id.
     ebind (rg_queued t) (\<lambda>queued.
     ebind (run_checks ((''victim's own cert can see its queued task'', Inr (one_task exec_id queued))
              # theft_checks v (rg_do t)
              @ [(''victim's task is untouched after the attack attempts'', emap (\<lambda>q. q = queued) (rg_still t))]) []) (\<lambda>f.
     ebind (rogue_create t r) (\<lambda>rogue_id.
       emap verdict_of (run_checks (own_queue_checks t r rogue_id) f)))))"

section \<open>cross_tenant_isolation_test.py\<close>

definition attacker_body :: "reg_env \<Rightarrow> json \<Rightarrow> string \<Rightarrow> string \<Rightarrow> json" where
  "attacker_body env token tenant_id name =
     JObj [(''token'', token), (''tenant_id'', JStr tenant_id), (''name'', JStr name),
           (''csr_pem'', JStr (build_csr_pem env (re_key env) (tenant_id @ '':'' @ name)))]"

definition attacker_register :: "reg_env \<Rightarrow> string \<Rightarrow> string \<Rightarrow> string \<Rightarrow> (json \<times> file_op list) result" where
  "attacker_register env tenant_id name d =
     ebind (ebind (just_json (re_token_reply env (token_body tenant_id))) (\<lambda>b. body_req b ''token'')) (\<lambda>token.
     ebind (reply_json (re_register_reply env (attacker_body env token tenant_id name))) (\<lambda>body.
     ebind (ebind (body_req body ''ca_cert_pem'') as_text) (\<lambda>ca_pem.
     ebind (ebind (body_req body ''cert_pem'') as_text) (\<lambda>cert_pem.
     ebind (body_req body ''delegate_id'') (\<lambda>did.
       Inr (did, [Write (ca_path d) ca_pem, Write (cert_path d) cert_pem, Write (key_path d) (key_text env (re_key env))]))))))"

text \<open>Only \<open>NoPermissionError\<close> counts as refused here; anything else that is raised escapes.\<close>

definition no_permission :: "'a result \<Rightarrow> bool result" where
  "no_permission r =
     (case r of Inr v \<Rightarrow> Inr False | Inl e \<Rightarrow> if e = OtherError ''NoPermissionError'' then Inr True else Inl e)"

fun plain_poll :: "nat \<Rightarrow> http_reply list \<Rightarrow> json \<Rightarrow> json result option" where
  "plain_poll 0 reps status = Some (Inr status)"
| "plain_poll (Suc n) [] status = None"
| "plain_poll (Suc n) (rep # reps) status =
     (case ebind (just_json rep) (\<lambda>body. ebind (body_req body ''status'') (\<lambda>st.
            ebind (in_set st terminal) (\<lambda>t. Inr (t, st)))) of
        Inl e \<Rightarrow> Some (Inl e)
      | Inr (t, st) \<Rightarrow> if t then Some (Inr st) else plain_poll n reps st)"

definition victim_events_key :: "string \<Rightarrow> string \<Rightarrow> string" where
  "victim_events_key victim execution_id = ''delegate:'' @ victim @ '':execution:'' @ execution_id @ '':events''"

definition cross_tenant_main :: "'a script_env_scheme \<Rightarrow> (redis_op \<Rightarrow> unit result) \<Rightarrow> verdict result option" where
  "cross_tenant_main env run =
     obind (await_delegate just_json 30 ''vm-delegate-1'' (sc_events env)) (\<lambda>victim_json.
       if \<not> truthy victim_json then Some (Inr (FAIL ''could not find tenant-demo's registered delegate''))
       else
         obind (Some (create_and_get_id env (execution_body ''tenant-demo'' victim_json ''sample_workspace''))) (\<lambda>execution_json.
         obind (Some (ebind (as_text victim_json) (\<lambda>v. ebind (as_text execution_json) (\<lambda>x. Inr (victim_events_key v x))))) (\<lambda>events.
         obind (Some (no_permission (run (XADD events)))) (\<lambda>refused.
           if \<not> refused then Some (Inr (FAIL ''Redis accepted a write to another delegate's stream''))
           else
             obind (Some (no_permission (run (XREAD events)))) (\<lambda>unread.
               if \<not> unread then Some (Inr (FAIL ''Redis let the attacker read another delegate's stream''))
               else
                 obind (plain_poll 60 (sc_status env execution_json) JNull) (\<lambda>status.
                   Some (Inr (unless_succeeded status (FAIL ''victim execution did not succeed'') PASS))))))))"

section \<open>make_large_workspace.py\<close>

text \<open>The writes of one file: the same megabyte of random bytes again and again, cut at the end.\<close>

definition MEGABYTE :: nat where
  "MEGABYTE = 1024 * 1024"

function write_sizes :: "nat \<Rightarrow> nat \<Rightarrow> nat list" where
  "write_sizes chunk remaining =
     (if remaining = 0 \<or> chunk = 0 then [] else min chunk remaining # write_sizes chunk (remaining - min chunk remaining))"
  by pat_completeness auto

termination by (relation "measure snd") auto

declare write_sizes.simps [simp del]

definition large_file :: "bytes \<Rightarrow> nat \<Rightarrow> bytes" where
  "large_file chunk n = concat (map (\<lambda>k. take k chunk) (write_sizes (length chunk) n))"

text \<open>Ten files; \<open>blob_00.bin\<close> to \<open>blob_09.bin\<close>. \<open>random i\<close> is \<open>os.urandom(1024 * 1024)\<close> for file \<open>i\<close>.\<close>

definition make_large_workspace :: "(nat \<Rightarrow> bytes) \<Rightarrow> nat \<Rightarrow> string \<Rightarrow> (string \<times> bytes) list" where
  "make_large_workspace random size_mb dest_dir =
     (let file_count = 10; bytes_per_file = size_mb * 1024 * 1024 div file_count in
      map (\<lambda>i. (py_join dest_dir (''blob_0'' @ str_nat i @ ''.bin''), large_file (random i) bytes_per_file)) [0..<file_count])"

end
