(* ===== verification/Schema.thy ===== *)
theory Schema
  imports Runs
begin

text \<open>
  The tables: the classes of \<open>control_plane/delegates/models.py\<close> and the migration
  \<open>migrations/0001_initial.py\<close> as data, what running the migration makes of them, and what it
  means for the rows of \<open>db\<close> to fit these tables. Options that only concern forms
  (\<open>editable\<close>, \<open>verbose_name\<close>, the labels of choices) and serialisation are left out.
\<close>

section \<open>Columns and tables\<close>

datatype on_delete = SET_NULL | CASCADE

datatype column_type =
    BigAutoField
  | CharField nat
  | TextField
  | UUIDField
  | IntegerField
  | DateTimeField
  | ForeignKey string on_delete string

datatype default = NoDefault | DefaultText string | DefaultInt int | DefaultCall string

record column =
  c_name :: string
  c_type :: column_type
  c_null :: bool
  c_blank :: bool
  c_primary :: bool
  c_index :: bool
  c_choices :: "string list"
  c_default :: default
  c_auto_now_add :: bool
  c_auto_now :: bool

text \<open>A column with every option at Django's default.\<close>

definition column :: "string \<Rightarrow> column_type \<Rightarrow> column" where
  "column name ty =
     \<lparr>c_name = name, c_type = ty, c_null = False, c_blank = False, c_primary = False, c_index = False,
      c_choices = [], c_default = NoDefault, c_auto_now_add = False, c_auto_now = False\<rparr>"

record model_class =
  m_name :: string
  m_columns :: "column list"
  m_ordering :: "string list"

section \<open>models.py\<close>

fun delegate_status_text :: "delegate_status \<Rightarrow> string" where
  "delegate_status_text STATUS_ACTIVE = ''ACTIVE''"
| "delegate_status_text STATUS_REVOKED = ''REVOKED''"

definition RegistrationToken_model :: model_class where
  "RegistrationToken_model =
     \<lparr>m_name = ''RegistrationToken'',
      m_columns =
        [(column ''token'' (CharField 64))\<lparr>c_primary := True, c_default := DefaultCall ''_generate_token''\<rparr>,
         column ''tenant_id'' (CharField 128),
         (column ''created_at'' DateTimeField)\<lparr>c_auto_now_add := True\<rparr>,
         column ''expires_at'' DateTimeField,
         (column ''used_at'' DateTimeField)\<lparr>c_null := True, c_blank := True\<rparr>],
      m_ordering = []\<rparr>"

definition Delegate_model :: model_class where
  "Delegate_model =
     \<lparr>m_name = ''Delegate'',
      m_columns =
        [(column ''id'' UUIDField)\<lparr>c_primary := True, c_default := DefaultCall ''uuid4''\<rparr>,
         (column ''tenant_id'' (CharField 128))\<lparr>c_index := True\<rparr>,
         column ''name'' (CharField 128),
         (column ''queue'' (CharField 128))\<lparr>c_default := DefaultText ''default''\<rparr>,
         (column ''concurrency'' IntegerField)\<lparr>c_default := DefaultInt 1\<rparr>,
         column ''cert_serial'' (CharField 64),
         column ''cert_pem'' TextField,
         column ''cert_expires_at'' DateTimeField,
         (column ''status'' (CharField 16))
           \<lparr>c_choices := map delegate_status_text [STATUS_ACTIVE, STATUS_REVOKED],
            c_default := DefaultText (delegate_status_text STATUS_ACTIVE)\<rparr>,
         (column ''created_at'' DateTimeField)\<lparr>c_auto_now_add := True\<rparr>],
      m_ordering = []\<rparr>"

definition Execution_model :: model_class where
  "Execution_model =
     \<lparr>m_name = ''Execution'',
      m_columns =
        [(column ''execution_id'' UUIDField)\<lparr>c_primary := True, c_default := DefaultCall ''uuid4''\<rparr>,
         (column ''tenant_id'' (CharField 128))\<lparr>c_index := True\<rparr>,
         (column ''delegate'' (ForeignKey ''Delegate'' SET_NULL ''executions''))\<lparr>c_null := True\<rparr>,
         column ''workspace_fixture'' (CharField 256),
         (column ''status'' (CharField 16))
           \<lparr>c_choices := map status_text
              [STATUS_QUEUED, STATUS_TRANSFERRING, STATUS_TRANSFER_FAILED, STATUS_RUNNING, STATUS_SUCCEEDED, STATUS_FAILED],
            c_default := DefaultText (status_text STATUS_QUEUED)\<rparr>,
         (column ''transfer_id'' (CharField 64))\<lparr>c_blank := True, c_default := DefaultText []\<rparr>,
         (column ''transfer_attempts'' IntegerField)\<lparr>c_default := DefaultInt 0\<rparr>,
         (column ''output_path'' (CharField 256))\<lparr>c_blank := True, c_default := DefaultText []\<rparr>,
         (column ''output_checksum'' (CharField 128))\<lparr>c_blank := True, c_default := DefaultText []\<rparr>,
         (column ''created_at'' DateTimeField)\<lparr>c_auto_now_add := True\<rparr>,
         (column ''updated_at'' DateTimeField)\<lparr>c_auto_now := True\<rparr>],
      m_ordering = []\<rparr>"

definition ExecutionLog_model :: model_class where
  "ExecutionLog_model =
     \<lparr>m_name = ''ExecutionLog'',
      m_columns =
        [column ''execution'' (ForeignKey ''Execution'' CASCADE ''logs''),
         column ''seq'' IntegerField,
         column ''line'' TextField,
         (column ''created_at'' DateTimeField)\<lparr>c_auto_now_add := True\<rparr>],
      m_ordering = [''seq'']\<rparr>"

definition AuditEvent_model :: model_class where
  "AuditEvent_model =
     \<lparr>m_name = ''AuditEvent'',
      m_columns =
        [column ''event_type'' (CharField 64),
         (column ''tenant_id'' (CharField 128))\<lparr>c_blank := True, c_default := DefaultText []\<rparr>,
         (column ''delegate_id'' (CharField 64))\<lparr>c_blank := True, c_default := DefaultText []\<rparr>,
         (column ''execution_id'' (CharField 64))\<lparr>c_blank := True, c_default := DefaultText []\<rparr>,
         (column ''detail'' TextField)\<lparr>c_blank := True, c_default := DefaultText []\<rparr>,
         (column ''created_at'' DateTimeField)\<lparr>c_auto_now_add := True\<rparr>],
      m_ordering = [''-created_at'']\<rparr>"

definition MODELS :: "model_class list" where
  "MODELS = [RegistrationToken_model, Delegate_model, Execution_model, ExecutionLog_model, AuditEvent_model]"

section \<open>0001_initial.py\<close>

datatype operation = CreateModel model_class

text \<open>The primary key Django adds to a class that declares none (\<open>DEFAULT_AUTO_FIELD\<close>).\<close>

definition auto_id :: column where
  "auto_id = (column ''id'' BigAutoField)\<lparr>c_primary := True\<rparr>"

definition MIGRATION_0001 :: "operation list" where
  "MIGRATION_0001 =
     [CreateModel
       \<lparr>m_name = ''AuditEvent'',
        m_columns =
          [(column ''id'' BigAutoField)\<lparr>c_primary := True\<rparr>,
           column ''event_type'' (CharField 64),
           (column ''tenant_id'' (CharField 128))\<lparr>c_blank := True, c_default := DefaultText []\<rparr>,
           (column ''delegate_id'' (CharField 64))\<lparr>c_blank := True, c_default := DefaultText []\<rparr>,
           (column ''execution_id'' (CharField 64))\<lparr>c_blank := True, c_default := DefaultText []\<rparr>,
           (column ''detail'' TextField)\<lparr>c_blank := True, c_default := DefaultText []\<rparr>,
           (column ''created_at'' DateTimeField)\<lparr>c_auto_now_add := True\<rparr>],
        m_ordering = [''-created_at'']\<rparr>,
      CreateModel
       \<lparr>m_name = ''Delegate'',
        m_columns =
          [(column ''id'' UUIDField)\<lparr>c_default := DefaultCall ''uuid4'', c_primary := True\<rparr>,
           (column ''tenant_id'' (CharField 128))\<lparr>c_index := True\<rparr>,
           column ''name'' (CharField 128),
           (column ''queue'' (CharField 128))\<lparr>c_default := DefaultText ''default''\<rparr>,
           (column ''concurrency'' IntegerField)\<lparr>c_default := DefaultInt 1\<rparr>,
           column ''cert_serial'' (CharField 64),
           column ''cert_pem'' TextField,
           column ''cert_expires_at'' DateTimeField,
           (column ''status'' (CharField 16))
             \<lparr>c_choices := [''ACTIVE'', ''REVOKED''], c_default := DefaultText ''ACTIVE''\<rparr>,
           (column ''created_at'' DateTimeField)\<lparr>c_auto_now_add := True\<rparr>],
        m_ordering = []\<rparr>,
      CreateModel
       \<lparr>m_name = ''RegistrationToken'',
        m_columns =
          [(column ''token'' (CharField 64))\<lparr>c_default := DefaultCall ''_generate_token'', c_primary := True\<rparr>,
           column ''tenant_id'' (CharField 128),
           (column ''created_at'' DateTimeField)\<lparr>c_auto_now_add := True\<rparr>,
           column ''expires_at'' DateTimeField,
           (column ''used_at'' DateTimeField)\<lparr>c_blank := True, c_null := True\<rparr>],
        m_ordering = []\<rparr>,
      CreateModel
       \<lparr>m_name = ''Execution'',
        m_columns =
          [(column ''execution_id'' UUIDField)\<lparr>c_default := DefaultCall ''uuid4'', c_primary := True\<rparr>,
           (column ''tenant_id'' (CharField 128))\<lparr>c_index := True\<rparr>,
           column ''workspace_fixture'' (CharField 256),
           (column ''status'' (CharField 16))
             \<lparr>c_choices := [''QUEUED'', ''TRANSFERRING'', ''TRANSFER_FAILED'', ''RUNNING'', ''SUCCEEDED'', ''FAILED''],
              c_default := DefaultText ''QUEUED''\<rparr>,
           (column ''transfer_id'' (CharField 64))\<lparr>c_blank := True, c_default := DefaultText []\<rparr>,
           (column ''transfer_attempts'' IntegerField)\<lparr>c_default := DefaultInt 0\<rparr>,
           (column ''output_path'' (CharField 256))\<lparr>c_blank := True, c_default := DefaultText []\<rparr>,
           (column ''output_checksum'' (CharField 128))\<lparr>c_blank := True, c_default := DefaultText []\<rparr>,
           (column ''created_at'' DateTimeField)\<lparr>c_auto_now_add := True\<rparr>,
           (column ''updated_at'' DateTimeField)\<lparr>c_auto_now := True\<rparr>,
           (column ''delegate'' (ForeignKey ''Delegate'' SET_NULL ''executions''))\<lparr>c_null := True\<rparr>],
        m_ordering = []\<rparr>,
      CreateModel
       \<lparr>m_name = ''ExecutionLog'',
        m_columns =
          [(column ''id'' BigAutoField)\<lparr>c_primary := True\<rparr>,
           column ''seq'' IntegerField,
           column ''line'' TextField,
           (column ''created_at'' DateTimeField)\<lparr>c_auto_now_add := True\<rparr>,
           column ''execution'' (ForeignKey ''Execution'' CASCADE ''logs'')],
        m_ordering = [''seq'']\<rparr>]"

text \<open>Running an operation: a table is created once, and a foreign key needs its target.\<close>

definition targets :: "model_class \<Rightarrow> string list" where
  "targets m = concat (map (\<lambda>c. case c_type c of ForeignKey t _ _ \<Rightarrow> [t] | _ \<Rightarrow> []) (m_columns m))"

fun run_operation :: "model_class list \<Rightarrow> operation \<Rightarrow> model_class list result" where
  "run_operation tables (CreateModel m) =
     (if m_name m \<in> set (map m_name tables) then Inl (OtherError ''OperationalError'')
      else if list_all (\<lambda>t. t \<in> set (map m_name (tables @ [m]))) (targets m) then Inr (tables @ [m])
      else Inl (ValueError ''Related model cannot be resolved''))"

definition migrate :: "operation list \<Rightarrow> model_class list result" where
  "migrate ops = fold_res run_operation [] ops"

text \<open>A migrated table is the table of a class, whatever the order of the columns.\<close>

definition with_auto_id :: "model_class \<Rightarrow> model_class" where
  "with_auto_id m = (if list_ex c_primary (m_columns m) then m else m\<lparr>m_columns := auto_id # m_columns m\<rparr>)"

definition same_table :: "model_class \<Rightarrow> model_class \<Rightarrow> bool" where
  "same_table t m =
     (m_name t = m_name m \<and> m_ordering t = m_ordering m \<and> length (m_columns t) = length (m_columns m)
      \<and> list_all (\<lambda>c. c \<in> set (m_columns t)) (m_columns m))"

definition in_step :: "model_class list \<Rightarrow> model_class list \<Rightarrow> bool" where
  "in_step tables models =
     (length tables = length models
      \<and> list_all (\<lambda>m. list_ex (\<lambda>t. same_table t (with_auto_id m)) tables) models)"

text \<open>The tables the migration leaves, in the order of its operations.\<close>

definition SCHEMA :: "model_class list" where
  "SCHEMA = map (\<lambda>op. case op of CreateModel m \<Rightarrow> m) MIGRATION_0001"

lemma schema_names: "map m_name SCHEMA = [''AuditEvent'', ''Delegate'', ''RegistrationToken'', ''Execution'', ''ExecutionLog'']"
  by (simp add: SCHEMA_def MIGRATION_0001_def)

lemma migrate_schema: "migrate MIGRATION_0001 = Inr SCHEMA"
  by (simp add: migrate_def SCHEMA_def MIGRATION_0001_def targets_def column_def)

lemma schema_in_step: "in_step SCHEMA MODELS"
  by (simp add: in_step_def SCHEMA_def MIGRATION_0001_def MODELS_def same_table_def with_auto_id_def auto_id_def column_def
      RegistrationToken_model_def Delegate_model_def Execution_model_def ExecutionLog_model_def AuditEvent_model_def)

section \<open>Rows that fit the tables\<close>

datatype cell = NULL | Text string | Integer int | Timestamp int | Uuid uuid

text \<open>
  What a column may hold. \<open>max_length\<close> is not enforced: SQLite takes text of any length, and
  \<open>objects.create\<close> runs no validators; nor would it check choices, which is why they are
  checked here. Integers are bounded separately below.
\<close>

fun fits :: "column \<Rightarrow> cell \<Rightarrow> bool" where
  "fits c NULL = c_null c"
| "fits c (Text s) = (case c_type c of CharField n \<Rightarrow> c_choices c = [] \<or> s \<in> set (c_choices c) | TextField \<Rightarrow> True | _ \<Rightarrow> False)"
| "fits c (Integer i) = (c_type c = IntegerField)"
| "fits c (Timestamp t) = (c_type c = DateTimeField)"
| "fits c (Uuid u) = (case c_type c of UUIDField \<Rightarrow> True | ForeignKey _ _ _ \<Rightarrow> True | _ \<Rightarrow> False)"

text \<open>The columns the database fills in by itself, which the rows of \<open>db\<close> leave out.\<close>

definition stamped :: "column \<Rightarrow> bool" where
  "stamped c = (c_auto_now_add c \<or> c_auto_now c \<or> c_type c = BigAutoField)"

definition table :: "string \<Rightarrow> model_class option" where
  "table n = find (\<lambda>m. m_name m = n) SCHEMA"

definition row_fits :: "string \<Rightarrow> (string \<times> cell) list \<Rightarrow> bool" where
  "row_fits n row =
     (case table n of
        None \<Rightarrow> False
      | Some m \<Rightarrow>
          distinct (map fst row)
          \<and> list_all (\<lambda>(k, v). case find (\<lambda>c. c_name c = k) (m_columns m) of None \<Rightarrow> False | Some c \<Rightarrow> fits c v) row
          \<and> list_all (\<lambda>c. stamped c \<or> c_name c \<in> set (map fst row)) (m_columns m))"

definition optional :: "('a \<Rightarrow> cell) \<Rightarrow> 'a option \<Rightarrow> cell" where
  "optional f v = (case v of None \<Rightarrow> NULL | Some x \<Rightarrow> f x)"

definition token_values :: "string \<Rightarrow> registration_token \<Rightarrow> (string \<times> cell) list" where
  "token_values k t =
     [(''token'', Text k), (''tenant_id'', Text (t_tenant_id t)), (''expires_at'', Timestamp (t_expires_at t)),
      (''used_at'', optional Timestamp (t_used_at t))]"

definition delegate_values :: "uuid \<Rightarrow> delegate \<Rightarrow> (string \<times> cell) list" where
  "delegate_values u r =
     [(''id'', Uuid u), (''tenant_id'', Text (d_tenant_id r)), (''name'', Text (d_name r)), (''queue'', Text (d_queue r)),
      (''concurrency'', Integer (d_concurrency r)), (''cert_serial'', Text (d_cert_serial r)),
      (''cert_pem'', Text (d_cert_pem r)), (''cert_expires_at'', Timestamp (d_cert_expires_at r)),
      (''status'', Text (delegate_status_text (d_status r)))]"

definition execution_values :: "uuid \<Rightarrow> execution \<Rightarrow> (string \<times> cell) list" where
  "execution_values u r =
     [(''execution_id'', Uuid u), (''tenant_id'', Text (e_tenant_id r)), (''delegate'', optional Uuid (e_delegate_id r)),
      (''workspace_fixture'', Text (e_workspace_fixture r)), (''status'', Text (status_text (e_status r))),
      (''transfer_id'', Text (e_transfer_id r)), (''transfer_attempts'', Integer (e_transfer_attempts r)),
      (''output_path'', Text (e_output_path r)), (''output_checksum'', Text (e_output_checksum r))]"

definition log_values :: "execution_log \<Rightarrow> (string \<times> cell) list" where
  "log_values l = [(''execution'', Uuid (l_execution l)), (''seq'', Integer (l_seq l)), (''line'', Text (l_line l))]"

definition audit_values :: "audit_event \<Rightarrow> (string \<times> cell) list" where
  "audit_values a =
     [(''event_type'', Text (a_event_type a)), (''tenant_id'', Text (a_tenant_id a)),
      (''delegate_id'', Text (a_delegate_id a)), (''execution_id'', Text (a_execution_id a)), (''detail'', Text (a_detail a))]"

lemma status_choices:
  "status_text st \<in> {''QUEUED'', ''TRANSFERRING'', ''TRANSFER_FAILED'', ''RUNNING'', ''SUCCEEDED'', ''FAILED''}"
  "delegate_status_text ds \<in> {''ACTIVE'', ''REVOKED''}"
  by (cases st; simp) (cases ds; simp)

lemmas row_defs = row_fits_def table_def SCHEMA_def MIGRATION_0001_def column_def stamped_def optional_def

lemma token_fits: "row_fits ''RegistrationToken'' (token_values k t)"
  by (cases "t_used_at t") (simp_all add: row_defs token_values_def)

lemma delegate_fits: "row_fits ''Delegate'' (delegate_values u r)"
  using status_choices(2) [of "d_status r"] by (simp add: row_defs delegate_values_def)

lemma execution_fits: "row_fits ''Execution'' (execution_values u r)"
  using status_choices(1) [of "e_status r"] by (cases "e_delegate_id r") (simp_all add: row_defs execution_values_def)

lemma log_fits: "row_fits ''ExecutionLog'' (log_values l)"
  by (simp add: row_defs log_values_def)

lemma audit_fits: "row_fits ''AuditEvent'' (audit_values a)"
  by (simp add: row_defs audit_values_def)

section \<open>References and ranges\<close>

text \<open>
  What the database keeps beyond the types: one row per primary key, references that lead
  somewhere and stay within the tenant, and integers that fit SQLite's 64 bits, where \<open>n\<close>
  bounds the transfers sent so far.
\<close>

definition in_64_bits :: "int \<Rightarrow> bool" where
  "in_64_bits i = (- (2 ^ 63) \<le> i \<and> i < 2 ^ 63)"

definition execution_ok :: "nat \<Rightarrow> db \<Rightarrow> execution \<Rightarrow> bool" where
  "execution_ok n d row =
     (0 \<le> e_transfer_attempts row \<and> e_transfer_attempts row \<le> int n
      \<and> (\<exists>v dl. e_delegate_id row = Some v \<and> find_delegate d v = Some dl \<and> d_tenant_id dl = e_tenant_id row))"

definition tables_ok :: "nat \<Rightarrow> db \<Rightarrow> bool" where
  "tables_ok n d \<longleftrightarrow>
     delegates_wf d \<and> (\<forall>u dl. find_delegate d u = Some dl \<longrightarrow> in_64_bits (d_concurrency dl))
     \<and> (\<forall>u row. executions d u = Some row \<longrightarrow> execution_ok n d row)
     \<and> (\<forall>l \<in> set (logs d). executions d (l_execution l) \<noteq> None)"

text \<open>What one step may do to executions and logs while the delegates stay.\<close>

definition row_next :: "execution \<Rightarrow> execution \<Rightarrow> bool" where
  "row_next a b =
     (same_identity a b \<and> e_transfer_attempts a \<le> e_transfer_attempts b \<and> e_transfer_attempts b \<le> e_transfer_attempts a + 1)"

definition tables_next :: "db \<Rightarrow> db \<Rightarrow> bool" where
  "tables_next d d' \<longleftrightarrow>
     delegates d' = delegates d \<and> (\<forall>u. rel_option row_next (executions d u) (executions d' u))
     \<and> (logs d' = logs d \<or> (\<exists>l. logs d' = logs d @ [l] \<and> executions d (l_execution l) \<noteq> None))"

lemma rows_next_same [simp]: "rel_option row_next r r"
  by (rule option.rel_refl) (simp add: row_next_def same_identity_def)

lemma tables_next_audit [simp]: "tables_next d (audit a d)" "tables_next d d"
  by (simp_all add: tables_next_def)

lemma tables_next_update:
  "(\<And>row. executions d u = Some row \<Longrightarrow> row_next row (g row)) \<Longrightarrow> tables_next d (update_execution u g d)"
  by (cases "executions d u") (auto simp: tables_next_def)

lemma tables_next_audits:
  "tables_next d d' \<Longrightarrow> tables_next d (audit a d')" "tables_next (audit a d) d' \<Longrightarrow> tables_next d d'"
  by (simp_all add: tables_next_def)

lemma tables_ok_next:
  assumes "tables_ok n d" and "tables_next d d'"
  shows "tables_ok (Suc n) d'"
proof -
  have find: "find_delegate d' = find_delegate d"
    using assms(2) by (simp add: tables_next_def find_delegate_def fun_eq_iff)
  have "execution_ok (Suc n) d' row'" if "executions d' u = Some row'" for u row'
  proof -
    have "rel_option row_next (executions d u) (Some row')"
      using assms(2) that unfolding tables_next_def by metis
    then obtain row where row: "executions d u = Some row" "row_next row row'"
      by (cases "executions d u") auto
    then have "execution_ok n d row" using assms(1) by (auto simp: tables_ok_def)
    with row(2) find show ?thesis by (auto simp: execution_ok_def row_next_def same_identity_def)
  qed
  moreover have "executions d' u \<noteq> None" if "executions d u \<noteq> None" for u
    using assms(2) that unfolding tables_next_def by (metis option.rel_distinct(2) option.exhaust_sel)
  then have "\<forall>l \<in> set (logs d'). executions d' (l_execution l) \<noteq> None"
    using assms by (auto simp: tables_ok_def tables_next_def)
  ultimately show ?thesis
    using assms find by (auto simp: tables_ok_def tables_next_def delegates_wf_def)
qed

section \<open>The dispatcher keeps the tables\<close>

lemma data_request_next: "tables_next (ds_db s) (ds_db (fst (handle_data_request h fx tid eid ekey f s)))"
  unfolding handle_data_request_def Let_def
  by (auto simp: row_next_def same_identity_def intro!: tables_next_audits(1) tables_next_update
      split: option.splits sum.splits prod.splits)

lemma log_next: "tables_next (ds_db s) (ds_db (fst (handle_log eid f n s)))"
  by (auto simp: handle_log_def tables_next_def split: sum.splits)

lemma status_next: "tables_next (ds_db s) (ds_db (fst (handle_status eid f s)))"
  unfolding handle_status_def Let_def
  by (auto simp: row_next_def same_identity_def
      intro!: tables_next_audits(2) [OF tables_next_update] split: option.splits sum.splits)

lemma output_next: "tables_next (ds_db s) (ds_db (fst (handle_output_message media eid f st s)))"
proof -
  have fin: "tables_next (ds_db s) (ds_db (fst (finish_output media eid x s)))" for x
    unfolding finish_output_def Let_def
    by (auto simp: row_next_def same_identity_def intro!: tables_next_audits(1) tables_next_update split: sum.splits)
  show ?thesis
  proof (cases "xfer_closes st f")
    case True
    then obtain x where x: "st = Some x" by (cases st) (simp_all add: xfer_closes_def)
    with True have "fst (handle_output_message media eid f st s) = fst (finish_output media eid x s)"
      by (simp add: output_closing split: prod.splits sum.splits)
    with fin show ?thesis by simp
  qed (simp add: output_not_closing)
qed

lemma watch_message_next:
  assumes "watch_message c eid keys k m (s, w) = ((s1, w1), r)"
  shows "tables_next (ds_db s) (ds_db s1)"
proof -
  obtain i f t where m: "m = (i, f, t)" by (cases m) auto
  have "tables_next (ds_db s) (ds_db (fst (fst (watch_message c eid keys k m (s, w)))))"
    unfolding m watch_message_def Let_def
    using data_request_next [of s] log_next [of s] status_next [of s] output_next [of s]
    by (auto split: prod.splits sum.splits) (metis fst_conv)+
  with assms show ?thesis by simp
qed

lemma announcement_next:
  assumes "announcement text_of m (s, mn) = ((s1, mn1), r)"
  shows "tables_next (ds_db s) (ds_db s1)"
  using assms by (cases m) (auto simp: announcement_def Let_def split: if_splits sum.splits option.splits)

lemma endings_next:
  "tables_next (ds_db s) (ds_db (cleanup_execution_streams eid keys s))" "tables_next (ds_db s) (ds_db (give_up eid keys life s))"
  "tables_next d (gw_audit ty del d)"
  by (simp_all add: cleanup_execution_streams_def give_up_def tables_next_def gw_audit_def split: prod.splits)

section \<open>The API keeps the tables\<close>

lemma issue_rest:
  assumes "issue_registration_token w now token req s = (s', out)"
  shows "logs (cp_db s') = logs (cp_db s) \<and> executions (cp_db s') = executions (cp_db s) \<and> delegates (cp_db s') = delegates (cp_db s)"
proof -
  have "logs (cp_db (fst (issue_registration_token w now token req s))) = logs (cp_db s)
      \<and> executions (cp_db (fst (issue_registration_token w now token req s))) = executions (cp_db s)
      \<and> delegates (cp_db (fst (issue_registration_token w now token req s))) = delegates (cp_db s)"
    by (simp add: issue_registration_token_def require_http_method_def Let_def split: sum.splits)
  with assms show ?thesis by simp
qed

lemma register_logs:
  assumes "register_delegate w now rr req s = (s', out)"
  shows "logs (cp_db s') = logs (cp_db s)"
proof -
  have rej: "logs (cp_db (fst (rejected w tenant detail st msg s0))) = logs (cp_db s0)" for tenant detail st msg s0
    by (simp add: rejected_def)
  have com: "logs (cp_db (fst (register_commit w now u tok tenant row s0))) = logs (cp_db s0)" for u tok tenant row s0
    by (simp add: register_commit_def Let_def split: option.splits)
  have "logs (cp_db (fst (register_checked w now rr body tok tenant csr_json s))) = logs (cp_db s)" for body tok tenant csr_json
    using rej com by (simp add: register_checked_def Let_def split: option.splits prod.splits sum.splits)
  then have "logs (cp_db (fst (register_delegate w now rr req s))) = logs (cp_db s)"
    by (simp add: register_delegate_def require_http_method_def split: sum.splits)
  with assms show ?thesis by simp
qed

lemma register_rest:
  assumes "register_delegate w now rr req s = (s', out)"
  shows "logs (cp_db s') = logs (cp_db s) \<and> executions (cp_db s') = executions (cp_db s)
    \<and> (delegates (cp_db s') = delegates (cp_db s)
       \<or> (\<exists>row. find_delegate (cp_db s) (rr_delegate_id rr) = None \<and> in_64_bits (d_concurrency row)
           \<and> delegates (cp_db s') = AList.update (rr_delegate_id rr) row (delegates (cp_db s))))"
  using assms
proof (cases rule: register_delegate_cases)
  case early
  then show ?thesis by simp
next
  case (checked body tok tenant csr_json)
  from checked(4) show ?thesis
  proof (cases rule: register_checked_cases)
    case (committed fs cert_pem serial na acl row)
    obtain t where "tokens (cp_db s) tok = Some t"
      using token_problem_None [OF committed(1)] by blast
    moreover have "in_64_bits (d_concurrency row)"
      using committed(4) by (auto simp: delegate_row_def in_64_bits_def ebind_eq_Inr split: if_splits)
    ultimately show ?thesis
      using register_commit_state [OF committed(6) [symmetric], of t] committed(5) register_logs [OF assms] by auto
  qed (use register_logs [OF assms] in \<open>simp_all add: same_core_def\<close>)
qed

lemma revoke_rest:
  assumes "revoke_delegate w gateway req u s = (s', out)"
  shows "logs (cp_db s') = logs (cp_db s) \<and> executions (cp_db s') = executions (cp_db s)
    \<and> (delegates (cp_db s') = delegates (cp_db s)
       \<or> (\<exists>row. find_delegate (cp_db s) u = Some row
           \<and> delegates (cp_db s') = AList.update u (row\<lparr>d_status := STATUS_REVOKED\<rparr>) (delegates (cp_db s))))"
  using assms
  by (auto simp: revoke_delegate_def require_http_method_def Let_def put_delegate_def audit_def
      split: if_splits option.splits sum.splits prod.splits)

lemma create_rest:
  assumes "create_execution w new_id broker req s = (s', out)"
  shows "logs (cp_db s') = logs (cp_db s) \<and> delegates (cp_db s') = delegates (cp_db s)
    \<and> (executions (cp_db s') = executions (cp_db s)
       \<or> (\<exists>q. execution_ok 0 (cp_db s) q \<and> executions (cp_db s') = (executions (cp_db s))(new_id \<mapsto> q)))"
proof -
  have "logs (cp_db s1) = logs (cp_db s) \<and> delegates (cp_db s1) = delegates (cp_db s)
      \<and> (executions (cp_db s1) = executions (cp_db s)
        \<or> (\<exists>q. execution_ok 0 (cp_db s) q \<and> executions (cp_db s1) = (executions (cp_db s))(new_id \<mapsto> q)))"
    if "create_checked w new_id broker body tenant u fixture s = (s1, out1)" for body tenant u fixture s1 out1
    using that
    by (auto simp: create_checked_def Let_def execution_ok_def
        split: if_splits option.splits sum.splits prod.splits intro!: exI)
  with assms show ?thesis by (cases rule: create_execution_cases) auto
qed

lemma execution_ok_mono:
  assumes "execution_ok m d row" and "m \<le> n" and "\<forall>u dl. find_delegate d u = Some dl \<longrightarrow>
      (\<exists>dl'. find_delegate d' u = Some dl' \<and> d_tenant_id dl' = d_tenant_id dl)"
  shows "execution_ok n d' row"
  using assms by (fastforce simp: execution_ok_def)

lemma tables_ok_delegates:
  assumes "tables_ok n d" and "logs d' = logs d" and "executions d' = executions d"
    and "delegates d' = AList.update u row (delegates d)" and "in_64_bits (d_concurrency row)"
    and "\<forall>dl. find_delegate d u = Some dl \<longrightarrow> d_tenant_id row = d_tenant_id dl"
  shows "tables_ok n d'"
proof -
  note find = find_update [OF assms(4)]
  have "execution_ok n d' r" if "executions d v = Some r" for v r
    by (rule execution_ok_mono [of n d]) (use assms(1,6) that find in \<open>auto simp: tables_ok_def\<close>)
  with assms find show ?thesis
    by (auto simp: tables_ok_def delegates_wf_def distinct_update)
qed

lemma tables_ok_same:
  assumes "tables_ok n d" and "logs d' = logs d" and "executions d' = executions d" and "delegates d' = delegates d"
  shows "tables_ok n d'"
proof -
  have "find_delegate d' = find_delegate d" using assms(4) by (simp add: find_delegate_def fun_eq_iff)
  with assms show ?thesis by (simp add: tables_ok_def execution_ok_def delegates_wf_def)
qed

lemma tables_ok_created:
  assumes "tables_ok n d" and "logs d' = logs d" and "delegates d' = delegates d"
    and "executions d' = (executions d)(e \<mapsto> q)" and "execution_ok 0 d q"
  shows "tables_ok n d'"
proof -
  have find: "find_delegate d' = find_delegate d" using assms(3) by (simp add: find_delegate_def fun_eq_iff)
  have "execution_ok n d' q" by (rule execution_ok_mono [OF assms(5)]) (simp_all add: find)
  with assms find show ?thesis by (auto simp: tables_ok_def execution_ok_def delegates_wf_def)
qed

lemma tables_ok_Suc: "tables_ok n d \<Longrightarrow> tables_ok (Suc n) d"
  by (auto simp: tables_ok_def execution_ok_def) force

lemma serve_tables:
  assumes "\<forall>rest. resolve path \<noteq> Some (ADMIN rest)" and "serve w i path req s = (s', out)" and "tables_ok n (cp_db s)"
  shows "tables_ok n (cp_db s')"
proof (cases "resolve path")
  case None
  with assms show ?thesis by (simp add: serve_def)
next
  case (Some rt)
  show ?thesis
  proof (cases rt)
    case (ADMIN rest)
    with assms(1) Some show ?thesis by simp
  next
    case ISSUE_TOKEN
    with assms(2) Some have "issue_registration_token w (in_now i) (in_token i) req s = (s', out)"
      by (simp add: serve_def)
    from issue_rest [OF this] assms(3) show ?thesis using tables_ok_same by metis
  next
    case REGISTER
    with assms(2) Some have "register_delegate w (in_now i) (in_random i) req s = (s', out)"
      by (simp add: serve_def)
    from register_rest [OF this] assms(3) show ?thesis
      using tables_ok_same tables_ok_delegates by (metis option.distinct(1))
  next
    case (REVOKE u)
    with assms(2) Some have "revoke_delegate w (in_gateway i) req u s = (s', out)"
      by (simp add: serve_def)
    from revoke_rest [OF this] show ?thesis
    proof (elim conjE disjE exE)
      fix row
      assume rest: "logs (cp_db s') = logs (cp_db s)" "executions (cp_db s') = executions (cp_db s)"
        and row: "find_delegate (cp_db s) u = Some row"
        and upd: "delegates (cp_db s') = AList.update u (row\<lparr>d_status := STATUS_REVOKED\<rparr>) (delegates (cp_db s))"
      have "in_64_bits (d_concurrency row)" using assms(3) row by (auto simp: tables_ok_def)
      with tables_ok_delegates [OF assms(3) rest upd] row show ?thesis by simp
    qed (use assms(3) tables_ok_same in metis)
  next
    case CREATE_EXECUTION
    with assms(2) Some have "create_execution w (in_execution_id i) (in_broker i) req s = (s', out)"
      by (simp add: serve_def)
    from create_rest [OF this] assms(3) show ?thesis using tables_ok_same tables_ok_created by metis
  next
    case (EXECUTION_STATUS e)
    with assms(2,3) Some views_same(1) [of req e s] show ?thesis by (simp add: serve_def)
  next
    case AUDIT_EVENTS
    with assms(2,3) Some views_same(2) [of req s] show ?thesis by (simp add: serve_def)
  qed
qed

section \<open>Whole runs\<close>

lemma sys_step_tables:
  assumes "sys_step w c s s'" and "tables_ok n (sys_db s)"
  shows "tables_ok (Suc n) (sys_db s')"
  using assms(1)
proof cases
  case (request path i req cp' out)
  have "tables_ok n (cp_db cp')"
    using serve_tables [OF request(2,3)] assms(2) by (simp add: sys_db_def)
  from tables_ok_Suc [OF this] show ?thesis by (simp add: request(1) sys_db_def)
next
  case (message eid u keys k m wt t wt' r)
  from tables_ok_next [OF assms(2)] watch_message_next [OF message(3)] show ?thesis by (simp add: message(1))
next
  case (finished eid keys)
  from tables_ok_next [OF assms(2)] endings_next(1) [of "ds_of s"] show ?thesis by (simp add: finished)
next
  case (timed_out eid keys life)
  from tables_ok_next [OF assms(2)] endings_next(2) [of "ds_of s"] show ?thesis by (simp add: timed_out)
next
  case (announce text_of am mn t mn' r)
  from tables_ok_next [OF assms(2)] announcement_next [OF announce(2)] show ?thesis by (simp add: announce(1))
next
  case (reconcile pw acl res)
  with tables_ok_Suc [OF assms(2)] show ?thesis by (simp add: sys_db_def)
next
  case (restarted did del)
  from tables_ok_next [OF assms(2) endings_next(3)] show ?thesis by (simp add: restarted(1)) (simp add: sys_db_def)
qed

text \<open>The steps, counted.\<close>

interpretation tables_inv: invariant_of "\<lambda>(n, s) (n', s'). n' = Suc n \<and> sys_step w c s s'"
    "\<lambda>(n, s). tables_ok n (sys_db s)" for w c
  by unfold_locales (auto dest: sys_step_tables)

lemma counted_run:
  assumes "(sys_step w c ^^ n) s s'"
  shows "rtranclp (\<lambda>(n, s) (n', s'). n' = Suc n \<and> sys_step w c s s') (0, s) (n, s')"
  using assms
proof (induction n arbitrary: s')
  case 0
  then show ?case by simp
next
  case (Suc n)
  then obtain s1 where s1: "(sys_step w c ^^ n) s s1" "sys_step w c s1 s'" by auto
  from Suc.IH [OF s1(1)] show ?case
    by (rule rtranclp.rtrancl_into_rtrancl) (simp add: s1(2))
qed

lemma empty_tables_ok: "tables_ok 0 empty_db"
  by (simp add: tables_ok_def empty_db_def find_delegate_def delegates_wf_def)

definition rows_fit :: "db \<Rightarrow> bool" where
  "rows_fit d \<longleftrightarrow>
     (\<forall>k t. tokens d k = Some t \<longrightarrow> row_fits ''RegistrationToken'' (token_values k t))
     \<and> (\<forall>u r. (u, r) \<in> set (delegates d) \<longrightarrow> row_fits ''Delegate'' (delegate_values u r))
     \<and> (\<forall>u r. executions d u = Some r \<longrightarrow> row_fits ''Execution'' (execution_values u r))
     \<and> (\<forall>l \<in> set (logs d). row_fits ''ExecutionLog'' (log_values l))
     \<and> (\<forall>a \<in> set (audits d). row_fits ''AuditEvent'' (audit_values a))"

lemma rows_always_fit: "rows_fit d"
  by (simp add: rows_fit_def token_fits delegate_fits execution_fits log_fits audit_fits)

text \<open>The migration builds the tables of the models: its operations run from an empty database, in
  their order, every foreign key finding its target, and leave exactly the classes of
  \<open>models.py\<close>, column by column, with the automatic primary key where a class has none.\<close>

theorem migration_matches_models:
  "\<exists>tables. migrate MIGRATION_0001 = Inr tables \<and> in_step tables MODELS"
  using migrate_schema schema_in_step by blast



end
