(* ===== verification/Logs.thy ===== *)
theory Logs
  imports Schema
begin

text \<open>
  The log of an execution, from the stream to the API: a watcher stores the LOG messages in
  order, numbered from 1, and the status view lists them by these numbers. A dispatcher that is
  restarted reads the streams from the beginning and counts from 1 again.
\<close>

section \<open>What a watcher stores\<close>

definition is_log :: "stream_names \<Rightarrow> string \<times> watch_msg \<Rightarrow> bool" where
  "is_log keys x = (case x of (k, i, f, t) \<Rightarrow> k = log_key keys \<and> f ''type'' = Some ''LOG'')"

definition log_line :: "string \<times> watch_msg \<Rightarrow> string" where
  "log_line x = (case x of (k, i, f, t) \<Rightarrow> field_or f ''message'' [])"

text \<open>The lines of a batch of messages, and the rows made of lines when \<open>n\<close> have been counted.\<close>

definition log_lines :: "stream_names \<Rightarrow> (string \<times> watch_msg) list \<Rightarrow> string list" where
  "log_lines keys ms = map log_line (filter (is_log keys) ms)"

fun numbered :: "uuid \<Rightarrow> int \<Rightarrow> string list \<Rightarrow> execution_log list" where
  "numbered e n [] = []"
| "numbered e n (x # xs) = \<lparr>l_execution = e, l_seq = n + 1, l_line = x\<rparr> # numbered e (n + 1) xs"

lemma log_lines_simps [simp]:
  "log_lines keys [] = []"
  "log_lines keys (m # ms) = (if is_log keys m then log_line m # log_lines keys ms else log_lines keys ms)"
  by (simp_all add: log_lines_def)

lemma handlers_keep_logs:
  "logs (ds_db (fst (handle_data_request h fx tid eid ekey f s))) = logs (ds_db s)"
  "logs (ds_db (fst (handle_status eid f s))) = logs (ds_db s)"
  "logs (ds_db (fst (handle_output_message media eid f st s))) = logs (ds_db s)"
proof -
  show "logs (ds_db (fst (handle_data_request h fx tid eid ekey f s))) = logs (ds_db s)"
    by (simp add: handle_data_request_def Let_def split: option.splits sum.splits prod.splits)
  show "logs (ds_db (fst (handle_status eid f s))) = logs (ds_db s)"
    by (simp add: handle_status_def Let_def split: option.splits sum.splits)
  have fin: "logs (ds_db (fst (finish_output media eid x s))) = logs (ds_db s)" for x
    by (simp add: finish_output_def Let_def split: sum.splits)
  show "logs (ds_db (fst (handle_output_message media eid f st s))) = logs (ds_db s)"
    using fin by (auto simp: handle_output_message_def Let_def split: option.splits prod.splits sum.splits) (metis fst_conv)+
qed

lemma watch_message_logs:
  assumes "to_uuid eid = Inr eu" and "watch_message c eid keys k m (s, w) = ((s1, w1), Inr ())"
  shows "logs (ds_db s1) = logs (ds_db s) @ numbered eu (w_log_seq w) (log_lines keys [(k, m)])
    \<and> w_log_seq w1 = w_log_seq w + int (length (log_lines keys [(k, m)]))"
proof -
  obtain i f t where m: "m = (i, f, t)" by (cases m) auto
  show ?thesis
  proof (cases "is_log keys (k, m)")
    case True
    with assms show ?thesis
      by (auto simp: m is_log_def log_line_def watch_message_def handle_log_def Let_def split: if_splits)
  next
    case False
    have "logs (ds_db (fst (fst (watch_message c eid keys k m (s, w))))) = logs (ds_db s)
        \<and> w_log_seq (snd (fst (watch_message c eid keys k m (s, w)))) = w_log_seq w"
      using False handlers_keep_logs [where s = s]
      by (auto simp: m is_log_def watch_message_def Let_def split: prod.splits sum.splits) (metis fst_conv)+
    with False assms(2) show ?thesis by simp
  qed
qed

lemma numbered_append: "numbered e n (xs @ ys) = numbered e n xs @ numbered e (n + int (length xs)) ys"
  by (induction xs arbitrary: n) (simp_all add: algebra_simps)

lemma log_lines_append: "log_lines keys (xs @ ys) = log_lines keys xs @ log_lines keys ys"
  by (simp add: log_lines_def)

lemma watch_messages_logs:
  assumes "to_uuid eid = Inr eu" and "watch_messages c eid keys ms (s, w) = ((s1, w1), Inr ())"
  shows "logs (ds_db s1) = logs (ds_db s) @ numbered eu (w_log_seq w) (log_lines keys ms)
    \<and> w_log_seq w1 = w_log_seq w + int (length (log_lines keys ms))"
  using assms(2)
proof (induction ms arbitrary: s w)
  case Nil
  then show ?case by simp
next
  case (Cons km ms)
  obtain k m where km: "km = (k, m)" by (cases km) auto
  obtain s2 w2 where one: "watch_message c eid keys k m (s, w) = ((s2, w2), Inr ())"
    and rest: "watch_messages c eid keys ms (s2, w2) = ((s1, w1), Inr ())"
    using Cons.prems by (auto simp: km split: prod.splits sum.splits)
  have "log_lines keys (km # ms) = log_lines keys [(k, m)] @ log_lines keys ms"
    using log_lines_append [of keys "[km]" ms] by (simp add: km)
  with watch_message_logs [OF assms(1) one] Cons.IH [OF rest] show ?case
    by (simp add: numbered_append algebra_simps)
qed

section \<open>What the status view lists\<close>

lemma numbered_facts:
  "map l_line (numbered e n xs) = xs" "filter (\<lambda>l. l_execution l = e) (numbered e n xs) = numbered e n xs"
  "\<forall>l \<in> set (numbered e n xs). n < l_seq l" "sorted (map l_seq (numbered e n xs))"
  by (induction xs arbitrary: n) (auto, force+)

lemma view_lines:
  assumes "executions (cp_db s) e = Some row" and "req_method req = ''GET''"
  shows "\<exists>resp. execution_status_view req e s = (s, Inr resp) \<and> resp_status resp = 200
    \<and> (''logs'', JList (map JStr (map l_line (sort_key l_seq (filter (\<lambda>l. l_execution l = e) (logs (cp_db s)))))))
        \<in> set (resp_body resp)
    \<and> (''status'', JStr (status_text (e_status row))) \<in> set (resp_body resp)"
  using assms by (simp add: execution_status_view_def require_http_method_def Let_def json_response_def)

lemma sort_key_first: "\<forall>z \<in> set zs. f a \<le> f z \<Longrightarrow> sort_key f (a # zs) = a # sort_key f zs"
  by (simp add: insort_is_Cons)

lemma sort_key_least: "\<forall>x \<in> set xs. f a < f x \<Longrightarrow> \<forall>y \<in> set ys. f a \<le> f y \<Longrightarrow>
    sort_key f (xs @ a # ys) = a # sort_key f (xs @ ys)"
  by (induction xs) (auto simp: insort_is_Cons)

text \<open>Two numberings from the same start: each line of the first comes before its copy.\<close>

lemma sort_twice:
  "sort_key l_seq (numbered e n xs @ numbered e n (xs @ ys))
     = concat (map (\<lambda>r. [r, r]) (numbered e n xs)) @ numbered e (n + int (length xs)) ys"
proof (induction xs arbitrary: n)
  case Nil
  show ?case using numbered_facts(4) [of e n ys] by (simp add: sort_key_id_if_sorted)
next
  case (Cons x xs)
  let ?r = "\<lparr>l_execution = e, l_seq = n + 1, l_line = x\<rparr>"
  have later: "\<forall>l \<in> set (numbered e (n + 1) zs). l_seq ?r < l_seq l" for zs
    using numbered_facts(3) [of e "n + 1" zs] by simp
  have "sort_key l_seq (numbered e n (x # xs) @ numbered e n ((x # xs) @ ys))
      = ?r # sort_key l_seq (numbered e (n + 1) xs @ ?r # numbered e (n + 1) (xs @ ys))"
    using later by (subst numbered.simps, subst append_Cons, subst sort_key_first) fastforce+
  also have "\<dots> = ?r # ?r # sort_key l_seq (numbered e (n + 1) xs @ numbered e (n + 1) (xs @ ys))"
    using later by (subst sort_key_least) fastforce+
  finally show ?case using Cons.IH [of "n + 1"] by (simp add: algebra_simps)
qed

section \<open>From stream to view, and again after a restart\<close>

definition listed :: "uuid \<Rightarrow> db \<Rightarrow> string list" where
  "listed e d = map l_line (sort_key l_seq (filter (\<lambda>l. l_execution l = e) (logs d)))"

lemma fresh_watcher_logs:
  assumes "to_uuid eid = Inr e" and "watch_messages c eid keys ms (s, watch_init keys) = ((s1, w1), Inr ())"
  shows "filter (\<lambda>l. l_execution l = e) (logs (ds_db s1)) =
    filter (\<lambda>l. l_execution l = e) (logs (ds_db s)) @ numbered e 0 (log_lines keys ms)"
  using watch_messages_logs [OF assms] by (simp add: watch_init_def numbered_facts(2))

text \<open>C8: Logs arrive in order. When a watcher that has just started on an execution without stored
  lines has handled a batch of messages, the status view answers 200 and lists exactly the
  texts of the LOG messages of the log stream, in the order they were sent, whatever came in
  between on the four streams.\<close>

theorem logs_end_to_end:
  assumes "to_uuid eid = Inr e" and "watch_messages c eid keys ms (s, watch_init keys) = ((s1, w1), Inr ())"
    and "\<forall>l \<in> set (logs (ds_db s)). l_execution l \<noteq> e"
    and "executions (ds_db s1) e = Some row" and "req_method req = ''GET''" and "cp_db p = ds_db s1"
  shows "\<exists>resp. execution_status_view req e p = (p, Inr resp) \<and> resp_status resp = 200
    \<and> (''logs'', JList (map JStr (log_lines keys ms))) \<in> set (resp_body resp)"
proof -
  have "filter (\<lambda>l. l_execution l = e) (logs (ds_db s)) = []" using assms(3) by (simp add: filter_empty_conv)
  with fresh_watcher_logs [OF assms(1,2)] have "map l_line (sort_key l_seq (filter (\<lambda>l. l_execution l = e) (logs (cp_db p))))
      = log_lines keys ms"
    using numbered_facts(1,4) by (simp add: assms(6) sort_key_id_if_sorted)
  with view_lines [of p e row req] assms(4-6) show ?thesis by (auto simp del: map_map)
qed

text \<open>C34: A restart doubles the log. If the dispatcher is restarted while an execution runs, its new
  watcher reads the streams from the beginning: the messages already handled are handled
  again, then the later ones. Every line stored before the restart is then listed twice, one
  after the other.\<close>

theorem restart_doubles_log:
  assumes "to_uuid eid = Inr e" and "\<forall>l \<in> set (logs (ds_db s)). l_execution l \<noteq> e"
    and "watch_messages c eid keys ms (s, watch_init keys) = ((s1, w1), Inr ())"
    and "watch_messages c eid keys (ms @ later) (s1, watch_init keys) = ((s2, w2), Inr ())"
  shows "listed e (ds_db s2) = concat (map (\<lambda>x. [x, x]) (log_lines keys ms)) @ log_lines keys later"
proof -
  have "filter (\<lambda>l. l_execution l = e) (logs (ds_db s)) = []" using assms(2) by (simp add: filter_empty_conv)
  with fresh_watcher_logs [OF assms(1,3)] fresh_watcher_logs [OF assms(1,4)]
  have "listed e (ds_db s2) = map l_line (sort_key l_seq (numbered e 0 (log_lines keys ms)
      @ numbered e 0 (log_lines keys ms @ log_lines keys later)))"
    by (simp add: listed_def log_lines_append)
  also have "\<dots> = concat (map (\<lambda>x. [x, x]) (map l_line (numbered e 0 (log_lines keys ms))))
      @ map l_line (numbered e (0 + int (length (log_lines keys ms))) (log_lines keys later))"
    unfolding sort_twice by (simp add: map_concat comp_def)
  finally show ?thesis by (simp only: numbered_facts(1))
qed

section \<open>Two lines\<close>

definition log_keys :: stream_names where
  "log_keys = stream_keys (uuid_str 1) (uuid_str 2)"

definition logs_ds :: ds where
  "logs_ds = sample_ds\<lparr>ds_db := put_execution 1 sample_execution empty_db\<rparr>"

definition two_logs :: "stream_names \<Rightarrow> (string \<times> watch_msg) list" where
  "two_logs keys =
     [(log_key keys, ''1-0'', [''type'' \<mapsto> ''LOG'', ''message'' \<mapsto> ''a''], ''n''),
      (log_key keys, ''1-1'', [''type'' \<mapsto> ''LOG'', ''message'' \<mapsto> ''b''], ''n'')]"

lemma two_logs_lines: "log_lines keys (two_logs keys) = [''a'', ''b'']"
  by (simp add: two_logs_def is_log_def log_line_def)

lemma two_logs_run:
  assumes "executions (ds_db s) 1 = Some row"
  shows "\<exists>s1 w1. watch_messages c (uuid_str 1) keys (two_logs keys) (s, watch_init keys) = ((s1, w1), Inr ())
    \<and> executions (ds_db s1) 1 = Some row"
  using assms by (simp add: two_logs_def watch_message_def handle_log_def Let_def)

lemma logs_ds_facts: "executions (ds_db logs_ds) 1 = Some sample_execution" "logs (ds_db logs_ds) = []"
  by (simp_all add: logs_ds_def sample_ds_def empty_db_def put_execution_def)

lemma logs_end_to_end_witness:
  "\<exists>s1 w1 (resp :: response). watch_messages sample_config (uuid_str 1) log_keys (two_logs log_keys) (logs_ds, watch_init log_keys) = ((s1, w1), Inr ())
     \<and> (''logs'', JList [JStr ''a'', JStr ''b'']) \<in> set (resp_body resp)"
proof -
  obtain s1 w1 where run: "watch_messages sample_config (uuid_str 1) log_keys (two_logs log_keys) (logs_ds, watch_init log_keys) = ((s1, w1), Inr ())"
    "executions (ds_db s1) 1 = Some sample_execution"
    using two_logs_run [OF logs_ds_facts(1)] by blast
  have "req_method (\<lparr>req_method = ''GET'', req_body = []\<rparr>) = ''GET''" by simp
  from logs_end_to_end [OF to_uuid_str run(1) _ run(2) this, of "(sy_cp blank_sys)\<lparr>cp_db := ds_db s1\<rparr>"] run(1)
  show ?thesis by (auto simp: two_logs_lines logs_ds_facts)
qed

lemma restart_doubles_log_witness:
  "\<exists>s1 w1 s2 w2. watch_messages sample_config (uuid_str 1) log_keys (two_logs log_keys) (logs_ds, watch_init log_keys) = ((s1, w1), Inr ())
     \<and> watch_messages sample_config (uuid_str 1) log_keys (two_logs log_keys @ []) (s1, watch_init log_keys) = ((s2, w2), Inr ())
     \<and> listed 1 (ds_db s2) = [''a'', ''a'', ''b'', ''b'']"
proof -
  obtain s1 w1 where one: "watch_messages sample_config (uuid_str 1) log_keys (two_logs log_keys) (logs_ds, watch_init log_keys) = ((s1, w1), Inr ())"
    "executions (ds_db s1) 1 = Some sample_execution"
    using two_logs_run [OF logs_ds_facts(1)] by blast
  obtain s2 w2 where two: "watch_messages sample_config (uuid_str 1) log_keys (two_logs log_keys @ []) (s1, watch_init log_keys) = ((s2, w2), Inr ())"
    using two_logs_run [OF one(2)] by (metis append_Nil2)
  from restart_doubles_log [OF to_uuid_str _ one(1) two] one two show ?thesis
    by (auto simp: two_logs_lines logs_ds_facts)
qed

end
