(* ===== verification/ScriptFacts.thy ===== *)
theory ScriptFacts
  imports Scripts EndToEnd Logs
begin

text \<open>
  What the verdicts of the demonstration scripts mean, and that their checks hold: the scripts
  are run here against the handlers of the API, the ACL rules of a registration and the system
  of System. The scripts are the repository's tests; these theorems say that a PASS of a test is
  never vacuous, and that no check of it fails for a reason that lies in the code.
\<close>

section \<open>Looking up a delegate in the audit log\<close>

definition get_request :: request where
  "get_request = \<lparr>req_method = ''GET'', req_body = []\<rparr>"

definition registered_as :: "string \<Rightarrow> audit_event \<Rightarrow> bool" where
  "registered_as name a = (a_event_type a = ''DELEGATE_REGISTERED'' \<and> sublist (''name='' @ name) (a_detail a))"

text \<open>An event as the API lists it.\<close>

definition event_json :: "audit_event \<Rightarrow> json" where
  "event_json a = JObj
     [(''event_type'', JStr (a_event_type a)), (''tenant_id'', JStr (a_tenant_id a)),
      (''delegate_id'', JStr (a_delegate_id a)), (''execution_id'', JStr (a_execution_id a)), (''detail'', JStr (a_detail a))]"

lemma event_json_columns:
  "body_req (event_json a) ''event_type'' = Inr (JStr (a_event_type a))"
  "body_req (event_json a) ''delegate_id'' = Inr (JStr (a_delegate_id a))"
  "body_req (event_json a) ''execution_id'' = Inr (JStr (a_execution_id a))"
  "body_req (event_json a) ''detail'' = Inr (JStr (a_detail a))"
  by (simp_all add: body_req_def event_json_def)

lemma events_listed:
  "list_audit_events get_request s =
     (s, Inr (json_response 200 [(''events'', JList (map event_json (take 200 (rev (audits (cp_db s))))))]))"
  by (simp add: list_audit_events_def require_http_method_def get_request_def event_json_def [abs_def])

lemma listed_events:
  "events_of (JObj [(''events'', JList evs)]) = Inr evs"
  by (simp add: events_of_def body_req_def)

lemma pick_delegate_events:
  "pick_delegate name (map event_json as) =
     (case find (registered_as name) as of
        None \<Rightarrow> Inl (RuntimeError ''no DELEGATE_REGISTERED audit event found'')
      | Some a \<Rightarrow> Inr (JStr (a_delegate_id a)))"
  by (induction as) (simp_all add: event_json_columns registered_as_def)

text \<open>What \<open>_get_delegate_id\<close> finds. Asked against the API, it returns the delegate of the newest
  registration event among the newest 200 events of the log whose detail contains the text
  \<open>name=\<close> and the name, and raises \<open>RuntimeError\<close> if there is none; so a registration that 200 later
  events follow is never found, and a longer name that begins with the one sought is taken
  for it.\<close>

theorem delegate_lookup:
  "get_delegate_id reply_json name (http_of (snd (list_audit_events get_request s))) =
     (case find (registered_as name) (take 200 (rev (audits (cp_db s)))) of
        None \<Rightarrow> Inl (RuntimeError ''no DELEGATE_REGISTERED audit event found'')
      | Some a \<Rightarrow> Inr (JStr (a_delegate_id a)))"
  by (simp add: get_delegate_id_def events_listed http_of_def reply_json_def json_response_def listed_events pick_delegate_events)

text \<open>Another tenant's delegate with a longer name is taken for \<open>vm-delegate-1\<close>.\<close>

lemma longer_name_taken:
  "pick_delegate ''vm-delegate-1''
     [JObj [(''event_type'', JStr ''DELEGATE_REGISTERED''), (''delegate_id'', JStr ''x''),
            (''detail'', JStr (''name='' @ ''vm-delegate-10'' @ '' serial=1''))]] = Inr (JStr ''x'')"
proof -
  have "sublist (''name='' @ ''vm-delegate-1'') ([] @ (''name='' @ ''vm-delegate-1'') @ ''0 serial=1'')"
    by (rule sublist_appendI)
  then show ?thesis by (simp add: body_req_def)
qed

section \<open>The status of an execution\<close>

text \<open>What the API answers to a look at the status, for an id put into the path as text.\<close>

definition status_reply :: "'r web \<Rightarrow> 'r inputs \<Rightarrow> json \<Rightarrow> 'r sys \<Rightarrow> http_reply" where
  "status_reply w i eid s =
     http_of (snd (serve w i (''/api/executions/'' @ json_text (repr w) eid @ ''/'') get_request (sy_cp s)))"

lemma status_path:
  assumes "resolve (''/api/executions/'' @ t @ ''/'') = Some r"
  shows "\<exists>u. t = uuid_str u \<and> r = EXECUTION_STATUS u"
proof (cases "\<exists>rest. r = ADMIN rest")
  case True
  with assms show ?thesis by (auto simp: resolve_def resolve_delegates_def split: if_splits option.splits)
next
  case False
  then have "''/api/executions/'' @ t @ ''/'' = url_of r"
    using assms resolve_iff_url by blast
  then show ?thesis by (cases r) auto
qed

lemma status_reply_body:
  assumes "just_json (status_reply w i eid s) = Inr body" and "body_req body ''status'' = Inr status"
  obtains u row where "json_text (repr w) eid = uuid_str u" "executions (sys_db s) u = Some row"
    "status = JStr (status_text (e_status row))" "body_req body ''output_path'' = Inr (JStr (e_output_path row))"
    "body_get body ''transfer_attempts'' (JInt 0) = Inr (JInt (e_transfer_attempts row))"
proof -
  let ?t = "json_text (repr w) eid"
  show thesis
  proof (cases "resolve (''/api/executions/'' @ ?t @ ''/'')")
    case None
    with assms show thesis
      by (auto simp: status_reply_def serve_def http_of_def just_json_def json_response_def body_req_def)
  next
    case (Some r)
    then obtain u where u: "?t = uuid_str u" "r = EXECUTION_STATUS u" using status_path by blast
    show thesis
    proof (cases "executions (cp_db (sy_cp s)) u")
      case None
      with assms Some u show thesis
        by (auto simp: status_reply_def serve_def execution_status_view_def require_http_method_def get_request_def
            http_of_def just_json_def json_response_def error_response_def body_req_def)
    next
      case (Some row)
      with assms u \<open>resolve _ = Some r\<close> that [of u row] show thesis
        by (auto simp: status_reply_def serve_def execution_status_view_def require_http_method_def get_request_def
            http_of_def just_json_def json_response_def body_req_def sys_db_def)
    qed
  qed
qed

section \<open>What a PASS means\<close>

lemma obind_Some: "obind m f = Some (Inr v) \<longleftrightarrow> (\<exists>x. m = Some (Inr x) \<and> f x = Some (Inr v))"
  by (auto simp: obind_def split: option.splits sum.splits)

lemma smoke_poll_seen:
  "smoke_poll n reps seen = Some (Inr (st, body)) \<Longrightarrow> (st, body) = seen \<or> (\<exists>rep \<in> set reps. smoke_look rep = Inr (st, body))"
proof (induction n reps seen rule: smoke_poll.induct)
  case (3 n rep reps seen)
  let ?look = "ebind (smoke_look rep) (\<lambda>(status, body). ebind (in_set status terminal) (\<lambda>t. Inr (t, status, body)))"
  show ?case
  proof (cases ?look)
    case (Inl e)
    with "3.prems" show ?thesis by simp
  next
    case (Inr v)
    obtain t st1 body1 where v: "v = (t, st1, body1)" by (cases v) auto
    with Inr have look: "smoke_look rep = Inr (st1, body1)" by (auto simp: ebind_eq_Inr)
    show ?thesis
    proof (cases t)
      case True
      with "3.prems" Inr v look show ?thesis by auto
    next
      case False
      with "3.prems" Inr v have "smoke_poll n reps (st1, body1) = Some (Inr (st, body))" by simp
      from "3.IH" [OF Inr v [symmetric] refl False this] look show ?thesis by auto
    qed
  qed
qed auto

lemma kill_poll_seen:
  "kill_poll n reps seen = Some (Inr (st, body)) \<Longrightarrow>
     (st, body) = seen \<or> st = JNull \<or> (\<exists>rep \<in> set reps. just_json rep = Inr body \<and> body_req body ''status'' = Inr st)"
proof (induction n reps seen rule: kill_poll.induct)
  case (3 n rep reps seen)
  let ?look = "case just_json rep of
      Inl e \<Rightarrow> if request_exception e then Inr (JNull, snd seen) else Inl e
    | Inr body \<Rightarrow> ebind (body_req body ''status'') (\<lambda>status. Inr (status, body))"
  show ?case
  proof (cases ?look)
    case (Inl e)
    with "3.prems" show ?thesis by simp
  next
    case (Inr v)
    obtain st1 body1 where v: "v = (st1, body1)" by (cases v) auto
    from Inr v have look: "st1 = JNull \<or> (just_json rep = Inr body1 \<and> body_req body1 ''status'' = Inr st1)"
      by (auto simp: ebind_eq_Inr split: sum.splits if_splits)
    show ?thesis
    proof (cases "ebind (body_get body1 ''transfer_attempts'' JNull) (\<lambda>_. in_set st1 terminal)")
      case (Inl e)
      with "3.prems" Inr v show ?thesis by simp
    next
      case t: (Inr t)
      show ?thesis
      proof (cases t)
        case True
        with "3.prems" Inr v t look show ?thesis by auto
      next
        case False
        with "3.prems" Inr v t have "kill_poll n reps (st1, body1) = Some (Inr (st, body))" by simp
        from "3.IH" [OF Inr v [symmetric] t False this] look show ?thesis by auto
      qed
    qed
  qed
qed auto

lemma smoke_pass:
  assumes "smoke_main env = Some (Inr PASS)"
  shows "\<exists>eid. \<exists>rep \<in> set (sc_status env eid). \<exists>body. just_json rep = Inr body \<and> body_req body ''status'' = Inr (JStr ''SUCCEEDED'')"
proof -
  obtain eid st body where poll: "smoke_poll 60 (sc_status env eid) (JNull, JNull) = Some (Inr (st, body))"
    and fin: "smoke_finish (st, body) = Inr PASS"
    using assms by (auto simp: smoke_main_def obind_Some split: if_splits)
  have st: "st = JStr ''SUCCEEDED''"
    using fin by (auto simp: smoke_finish_def unless_succeeded_def split: if_splits)
  with smoke_poll_seen [OF poll] obtain rep where rep: "rep \<in> set (sc_status env eid)" "smoke_look rep = Inr (st, body)" by auto
  then have "just_json rep = Inr body \<and> body_req body ''status'' = Inr st"
    by (auto simp: smoke_look_def reply_json_def just_json_def ebind_eq_Inr split: if_splits)
  with rep(1) st show ?thesis by blast
qed

lemma kill_pass:
  assumes "kill_main env = Some (Inr PASS)"
  shows "\<exists>eid. \<exists>rep \<in> set (sc_status env eid). \<exists>body attempts. just_json rep = Inr body
    \<and> body_req body ''status'' = Inr (JStr ''SUCCEEDED'') \<and> body_get body ''transfer_attempts'' (JInt 0) = Inr attempts
    \<and> below_two attempts = Inr False"
proof -
  obtain eid st body where poll: "kill_poll 120 (sc_status env eid) (JNull, JObj []) = Some (Inr (st, body))"
    and fin: "kill_finish (st, body) = Inr PASS"
    using assms by (auto simp: kill_main_def obind_Some split: if_splits)
  have st: "st = JStr ''SUCCEEDED''"
    using fin by (auto simp: kill_finish_def unless_succeeded_def split: if_splits)
  obtain attempts where "body_get body ''transfer_attempts'' (JInt 0) = Inr attempts" "below_two attempts = Inr False"
    using fin by (auto simp: kill_finish_def unless_succeeded_def ebind_eq_Inr split: if_splits)
  with kill_poll_seen [OF poll] st show ?thesis by auto
qed

lemma plain_poll_seen:
  "plain_poll n reps seen = Some (Inr st) \<Longrightarrow>
     st = seen \<or> (\<exists>rep \<in> set reps. \<exists>body. just_json rep = Inr body \<and> body_req body ''status'' = Inr st)"
proof (induction n reps seen rule: plain_poll.induct)
  case (3 n rep reps seen)
  let ?look = "ebind (just_json rep) (\<lambda>body. ebind (body_req body ''status'') (\<lambda>st. ebind (in_set st terminal) (\<lambda>t. Inr (t, st))))"
  show ?case
  proof (cases ?look)
    case (Inl e)
    with "3.prems" show ?thesis by simp
  next
    case (Inr v)
    obtain t st1 where v: "v = (t, st1)" by (cases v) auto
    with Inr have look: "\<exists>body. just_json rep = Inr body \<and> body_req body ''status'' = Inr st1" by (auto simp: ebind_eq_Inr)
    show ?thesis
    proof (cases t)
      case True
      with "3.prems" Inr v look show ?thesis by auto
    next
      case False
      with "3.prems" Inr v have "plain_poll n reps st1 = Some (Inr st)" by simp
      from "3.IH" [OF Inr v [symmetric] False this] look show ?thesis by auto
    qed
  qed
qed auto

lemma cross_tenant_pass:
  assumes "cross_tenant_main env run = Some (Inr PASS)"
  shows "\<exists>eid. \<exists>rep \<in> set (sc_status env eid). \<exists>body. just_json rep = Inr body \<and> body_req body ''status'' = Inr (JStr ''SUCCEEDED'')"
    and "\<exists>k. run (XADD k) = Inl (OtherError ''NoPermissionError'') \<and> run (XREAD k) = Inl (OtherError ''NoPermissionError'')"
proof -
  obtain eid st k where poll: "plain_poll 60 (sc_status env eid) JNull = Some (Inr st)" and st: "st = JStr ''SUCCEEDED''"
    and refused: "no_permission (run (XADD k)) = Inr True" "no_permission (run (XREAD k)) = Inr True"
    using assms by (auto simp: cross_tenant_main_def obind_Some unless_succeeded_def split: if_splits)
  from plain_poll_seen [OF poll] st
  show "\<exists>eid. \<exists>rep \<in> set (sc_status env eid). \<exists>body. just_json rep = Inr body \<and> body_req body ''status'' = Inr (JStr ''SUCCEEDED'')" by auto
  from refused show "\<exists>k. run (XADD k) = Inl (OtherError ''NoPermissionError'') \<and> run (XREAD k) = Inl (OtherError ''NoPermissionError'')"
    by (auto simp: no_permission_def split: sum.splits if_splits intro!: exI [of _ k])
qed


text \<open>The smoke test, run against a control plane on which an execution has succeeded.\<close>

definition demo_events :: http_reply where
  "demo_events = Inr (200, Inr (JObj [(''events'', JList [JObj [(''event_type'', JStr ''DELEGATE_REGISTERED''),
     (''detail'', JStr ''name=vm-delegate-1''), (''delegate_id'', JStr ''d'')]])]))"

definition demo_script :: "(string \<times> string list) list sys \<Rightarrow> kill_env" where
  "demo_script s =
     \<lparr>sc_events = [demo_events], sc_create = (\<lambda>_. Inr (200, Inr (JObj [(''execution_id'', JStr (uuid_str 9))]))),
      sc_status = (\<lambda>eid. [status_reply create_web (sample_inputs 0) eid s]),
      kl_begin = (\<lambda>_. []), kl_ps = Inr [], kl_kill = (\<lambda>_. Inr ()), kl_start = (\<lambda>_. Inr ())\<rparr>"

lemma first_looks:
  "0 < n \<Longrightarrow> get_delegate_id decode name rep = Inr d \<Longrightarrow> await_delegate decode n name (rep # reps) = Some (Inr d)"
  "0 < n \<Longrightarrow> smoke_look rep = Inr (st, body) \<Longrightarrow> in_set st terminal = Inr True \<Longrightarrow> smoke_poll n (rep # reps) seen = Some (Inr (st, body))"
  by (cases n; simp)+

lemma demo_passes:
  assumes "executions (sys_db s) 9 = Some row" and "e_status row = STATUS_SUCCEEDED" and "e_output_path row \<noteq> []"
    and "e_output_checksum row \<noteq> []"
  shows "smoke_main (demo_script s) = Some (Inr PASS)"
proof -
  have path: "resolve (''/api/executions/'' @ uuid_str 9 @ ''/'') = Some (EXECUTION_STATUS 9)"
    using resolve_url [of "EXECUTION_STATUS 9"] by simp
  obtain resp where view: "execution_status_view get_request 9 (sy_cp s) = (sy_cp s, Inr resp)" "resp_status resp = 200"
    "body_req (JObj (resp_body resp)) ''status'' = Inr (JStr ''SUCCEEDED'')"
    "\<exists>ls. body_req (JObj (resp_body resp)) ''logs'' = Inr (JList ls)"
    "output_recorded (JObj (resp_body resp)) = Inr True"
    using assms by (simp add: execution_status_view_def require_http_method_def get_request_def json_response_def body_req_def
        sys_db_def output_recorded_def)
  then have look: "smoke_look (status_reply create_web (sample_inputs 0) (JStr (uuid_str 9)) s) = Inr (JStr ''SUCCEEDED'', JObj (resp_body resp))"
    using path by (auto simp: status_reply_def serve_def http_of_def smoke_look_def reply_json_def has_length_def)
  have "get_delegate_id reply_json ''vm-delegate-1'' demo_events = Inr (JStr ''d'')"
    by (simp add: demo_events_def get_delegate_id_def reply_json_def events_of_def body_req_def)
  then have one: "await_delegate reply_json 60 ''vm-delegate-1'' (sc_events (demo_script s)) = Some (Inr (JStr ''d''))"
    using first_looks(1) [of 60] by (simp add: demo_script_def)
  have two: "smoke_poll 60 (sc_status (demo_script s) (JStr (uuid_str 9))) (JNull, JNull)
      = Some (Inr (JStr ''SUCCEEDED'', JObj (resp_body resp)))"
    using first_looks(2) [OF _ look] by (simp add: demo_script_def terminal_def)
  have three: "create_and_get_id (demo_script s) posted = Inr (JStr (uuid_str 9))" for posted
    by (simp add: create_and_get_id_def demo_script_def reply_json_def body_req_def)
  show ?thesis
    using view(5) by (simp add: smoke_main_def one obind_def three two smoke_finish_def unless_succeeded_def)
qed


section \<open>Redis as the scripts meet it\<close>

text \<open>
  What its documentation promises to a connection mapped to user \<open>u\<close>, whose rules are those of a
  delegate: a command is carried out if it is among the allowed ones and each of its keys is
  permitted, and refused with NOPERM otherwise; without a user, connections are closed and
  new ones refused.
\<close>

definition may :: "(string list \<Rightarrow> bool \<Rightarrow> string \<Rightarrow> bool) \<Rightarrow> string list \<Rightarrow> redis_op \<Rightarrow> bool" where
  "may permits rules op =
     (CHR ''+'' # command op \<in> set rules \<and> list_all (\<lambda>(wr, k). permits rules wr k) (accesses op))"

definition redis_answers ::
    "'r acl_server \<Rightarrow> (string list \<Rightarrow> bool \<Rightarrow> string \<Rightarrow> bool) \<Rightarrow> (string \<Rightarrow> 'r \<Rightarrow> redis_op \<Rightarrow> unit result) \<Rightarrow> bool" where
  "redis_answers srv permits answer \<longleftrightarrow>
     (\<forall>u r op. (acl_table srv r u = None \<longrightarrow> answer u r op = Inl ConnectionError)
        \<and> (\<forall>pw d. acl_table srv r u = Some (acl_rules_for pw d) \<longrightarrow>
             answer u r op = (if may permits (acl_rules_for pw d) op then Inr () else Inl (OtherError ''NoPermissionError''))))"

lemma refused_answers [simp]:
  "denied (Inl (OtherError ''NoPermissionError'')) = Inr True" "denied (Inl ConnectionError) = Inr True" "granted (Inr v) = Inr True"
  by (simp_all add: denied_def refusal_def granted_def)

lemma run_checks_pass: "list_all (\<lambda>(label, ok). ok = Inr True) cs \<Longrightarrow> run_checks cs failures = Inr failures"
  by (induction cs) (auto simp: check_def)

lemma dg_prefix_id: "dg_prefix h = delegate_prefix (dg_id h)"
  by (simp add: dg_prefix_def delegate_prefix_def)

lemma command_rule: "CHR ''+'' # c \<in> set (acl_rules_for pw d) \<longleftrightarrow> c \<in> set DELEGATE_COMMANDS"
  by (auto simp: acl_rules_for_def Let_def)

lemma script_commands:
  "{''xadd'', ''xread'', ''get'', ''lrange'', ''llen'', ''lpush'', ''brpop'', ''smembers'', ''ping''} \<subseteq> set DELEGATE_COMMANDS"
  "{''keys'', ''flushall'', ''acl|list'', ''config|get''} \<inter> set DELEGATE_COMMANDS = {}"
  by (simp_all add: DELEGATE_COMMANDS_def)

text \<open>Keys that are neither below the delegate's prefix nor, for writing, the global stream.\<close>

lemma may_not:
  assumes "glob_law glob" and "key_law permits glob" and "(wr, k) \<in> set (accesses op)"
    and "\<not> prefix (delegate_prefix (uuid_str u)) k" and "\<not> (wr \<and> k = GLOBAL_EXECUTION_EVENTS_STREAM)"
  shows "\<not> may permits (acl_rules_for pw (uuid_str u)) op"
  using rules_confine [OF assms(1,2), of pw u wr k] assms(3-5) by (auto simp: may_def list_all_iff)

lemma foreign_prefix:
  assumes "a \<noteq> b"
  shows "\<not> prefix (delegate_prefix (uuid_str a)) (delegate_prefix (uuid_str b) @ x)"
proof
  assume "prefix (delegate_prefix (uuid_str a)) (delegate_prefix (uuid_str b) @ x)"
  then obtain y where "delegate_prefix (uuid_str b) @ x = delegate_prefix (uuid_str a) @ y" by (auto simp: prefix_def)
  from delegate_prefix_inject [OF uuid_str_no_colon uuid_str_no_colon this] assms show False
    using uuid_str_inject by metis
qed

lemma foreign_key_not_global: "delegate_prefix d @ x \<noteq> GLOBAL_EXECUTION_EVENTS_STREAM"
  by (simp add: delegate_prefix_def GLOBAL_EXECUTION_EVENTS_STREAM_def)

lemma may_own:
  assumes "glob_law glob" and "grant_law permits glob" and "command op \<in> set DELEGATE_COMMANDS"
    and "\<forall>(wr, k) \<in> set (accesses op). prefix (delegate_prefix (uuid_str u)) k \<or> (wr \<and> k = GLOBAL_EXECUTION_EVENTS_STREAM)"
  shows "may permits (acl_rules_for pw (uuid_str u)) op"
proof -
  have "permits (acl_rules_for pw (uuid_str u)) wr k" if "(wr, k) \<in> set (accesses op)" for wr k
    using own_keys_permitted [OF assms(1,2), where u = u] assms(4) that by fastforce
  with assms(3) show ?thesis by (auto simp: may_def command_rule list_all_iff)
qed

lemma checks_met:
  assumes "glob_law glob" and "key_law permits glob" and "grant_law permits glob"
    and "acl_laws srv" and "redis_answers srv permits answer"
    and "acl_table srv r (uuid_str a) = Some (acl_rules_for pw (uuid_str a))" and "a \<noteq> b"
    and "dg_id ha = uuid_str a" and "dg_id hb = uuid_str b"
  shows "list_all (\<lambda>(label, ok). ok = Inr True) (scope_checks (dg_prefix ha) (dg_prefix hb) (answer (uuid_str a) r)
      @ global_checks (answer (uuid_str a) r) @ theft_checks hb (answer (uuid_str a) r))
    \<and> (\<forall>op \<in> {LRANGE (dg_queue_key ha), BRPOP (dg_queue_key ha)}. answer (uuid_str a) r op = Inr ())
    \<and> (\<forall>n r' op. revoke_delegate_acl srv a r = Inr (n, r') \<longrightarrow> n = 1 \<and> denied (answer (uuid_str a) r' op) = Inr True)"
proof -
  let ?rules = "acl_rules_for pw (uuid_str a)" and ?run = "answer (uuid_str a) r"
  have run: "?run op = (if may permits ?rules op then Inr () else Inl (OtherError ''NoPermissionError''))" for op
    using assms(5,6) unfolding redis_answers_def by blast
  note no = may_not [OF assms(1,2), of _ _ _ a pw] and yes = may_own [OF assms(1,3), of _ a pw]
  have keys: "dg_prefix ha = delegate_prefix (uuid_str a)" "dg_prefix hb = delegate_prefix (uuid_str b)"
    "dg_queue_key h = dg_prefix h @ dg_queue h" "dg_binding_key h = dg_prefix h @ ''_kombu.binding.'' @ dg_queue h" for h
    using assms(8,9) by (simp_all add: dg_prefix_id dg_queue_key_def dg_binding_key_def)
  have foreign: "\<not> may permits ?rules op" if "(wr, delegate_prefix (uuid_str b) @ x) \<in> set (accesses op)" for op wr x
    by (rule no [OF that foreign_prefix [OF assms(7)]]) (simp add: foreign_key_not_global)
  have other: "\<not> may permits ?rules op" if "(wr, k) \<in> set (accesses op)" "k \<in> {''execution:legacy:events'', ''anything''}" for op wr k
    by (rule no [OF that(1)]) (use that(2) in \<open>auto simp: delegate_prefix_def GLOBAL_EXECUTION_EVENTS_STREAM_def\<close>)
  have barred: "\<not> may permits ?rules op" if "command op \<notin> set DELEGATE_COMMANDS" for op
    using that by (simp add: may_def command_rule)
  have own: "may permits ?rules op" if "op \<in> {XADD (delegate_prefix (uuid_str a) @ x), LRANGE (delegate_prefix (uuid_str a) @ x),
      BRPOP (delegate_prefix (uuid_str a) @ x)}" for op x
    by (rule yes) (use that script_commands(1) in auto)
  have global: "may permits ?rules (XADD ''global:execution_events'')" "\<not> may permits ?rules (XREAD ''global:execution_events'')"
  proof -
    show "may permits ?rules (XADD ''global:execution_events'')"
      by (rule yes) (use script_commands(1) in \<open>simp_all add: GLOBAL_EXECUTION_EVENTS_STREAM_def\<close>)
    show "\<not> may permits ?rules (XREAD ''global:execution_events'')"
      by (rule no [of False "''global:execution_events''"]) (simp_all add: delegate_prefix_def)
  qed
  have scope: "list_all (\<lambda>(label, ok). ok = Inr True) (scope_checks (dg_prefix ha) (dg_prefix hb) ?run)"
    using own [of "XADD (delegate_prefix (uuid_str a) @ ''execution:x:events'')" "''execution:x:events''"]
      foreign [of True "''execution:x:events''" "XADD (delegate_prefix (uuid_str b) @ ''execution:x:events'')"]
      foreign [of False "''execution:x:events''" "XREAD (delegate_prefix (uuid_str b) @ ''execution:x:events'')"]
      other [of True "''execution:legacy:events''" "XADD ''execution:legacy:events''"] other [of False "''anything''" "GET ''anything''"]
      barred [of "KEYS ''*''"] barred [of FLUSHALL] barred [of ACL_LIST] barred [of "CONFIG_GET ''*''"] script_commands(2)
    by (simp add: scope_checks_def run keys)
  have global_ok: "list_all (\<lambda>(label, ok). ok = Inr True) (global_checks ?run)"
    using global by (simp add: global_checks_def run)
  have theft: "list_all (\<lambda>(label, ok). ok = Inr True) (theft_checks hb ?run)"
    using foreign [of False "dg_queue hb" "LRANGE (delegate_prefix (uuid_str b) @ dg_queue hb)"]
      foreign [of True "dg_queue hb" "BRPOP (delegate_prefix (uuid_str b) @ dg_queue hb)"]
      foreign [of True "dg_queue hb" "LPUSH (delegate_prefix (uuid_str b) @ dg_queue hb)"]
      foreign [of False "''_kombu.binding.'' @ dg_queue hb" "SMEMBERS (delegate_prefix (uuid_str b) @ ''_kombu.binding.'' @ dg_queue hb)"]
      foreign [of False "dg_queue hb" "LLEN (delegate_prefix (uuid_str b) @ dg_queue hb)"]
    by (simp add: theft_checks_def run keys)
  have revoked: "n = 1 \<and> denied (answer (uuid_str a) r' op) = Inr True" if gone: "revoke_delegate_acl srv a r = Inr (n, r')" for n r' op
  proof -
    obtain r1 where r1: "acl_deluser srv (uuid_str a) r = Inr (n, r1)" "r' = save srv r1"
      using gone by (auto simp: revoke_delegate_acl_def ebind_eq_Inr)
    have "acl_table srv r' (uuid_str a) = None" using acl_lawsD(2) [OF assms(4) r1(1)] assms(4) r1(2) by simp
    then have "answer (uuid_str a) r' op = Inl ConnectionError" using assms(5) unfolding redis_answers_def by blast
    with acl_lawsD(3) [OF assms(4) r1(1)] assms(6) show ?thesis by simp
  qed
  have "\<forall>op \<in> {LRANGE (dg_queue_key ha), BRPOP (dg_queue_key ha)}. ?run op = Inr ()"
    using own [of _ "dg_queue ha"] by (auto simp: run keys)
  with scope global_ok theft revoked show ?thesis by simp
qed


text \<open>With these, \<open>rogue_task_execution_test.py\<close> ends with PASS wherever each delegate's queue holds
  its own task, undisturbed, and the revocation is reported.\<close>

theorem rogue_test_passes:
  assumes "glob_law glob" and "key_law permits glob" and "grant_law permits glob"
    and "acl_laws srv" and "redis_answers srv permits answer"
    and "acl_table srv r (uuid_str a) = Some (acl_rules_for pw (uuid_str a))" and "a \<noteq> b"
    and "dg_id hr = uuid_str a" and "dg_id hv = uuid_str b"
    and "rogue_create t hv = Inr x" and "rogue_create t hr = Inr y"
    and "rg_queued t = Inr [q]" and "sublist x q" and "rg_still t = rg_queued t" and "rg_own t = Inr [q']" and "sublist y q'"
    and "rg_do t = answer (uuid_str a) r" and "removed_reported (rg_revoke t) = Inr True"
    and "revoke_delegate_acl srv a r = Inr (n, r')" and "rg_after t = answer (uuid_str a) r'"
  shows "rogue_main t hv hr = Inr PASS"
proof -
  note met = checks_met [OF assms(1-9)]
  have theft: "list_all (\<lambda>(label, ok). ok = Inr True) (theft_checks hv (rg_do t))"
    using met assms(17) by simp
  have own: "rg_do t (LRANGE (dg_queue_key hr)) = Inr ()" "rg_do t (BRPOP (dg_queue_key hr)) = Inr ()"
    "denied (rg_after t (LRANGE (dg_queue_key hr))) = Inr True"
    using met assms(17,19,20) by auto
  have first: "run_checks ((''victim's own cert can see its queued task'', Inr (one_task x [q])) # theft_checks hv (rg_do t)
      @ [(''victim's task is untouched after the attack attempts'', emap (\<lambda>v. v = [q]) (rg_still t))]) [] = Inr []"
    by (rule run_checks_pass) (use theft assms(12-14) in \<open>simp add: one_task_def\<close>)
  have "run_checks (own_queue_checks t hr y) [] = Inr []"
    by (rule run_checks_pass) (use own assms(15,16,18) in \<open>simp add: own_queue_checks_def one_task_def\<close>)
  with first show ?thesis by (simp add: rogue_main_def assms(10-12) verdict_of_def)
qed

definition list_answer :: "string \<Rightarrow> (string \<times> string list) list \<Rightarrow> redis_op \<Rightarrow> unit result" where
  "list_answer u r op =
     (case map_of r u of
        None \<Rightarrow> Inl ConnectionError
      | Some rules \<Rightarrow> if may rule_permits rules op then Inr () else Inl (OtherError ''NoPermissionError''))"

lemma list_answers: "redis_answers list_acl_server rule_permits list_answer"
  by (auto simp: redis_answers_def list_answer_def list_acl_server_def)

definition demo_handle :: "uuid \<Rightarrow> string \<Rightarrow> delegate_handle" where
  "demo_handle u queue = \<lparr>dg_tenant_id = ''acme'', dg_name = ''d'', dg_queue = queue, dg_id = uuid_str u, dg_files = []\<rparr>"


section \<open>Revocation as the scripts see it\<close>

definition post_to :: request where
  "post_to = \<lparr>req_method = ''POST'', req_body = []\<rparr>"

text \<open>The answers of an \<open>acl_test\<close> after A's revocation, taken from the handlers: \<open>s\<close> is the control
  plane when the revocation is asked for, \<open>s'\<close> after it.\<close>

definition answers_after ::
    "'r web \<Rightarrow> (json \<Rightarrow> bytes) \<Rightarrow> (string \<Rightarrow> 'r \<Rightarrow> redis_op \<Rightarrow> unit result) \<Rightarrow> uuid \<Rightarrow> uuid \<Rightarrow> json result \<Rightarrow> 'r cp \<Rightarrow> acl_test \<Rightarrow> bool" where
  "answers_after w encode answer a b gateway s t \<longleftrightarrow>
     (let s' = fst (revoke_delegate w gateway post_to a s) in
      at_revoke t = http_of (snd (revoke_delegate w gateway post_to a s))
      \<and> at_live t = answer (uuid_str a) (cp_acl s') \<and> at_new t = answer (uuid_str a) (cp_acl s')
      \<and> at_audit_after t = http_of (snd (list_audit_events get_request s'))
      \<and> (\<forall>j. \<exists>x broker. at_create_after t j = http_of (snd (create_execution w x broker (post_json encode j) s')))
      \<and> at_b t = answer (uuid_str b) (cp_acl s'))"

lemma audit_has_event:
  assumes "a \<in> set (take 200 (rev (audits (cp_db s))))" and "a_event_type a = ty" and "col a = v"
    and "\<And>a. body_req (event_json a) key = Inr (JStr (col a))"
  shows "audit_has ty key (JStr v) (http_of (snd (list_audit_events get_request s))) = Inr True"
proof -
  have "has_event ty key (JStr v) (map event_json as) = Inr True" if "a \<in> set as" for as
    using that assms(2,3) by (induction as) (auto simp: event_json_columns(1) assms(4))
  from this [OF assms(1)] show ?thesis
    by (simp add: audit_has_def events_listed http_of_def just_json_def json_response_def listed_events)
qed

lemma revoke_outcome:
  assumes "find_delegate (cp_db s) a = Some row" and "revoke_delegate_acl (web_acl w) a (cp_acl s) = Inr (1, acl)"
  shows "\<exists>s' resp ev. revoke_delegate w gateway post_to a s = (s', Inr resp) \<and> resp_status resp = 200
    \<and> body_get (JObj (resp_body resp)) ''redis_acl_removed'' JNull = Inr (JBool True)
    \<and> cp_acl s' = acl \<and> find_delegate (cp_db s') a = Some (row\<lparr>d_status := STATUS_REVOKED\<rparr>)
    \<and> a_event_type ev = ''REDIS_ACL_REVOKED'' \<and> a_delegate_id ev = uuid_str a \<and> ev \<in> set (take 2 (rev (audits (cp_db s'))))"
proof (cases gateway)
  case (Inl e)
  with assms show ?thesis
    by (simp add: revoke_delegate_def require_http_method_def post_to_def Let_def json_response_def event_def)
      (metis audit_event.select_convs(1,3))
next
  case (Inr j)
  with assms show ?thesis
    by (simp add: revoke_delegate_def require_http_method_def post_to_def Let_def json_response_def event_def)
      (metis audit_event.select_convs(1,3))
qed

text \<open>The last section of \<open>redis_acl_test.py\<close>. Where Redis answers, A is a delegate with its ACL user
  and B another one, and Redis closes A's blocked connection within the 8 seconds the script
  allows, every check after the revocation is met: the API reports the user removed, A's
  connections, old and new, are refused, the revocation is among the audit events listed, a
  new execution for A is answered 403, and B can still write.\<close>

theorem revocation_checks_pass:
  assumes "glob_law glob" and "grant_law permits glob" and "acl_laws (web_acl w)" and "redis_answers (web_acl w) permits answer"
    and "find_delegate (cp_db s) a = Some row" and "a \<noteq> b"
    and "acl_table (web_acl w) (cp_acl s) (uuid_str a) = Some (acl_rules_for pwa (uuid_str a))"
    and "acl_table (web_acl w) (cp_acl s) (uuid_str b) = Some (acl_rules_for pwb (uuid_str b))"
    and "revoke_delegate_acl (web_acl w) a (cp_acl s) = Inr (n, acl)"
    and "dg_id ha = uuid_str a" and "dg_tenant_id ha = d_tenant_id row" and "d_tenant_id row \<noteq> []" and "dg_id hb = uuid_str b"
    and "carried w encode (execution_body (dg_tenant_id ha) (JStr (dg_id ha)) ''sample_workspace'')" and "answers_after w encode answer a b gateway s t"
    and "fst (at_blocked t) = ''ConnectionError''" and "snd (at_blocked t) < 8"
  shows "run_checks (revocation_checks t ha hb) failures = Inr failures"
proof -
  obtain r1 where r1: "acl_deluser (web_acl w) (uuid_str a) (cp_acl s) = Inr (n, r1)" "acl = save (web_acl w) r1"
    using assms(9) by (auto simp: revoke_delegate_acl_def ebind_eq_Inr)
  have n: "n = 1" using acl_lawsD(3) [OF assms(3) r1(1)] assms(7) by simp
  have table: "acl_table (web_acl w) acl = (acl_table (web_acl w) (cp_acl s))(uuid_str a := None)"
    using acl_lawsD(2) [OF assms(3) r1(1)] assms(3) by (simp add: r1(2))
  obtain s' resp ev where rev: "revoke_delegate w gateway post_to a s = (s', Inr resp)" "resp_status resp = 200"
    "body_get (JObj (resp_body resp)) ''redis_acl_removed'' JNull = Inr (JBool True)" "cp_acl s' = acl"
    "find_delegate (cp_db s') a = Some (row\<lparr>d_status := STATUS_REVOKED\<rparr>)"
    and ev: "a_event_type ev = ''REDIS_ACL_REVOKED''" "a_delegate_id ev = uuid_str a" "ev \<in> set (take 2 (rev (audits (cp_db s'))))"
    using revoke_outcome [OF assms(5) assms(9) [unfolded n]] by blast
  have t: "at_revoke t = http_of (Inr resp)" "at_live t = answer (uuid_str a) acl" "at_new t = answer (uuid_str a) acl"
    "at_audit_after t = http_of (snd (list_audit_events get_request s'))" "at_b t = answer (uuid_str b) acl"
    "\<exists>x broker. at_create_after t j = http_of (snd (create_execution w x broker (post_json encode j) s'))" for j
    using assms(15) rev(1,4) by (simp_all add: answers_after_def)
  have gone: "answer (uuid_str a) acl op = Inl ConnectionError" for op
    using assms(4) table unfolding redis_answers_def by simp
  have "uuid_str b \<noteq> uuid_str a" using assms(6) uuid_str_inject by metis
  then have "acl_table (web_acl w) acl (uuid_str b) = Some (acl_rules_for pwb (uuid_str b))" using table assms(8) by simp
  moreover have "may permits (acl_rules_for pwb (uuid_str b)) (XADD (delegate_prefix (uuid_str b) @ ''ok''))"
    by (rule may_own [OF assms(1,2)]) (use script_commands(1) in auto)
  ultimately have b: "answer (uuid_str b) acl (XADD (delegate_prefix (uuid_str b) @ ''ok'')) = Inr ()"
    using assms(4) unfolding redis_answers_def by simp
  have "set (take 2 (rev (audits (cp_db s')))) \<subseteq> set (take 200 (rev (audits (cp_db s'))))"
    by (rule set_take_subset_set_take) simp
  then have "ev \<in> set (take 200 (rev (audits (cp_db s'))))" using ev(3) by blast
  from audit_has_event [OF this ev(1), of a_delegate_id "uuid_str a" "''delegate_id''", OF _ event_json_columns(2)] ev(2)
  have audit: "audit_has ''REDIS_ACL_REVOKED'' ''delegate_id'' (JStr (dg_id ha)) (at_audit_after t) = Inr True"
    by (simp add: t(4) assms(10))
  let ?j = "execution_body (dg_tenant_id ha) (JStr (dg_id ha)) ''sample_workspace''"
  obtain x broker where after: "at_create_after t ?j = http_of (snd (create_execution w x broker (post_json encode ?j) s'))"
    using t(6) by blast
  have "json_body w (post_json encode ?j) = Inr ?j" by (rule json_body_carried [OF assms(14)])
  then have "\<exists>resp2. snd (create_execution w x broker (post_json encode ?j) s') = Inr resp2 \<and> resp_status resp2 = 403"
    using rev(5) assms(12) uuid_str_hd_last(1) [of a]
    by (auto simp: create_execution_def require_http_method_def post_json_def execution_body_def body_req_def assms(10,11)
        create_checked_def error_response_def json_response_def)
  then obtain resp2 where resp2: "snd (create_execution w x broker (post_json encode ?j) s') = Inr resp2" "resp_status resp2 = 403" by blast
  have create: "emap (\<lambda>r. fst r = 403) (at_create_after t ?j) = Inr True"
    by (simp add: after resp2 http_of_def)
  have removed: "removed_reported (at_revoke t) = Inr True"
    using rev(3) by (simp add: t(1) removed_reported_def http_of_def just_json_def)
  show ?thesis
    by (rule run_checks_pass)
      (use removed audit create gone b assms(16,17) in \<open>simp add: revocation_checks_def t(2,3,5) dg_prefix_id assms(13)\<close>)
qed

text \<open>Two delegates on a server that keeps its users in a list; the gateway is down.\<close>

definition two_cp :: "(string \<times> string list) list cp" where
  "two_cp = sample_full\<lparr>cp_acl := [(uuid_str 5, acl_rules_for ''p'' (uuid_str 5)), (uuid_str 6, acl_rules_for ''q'' (uuid_str 6))]\<rparr>"

abbreviation last_body :: json where
  "last_body \<equiv> execution_body ''acme'' (JStr (uuid_str 5)) ''sample_workspace''"

abbreviation last_web :: "(string \<times> string list) list web" where
  "last_web \<equiv> sample_web last_body"

definition two_test :: acl_test where
  "two_test =
     (let s' = fst (revoke_delegate last_web (Inl ConnectionError) post_to 5 two_cp) in
      \<lparr>at_no_cert = Inl ConnectionError, at_rogue = Inl ConnectionError, at_do = list_answer (uuid_str 5) (cp_acl two_cp),
       at_auth = (\<lambda>_. Inl (OtherError ''AuthenticationError'')), at_create = (\<lambda>_. Inl ConnectionError), at_publish = (\<lambda>_. Inr ()),
       at_audits = [], at_forged = (\<lambda>_. Inr []),
       at_revoke = http_of (snd (revoke_delegate last_web (Inl ConnectionError) post_to 5 two_cp)),
       at_blocked = (''ConnectionError'', 1), at_live = list_answer (uuid_str 5) (cp_acl s'), at_new = list_answer (uuid_str 5) (cp_acl s'),
       at_audit_after = http_of (snd (list_audit_events get_request s')),
       at_create_after = (\<lambda>j. http_of (snd (create_execution last_web 9 (Inr ()) (post_json (\<lambda>_. [1]) j) s'))),
       at_b = list_answer (uuid_str 6) (cp_acl s')\<rparr>)"

lemma revocation_checks_pass_witness:
  "run_checks (revocation_checks two_test (demo_handle 5 ''q'') (demo_handle 6 ''q'')) [] = Inr []"
proof -
  have acl: "web_acl last_web = list_acl_server" by (simp add: sample_web_def)
  have cp: "cp_acl two_cp = [(uuid_str 5, acl_rules_for ''p'' (uuid_str 5)), (uuid_str 6, acl_rules_for ''q'' (uuid_str 6))]"
    "find_delegate (cp_db two_cp) 5 = Some sample_row"
    using sample_full_facts(1) by (simp_all add: two_cp_def)
  have differ: "uuid_str 6 \<noteq> uuid_str 5" using uuid_str_inject [of 6 5] by simp
  obtain n acl' where del: "revoke_delegate_acl (web_acl last_web) 5 (cp_acl two_cp) = Inr (n, acl')"
    unfolding acl by (simp add: revoke_delegate_acl_def list_acl_server_def)
  have tables: "acl_table (web_acl last_web) (cp_acl two_cp) (uuid_str 5) = Some (acl_rules_for ''p'' (uuid_str 5))"
    "acl_table (web_acl last_web) (cp_acl two_cp) (uuid_str 6) = Some (acl_rules_for ''q'' (uuid_str 6))"
    using differ by (simp_all add: acl cp(1)) (simp_all add: list_acl_server_def)
  have handles: "dg_id (demo_handle 5 ''q'') = uuid_str 5" "dg_tenant_id (demo_handle 5 ''q'') = d_tenant_id sample_row"
    "d_tenant_id sample_row \<noteq> []" "dg_id (demo_handle 6 ''q'') = uuid_str 6"
    by (simp_all add: demo_handle_def)
  have carried: "carried last_web (\<lambda>_. [1]) (execution_body (dg_tenant_id (demo_handle 5 ''q'')) (JStr (dg_id (demo_handle 5 ''q''))) ''sample_workspace'')"
    by (simp add: carried_def demo_handle_def sample_web_def)
  have answers: "answers_after last_web (\<lambda>_. [1]) list_answer 5 6 (Inl ConnectionError) two_cp two_test"
    unfolding answers_after_def two_test_def Let_def by (intro conjI allI exI) simp_all
  have blocked: "fst (at_blocked two_test) = ''ConnectionError''" "snd (at_blocked two_test) < 8"
    by (simp_all add: two_test_def Let_def)
  have laws: "acl_laws (web_acl last_web)" "redis_answers (web_acl last_web) rule_permits list_answer" "(5 :: uuid) \<noteq> 6"
    by (simp_all add: acl list_acl_server_laws list_answers)
  show ?thesis
    by (rule revocation_checks_pass [OF star_glob_law rule_permits_grant laws(1,2) cp(2) laws(3) tables del handles carried answers blocked])
qed

section \<open>The large workspace\<close>

text \<open>Every file has exactly the bytes it is meant to have, whatever the random megabyte was.\<close>

lemma write_sizes_sum: "0 < c \<Longrightarrow> sum_list (write_sizes c n) = n"
  by (induction c n rule: write_sizes.induct) (simp add: write_sizes.simps)

lemma write_sizes_le: "k \<in> set (write_sizes c n) \<Longrightarrow> k \<le> c"
proof (induction c n rule: write_sizes.induct)
  case (1 c n)
  then show ?case by (subst (asm) write_sizes.simps) (auto split: if_splits)
qed

lemma large_file_length:
  assumes "chunk \<noteq> []"
  shows "length (large_file chunk n) = n"
proof -
  have "map length (map (\<lambda>k. take k chunk) (write_sizes (length chunk) n)) = write_sizes (length chunk) n"
    using write_sizes_le by (auto intro!: map_idI simp: comp_def)
  then show ?thesis using assms by (simp add: large_file_def length_concat write_sizes_sum)
qed

theorem large_workspace_sizes:
  assumes "\<forall>i. length (random i) = MEGABYTE"
  shows "length (make_large_workspace random mb dest) = 10
    \<and> (\<forall>(p, content) \<in> set (make_large_workspace random mb dest). length content = mb * MEGABYTE div 10)"
proof -
  have "random i \<noteq> []" for i using assms by (auto simp: MEGABYTE_def dest: spec [of _ i])
  then have "length (large_file (random i) n) = n" for i n using large_file_length by blast
  then show ?thesis by (auto simp: make_large_workspace_def Let_def MEGABYTE_def mult.assoc)
qed

section \<open>A forged announcement\<close>

text \<open>A watcher adds entries to its own events stream only.\<close>

lemma data_request_sent:
  "set (ds_sent (fst (handle_data_request h fx tid eid ekey f s))) \<subseteq> set (ds_sent s) \<union> {e. fst e = ekey}"
  by (auto simp: handle_data_request_def Let_def split: option.splits sum.splits prod.splits)

lemma handlers_send_nothing:
  "ds_sent (fst (handle_log eid f n s)) = ds_sent s" "ds_sent (fst (handle_status eid f s)) = ds_sent s"
  "ds_sent (fst (handle_output_message media eid f st s)) = ds_sent s"
proof -
  show "ds_sent (fst (handle_log eid f n s)) = ds_sent s" by (simp add: handle_log_def split: sum.splits)
  show "ds_sent (fst (handle_status eid f s)) = ds_sent s" by (simp add: handle_status_def Let_def split: option.splits sum.splits)
  have "ds_sent (fst (finish_output media eid x s)) = ds_sent s" for x
    by (simp add: finish_output_def Let_def split: sum.splits)
  then show "ds_sent (fst (handle_output_message media eid f st s)) = ds_sent s"
    by (auto simp: handle_output_message_def Let_def split: option.splits prod.splits sum.splits) (metis fst_conv)+
qed

lemma watch_message_sent:
  assumes "watch_message c eid keys k m (s, w) = ((s1, w1), r)"
  shows "set (ds_sent s1) \<subseteq> set (ds_sent s) \<union> {e. fst e = events_key keys}"
proof -
  obtain i f t where m: "m = (i, f, t)" by (cases m) auto
  have "set (ds_sent (fst (fst (watch_message c eid keys k m (s, w))))) \<subseteq> set (ds_sent s) \<union> {e. fst e = events_key keys}"
    unfolding m watch_message_def Let_def
    using data_request_sent [of "cfg_host c" "cfg_fixtures c" t eid "events_key keys" f s] handlers_send_nothing [where s = s]
    by (auto split: prod.splits sum.splits) (metis fst_conv)+
  with assms show ?thesis by simp
qed

lemma watch_messages_sent:
  assumes "watch_messages c eid keys ms (s, w) = ((s1, w1), r)"
  shows "set (ds_sent s1) \<subseteq> set (ds_sent s) \<union> {e. fst e = events_key keys}"
  by (rule watch_messages_invariant [where P = "\<lambda>t. set (ds_sent t) \<subseteq> set (ds_sent s) \<union> {e. fst e = events_key keys}", OF _ _ assms])
    (use watch_message_sent in blast)+

text \<open>A forged announcement does not redirect the dispatcher. Delegate A announces an execution of
  another delegate B with stream names below its own prefix and forges B's request on its own
  stream, as \<open>redis_acl_test.py\<close> does. The dispatcher audits the mismatch and starts a watcher on
  B's streams; whatever messages that watcher handles then, nothing but A's own request is
  ever on A's stream, and both checks of the script are met.\<close>

theorem forged_checks_pass:
  assumes "dg_id ha = uuid_str a" and "dg_id hb = uuid_str b" and "a \<noteq> b"
    and "just_json (at_create t (execution_body (dg_tenant_id hb) (JStr (dg_id hb)) ''sample_workspace'')) = Inr body"
    and "body_req body ''execution_id'' = Inr (JStr (uuid_str x))"
    and "executions (ds_db ds) x = Some ex" and "e_delegate_id ex = Some b" and "mn_watched mn (uuid_str x) = None"
    and "announcement text_of (mid, forged_announcement (dg_prefix ha) (uuid_str x), alive) (ds, mn) = ((ds1, mn1), r)"
    and "watch_messages c (uuid_str x) (stream_keys (uuid_str x) (uuid_str b)) ms (ds1, w0) = ((ds2, w1), r2)"
    and "\<forall>e \<in> set (ds_sent ds). fst e \<noteq> events_key (stream_keys (uuid_str x) (uuid_str a))"
    and "\<forall>e. at_publish t e = Inr ()"
    and "at_audits t = http_of (snd (list_audit_events get_request p)) # reps" and "cp_db p = ds_db ds1"
    and "\<forall>k. at_forged t k = Inr (forged_request (dg_tenant_id hb) (dg_id hb) (uuid_str x) # map snd (filter (\<lambda>e. fst e = k) (ds_sent ds2)))"
  shows "forged_checks t ha hb failures = Some (Inr failures)
    \<and> mn_threads mn1 = mn_threads mn @ [(uuid_str x, stream_keys (uuid_str x) (uuid_str b), 600)]"
proof -
  let ?f = "forged_announcement (dg_prefix ha) (uuid_str x)" and ?keys = "stream_keys (uuid_str x) (uuid_str b)"
  let ?key = "events_key (stream_keys (uuid_str x) (uuid_str a))"
  have apart: "?key \<noteq> events_key ?keys"
    using foreign_prefix [OF assms(3), of "''execution:'' @ uuid_str x @ '':events''"]
    by (auto simp: stream_keys_def Let_def)
  have key: "dg_prefix ha @ ''execution:'' @ uuid_str x @ '':events'' = ?key"
    by (simp add: dg_prefix_id assms(1) stream_keys_def Let_def)
  have fields: "?f ''type'' = Some ''EXECUTION_STARTED''" "?f ''execution_id'' = Some (uuid_str x)" "?f ''events_stream'' = Some ?key"
    by (simp_all add: forged_announcement_def key [simplified])
  have "\<not> announced_keys_match ?f ?keys" using fields(3) apart by (simp add: announced_keys_match_def)
  then have run: "ds1 = ds_audit (mismatch_event text_of (uuid_str x) b ex ?f) ds" "mn1 = spawn (uuid_str x) ?keys (mn\<lparr>mn_last_id := mid\<rparr>)"
    using assms(6-9) fields uuid_str_hd_last(1) [of x] by (auto simp: announcement_def field_or_def Let_def)
  have "mismatch_event text_of (uuid_str x) b ex ?f \<in> set (take 200 (rev (audits (cp_db p))))"
    by (simp add: assms(14) run(1))
  from audit_has_event [OF this _ , of "''ANNOUNCEMENT_STREAM_MISMATCH''" a_execution_id "uuid_str x" "''execution_id''", OF _ _ event_json_columns(3)]
  have audit: "audit_has ''ANNOUNCEMENT_STREAM_MISMATCH'' ''execution_id'' (JStr (uuid_str x)) (http_of (snd (list_audit_events get_request p))) = Inr True"
    by (simp add: mismatch_event_def event_def)
  have "await_mismatch (Suc n) (JStr (uuid_str x)) (at_audits t) = Some (Inr True)" for n
    by (simp add: assms(13) audit)
  from this [of 14] have mismatch: "await_mismatch 15 (JStr (uuid_str x)) (at_audits t) = Some (Inr True)" by simp
  have "\<forall>e \<in> set (ds_sent ds2). fst e \<noteq> ?key"
    using watch_messages_sent [OF assms(10)] assms(11) apart by (auto simp: run(1))
  then have "filter (\<lambda>e. fst e = ?key) (ds_sent ds2) = []" by (simp add: filter_empty_conv)
  then have forged: "at_forged t ?key = Inr [forged_request (dg_tenant_id hb) (dg_id hb) (uuid_str x)]" using assms(15) by simp
  have replies: "data_replies [forged_request tn d e] = []" for tn d e
    by (simp add: data_replies_def forged_request_def)
  have "forged_checks t ha hb failures = Some (Inr failures)"
    by (simp add: forged_checks_def obind_def assms(4,5,12) as_text_def mismatch forged [folded key, simplified] replies check_def Let_def)
  then show ?thesis by (simp add: run(2) spawn_def)
qed

text \<open>Delegate 5 announces the execution 1 of delegate 2.\<close>

definition forged_test :: "ds \<Rightarrow> acl_test" where
  "forged_test ds1 = two_test
     \<lparr>at_create := (\<lambda>_. Inr (200, Inr (JObj [(''execution_id'', JStr (uuid_str 1))]))),
      at_audits := [http_of (snd (list_audit_events get_request (two_cp\<lparr>cp_db := ds_db ds1\<rparr>)))],
      at_forged := (\<lambda>k. Inr (forged_request ''acme'' (uuid_str 2) (uuid_str 1) # map snd (filter (\<lambda>e. fst e = k) (ds_sent ds1))))\<rparr>"

lemma forged_checks_pass_witness:
  "\<exists>ds1. forged_checks (forged_test ds1) (demo_handle 5 ''q'') (demo_handle 2 ''q'') [] = Some (Inr [])"
proof -
  let ?m = "(''1-0'', forged_announcement (dg_prefix (demo_handle 5 ''q'')) (uuid_str 1), {})"
  obtain ds1 mn1 r where run: "announcement (\<lambda>_. []) ?m (logs_ds, main_init) = ((ds1, mn1), r)" by (metis surj_pair)
  have ex: "e_delegate_id sample_execution = Some 2" by (simp add: sample_execution_def)
  have ids: "dg_id (demo_handle 5 ''q'') = uuid_str 5" "dg_id (demo_handle 2 ''q'') = uuid_str 2" "(5 :: uuid) \<noteq> 2"
    by (simp_all add: demo_handle_def)
  have create: "just_json (at_create (forged_test ds1) j) = Inr (JObj [(''execution_id'', JStr (uuid_str 1))])" for j
    by (simp add: forged_test_def just_json_def)
  have eid: "body_req (JObj [(''execution_id'', JStr (uuid_str 1))]) ''execution_id'' = Inr (JStr (uuid_str 1))"
    by (simp add: body_req_def)
  have main: "mn_watched main_init (uuid_str 1) = None" by (simp add: main_init_def)
  have watch: "watch_messages sample_config (uuid_str 1) (stream_keys (uuid_str 1) (uuid_str 2)) [] (ds1, watch_init (stream_keys (uuid_str 1) (uuid_str 2)))
      = ((ds1, watch_init (stream_keys (uuid_str 1) (uuid_str 2))), Inr ())" by simp
  have sent: "\<forall>e \<in> set (ds_sent logs_ds). fst e \<noteq> events_key (stream_keys (uuid_str 1) (uuid_str 5))"
    by (simp add: logs_ds_def sample_ds_def)
  have rest: "\<forall>e. at_publish (forged_test ds1) e = Inr ()"
    "at_audits (forged_test ds1) = http_of (snd (list_audit_events get_request (two_cp\<lparr>cp_db := ds_db ds1\<rparr>))) # []"
    "cp_db (two_cp\<lparr>cp_db := ds_db ds1\<rparr>) = ds_db ds1"
    "\<forall>k. at_forged (forged_test ds1) k = Inr (forged_request (dg_tenant_id (demo_handle 2 ''q'')) (dg_id (demo_handle 2 ''q'')) (uuid_str 1)
       # map snd (filter (\<lambda>e. fst e = k) (ds_sent ds1)))"
    by (simp_all add: forged_test_def two_test_def Let_def demo_handle_def)
  from forged_checks_pass [OF ids create eid logs_ds_facts(1) ex main run watch sent rest] show ?thesis by blast
qed

section \<open>The delegates of the scripts\<close>

lemma api_registered:
  assumes "json_body w req = Inr (JObj kv)" and "map_of kv ''tenant_id'' = Some (JStr tn)" and "acl_laws (web_acl w)"
    and "register_delegate w now rr req s = (s', Inr resp)" and "resp_status resp = 200"
  shows "\<exists>row. find_delegate (cp_db s') (rr_delegate_id rr) = Some row \<and> d_status row = STATUS_ACTIVE \<and> d_tenant_id row = tn
    \<and> acl_table (web_acl w) (cp_acl s') (uuid_str (rr_delegate_id rr)) = Some (acl_rules_for (rr_password rr) (uuid_str (rr_delegate_id rr)))
    \<and> body_req (JObj (resp_body resp)) ''delegate_id'' = Inr (JStr (uuid_str (rr_delegate_id rr)))"
  using assms(4)
proof (cases rule: register_delegate_cases)
  case early
  with assms(5) show ?thesis by auto
next
  case (checked body tok tenant csr_json)
  have tenant: "tenant = JStr tn" using checked(1,3) assms(1,2) by (auto simp: body_req_def)
  from checked(4) show ?thesis
  proof (cases rule: register_checked_cases)
    case (committed fs cert_pem serial na acl row)
    obtain tk where tk: "tokens (cp_db s) tok = Some tk"
      using token_problem_None [OF committed(1)] by blast
    note st = register_commit_state [OF committed(6) [symmetric], of tk]
    have "find_delegate (cp_db s') (rr_delegate_id rr) = Some row" using st tk by (simp add: find_delegate_def update_conv')
    moreover have "d_status row = STATUS_ACTIVE" "d_tenant_id row = tn"
      using delegate_row_Inr [OF committed(4)] tenant by simp_all
    ultimately show ?thesis
      using st tk provision_table [OF assms(3) committed(3)] register_commit_reply [OF committed(6) [symmetric]]
      by (auto simp: body_req_def)
  qed (use assms(5) in auto)
qed

text \<open>Both ways in which the scripts register a delegate lead, against the API, to an active delegate of
  the tenant asked for, whose ACL user has the rules of a registration and whose id is the one
  the script goes on with: what the theorems above suppose of A and B.\<close>

definition enrolled_for :: "'r web \<Rightarrow> int \<Rightarrow> reg_random \<Rightarrow> (json \<Rightarrow> bytes) \<Rightarrow> 'r cp \<Rightarrow> string \<Rightarrow> bool" where
  "enrolled_for w now rr encode s tn \<longleftrightarrow>
     (\<exists>j row. let s' = fst (register_delegate w now rr (post_json encode j) s); d = rr_delegate_id rr in
        find_delegate (cp_db s') d = Some row \<and> d_status row = STATUS_ACTIVE \<and> d_tenant_id row = tn
        \<and> acl_table (web_acl w) (cp_acl s') (uuid_str d) = Some (acl_rules_for (rr_password rr) (uuid_str d)))"

theorem test_delegates_registered:
  assumes "acl_laws (web_acl w)" and "\<forall>j. re_register_reply env j = http_of (snd (register_delegate w now rr (post_json encode j) s))"
    and "\<forall>token. carried w encode (test_register_body env token tn name q) \<and> carried w encode (attacker_body env token tn name)"
  shows "(Delegate_init env tn name q workdir = Inr h \<longrightarrow>
        dg_id h = uuid_str (rr_delegate_id rr) \<and> dg_tenant_id h = tn \<and> dg_queue h = q \<and> enrolled_for w now rr encode s tn)
    \<and> (attacker_register env tn name d = Inr (did, ops) \<longrightarrow>
        did = JStr (uuid_str (rr_delegate_id rr)) \<and> enrolled_for w now rr encode s tn)"
proof -
  have reg: "body_req body ''delegate_id'' = Inr (JStr (uuid_str (rr_delegate_id rr))) \<and> enrolled_for w now rr encode s tn"
    if reply: "reply_json (re_register_reply env (JObj kv)) = Inr body" and kv: "map_of kv ''tenant_id'' = Some (JStr tn)"
      and carried: "carried w encode (JObj kv)" for kv body
  proof -
    obtain s' out where run: "register_delegate w now rr (post_json encode (JObj kv)) s = (s', out)" by fastforce
    from reply have "reply_json (http_of out) = Inr body" by (simp add: assms(2) run)
    then obtain resp where resp: "out = Inr resp" "body = JObj (resp_body resp)" "\<not> (400 \<le> resp_status resp \<and> resp_status resp < 600)"
      by (rule reply_http_of_Inr)
    with run have ok: "resp_status resp = 200" using refused_status by blast
    from api_registered [OF json_body_carried [OF carried] kv assms(1) run [unfolded resp(1)] ok] run resp(2)
    show ?thesis by (auto simp: enrolled_for_def Let_def intro!: exI [of _ "JObj kv"])
  qed
  show ?thesis
  proof (intro conjI impI)
    assume init: "Delegate_init env tn name q workdir = Inr h"
    obtain token body where reply: "reply_json (re_register_reply env (test_register_body env token tn name q)) = Inr body"
      and h: "dg_tenant_id h = tn" "dg_queue h = q" "ebind (body_req body ''delegate_id'') as_text = Inr (dg_id h)"
      using init by (auto simp: Delegate_init_def ebind_eq_Inr)
    have "carried w encode (test_register_body env token tn name q)" using assms(3) by blast
    from reg [OF reply [unfolded test_register_body_def] _ this [unfolded test_register_body_def]] h
    show "dg_id h = uuid_str (rr_delegate_id rr)" "dg_tenant_id h = tn" "dg_queue h = q" "enrolled_for w now rr encode s tn"
      by (auto simp: as_text_def)
  next
    assume init: "attacker_register env tn name d = Inr (did, ops)"
    obtain token body where reply: "reply_json (re_register_reply env (attacker_body env token tn name)) = Inr body"
      and did: "body_req body ''delegate_id'' = Inr did"
      using init by (auto simp: attacker_register_def ebind_eq_Inr)
    have "carried w encode (attacker_body env token tn name)" using assms(3) by blast
    from reg [OF reply [unfolded attacker_body_def] _ this [unfolded attacker_body_def]] did
    show "did = JStr (uuid_str (rr_delegate_id rr))" "enrolled_for w now rr encode s tn" by auto
  qed
qed

end
