(* ===== verification/Timeline.thy ===== *)
theory Timeline
  imports Logs EndToEnd
begin

text \<open>
  The life of an execution in time. The streams are a history, the entries in the order they
  were added by anyone; each XREAD of the watcher sees a part of it that has been written by
  then, and answers with at most 50 unread entries per stream, the streams in the order asked
  for. On this, whole runs of a worker against whole runs of a watcher: a task that returns
  leads to an execution that is SUCCEEDED, with its output stored and its streams deleted, and
  lines the worker logs after its output may be lost.
\<close>

section \<open>What XREAD answers\<close>

text \<open>The documented behaviour of the command, which the theorems take as a hypothesis on the replies of
  the polls (\<open>reads_from\<close>): nothing else is assumed of Redis here.\<close>

text \<open>An entry: its stream, its id, its fields.\<close>

type_synonym entry = "string \<times> string \<times> fields"

definition entries_of :: "string \<Rightarrow> entry list \<Rightarrow> (string \<times> fields) list" where
  "entries_of k E = map snd (filter (\<lambda>e. fst e = k) E)"

definition unread :: "string option \<Rightarrow> (string \<times> fields) list \<Rightarrow> (string \<times> fields) list" where
  "unread last_id es =
     (if last_id = Some ''0'' then es else tl (dropWhile (\<lambda>e. Some (fst e) \<noteq> last_id) es))"

text \<open>\<open>r.xread(last_ids, count=50)\<close>; \<open>fresh\<close> gives the text of a new UUID for each message.\<close>

definition xread_streams ::
    "(string \<Rightarrow> string) \<Rightarrow> nat \<Rightarrow> (string \<rightharpoonup> string) \<Rightarrow> string list \<Rightarrow> entry list \<Rightarrow> (string \<times> watch_msg list) list" where
  "xread_streams fresh count last_ids ks E =
     filter (\<lambda>(k, ms). ms \<noteq> [])
       (map (\<lambda>k. (k, map (\<lambda>(i, f). (i, f, fresh i)) (take count (unread (last_ids k) (entries_of k E))))) ks)"

text \<open>The polls of a watcher, each with how much of the history it sees.\<close>

fun reads_from ::
    "entry list \<Rightarrow> (string \<Rightarrow> string) \<Rightarrow> config \<Rightarrow> string \<Rightarrow> stream_names \<Rightarrow> ds \<Rightarrow> watch \<Rightarrow> (watch_poll \<times> nat) list \<Rightarrow> bool" where
  "reads_from E fresh c eid keys s0 w [] = True"
| "reads_from E fresh c eid keys s0 w ((p, n) # ps) =
     (let s = wp_others p s0 in
      case wp_reply p of
        ConnectionLost \<Rightarrow> reads_from E fresh c eid keys s w ps
      | Messages resp \<Rightarrow>
          resp = xread_streams fresh 50 (w_last_ids w) (key_values keys) (take n E)
          \<and> (case watch_messages c eid keys (flatten_reply resp) (s, w) of
               ((s1, w1), Inl e) \<Rightarrow> True
             | ((s1, w1), Inr _) \<Rightarrow> reads_from E fresh c eid keys s1 w1 ps))"

section \<open>Cursors\<close>

text \<open>The id from which a reader that has seen \<open>j\<close> entries goes on.\<close>

definition cursor :: "(string \<times> fields) list \<Rightarrow> nat \<Rightarrow> string option" where
  "cursor es j = Some (if j = 0 then ''0'' else fst (es ! (j - 1)))"

definition good_ids :: "(string \<times> fields) list \<Rightarrow> bool" where
  "good_ids es = (distinct (map fst es) \<and> ''0'' \<notin> fst ` set es)"

lemma dropWhile_at:
  assumes "distinct (map fst es)" and "i < length es"
  shows "dropWhile (\<lambda>e. fst e \<noteq> fst (es ! i)) es = drop i es"
  using assms
proof (induction es arbitrary: i)
  case Nil
  then show ?case by simp
next
  case (Cons e es)
  then show ?case by (cases i) (auto dest: nth_mem [THEN imageI, of _ _ fst])
qed

lemma unread_cursor:
  assumes "good_ids es" and "j \<le> length es"
  shows "unread (cursor es j) (take m es) = drop j (take m es)"
proof (cases "j = 0")
  case True
  then show ?thesis by (simp add: unread_def cursor_def)
next
  case False
  then have j: "j - 1 < length es" using assms(2) by simp
  then have "fst (es ! (j - 1)) \<noteq> ''0''" using assms(1) by (metis good_ids_def image_eqI nth_mem)
  moreover have "dropWhile (\<lambda>e. fst e \<noteq> fst (es ! (j - 1))) (take m es) = drop (j - 1) (take m es)"
  proof (cases "j - 1 < m")
    case True
    have "distinct (map fst (take m es))" using assms(1) by (simp add: good_ids_def take_map [symmetric])
    from dropWhile_at [OF this, of "j - 1"] True j show ?thesis by simp
  next
    case False
    have "fst e \<noteq> fst (es ! (j - 1))" if "e \<in> set (take m es)" for e
    proof -
      obtain i where i: "i < m" "i < length es" "e = es ! i" using \<open>e \<in> set (take m es)\<close> by (auto simp: in_set_conv_nth)
      with False j assms(1) show ?thesis by (auto simp: good_ids_def distinct_conv_nth)
    qed
    with False show ?thesis by simp
  qed
  moreover have "tl (drop (j - 1) (take m es)) = drop j (take m es)"
    using False by (cases j) (simp_all add: drop_Suc tl_drop)
  ultimately show ?thesis using False by (simp add: unread_def cursor_def)
qed

lemma entries_of_take: "entries_of k (take n E) = take (length (entries_of k (take n E))) (entries_of k E)"
proof -
  have "entries_of k E = entries_of k (take n E) @ entries_of k (drop n E)"
    by (simp add: entries_of_def flip: filter_append map_append)
  then show ?thesis by simp
qed

text \<open>What a reader gets next, and where it is after that.\<close>

definition batch_of :: "string \<Rightarrow> (string \<rightharpoonup> string) \<Rightarrow> nat \<Rightarrow> entry list \<Rightarrow> (string \<times> fields) list" where
  "batch_of k last_ids n E = take 50 (unread (last_ids k) (entries_of k (take n E)))"

lemma batch_next:
  assumes "good_ids (entries_of k E)" and "last_ids k = cursor (entries_of k E) j" and "j \<le> length (entries_of k E)"
  shows "\<exists>b. batch_of k last_ids n E = take b (drop j (entries_of k E)) \<and> b \<le> length (entries_of k E) - j
    \<and> j + b \<le> max j (length (entries_of k (take n E)))
    \<and> (entries_of k (take n E) = entries_of k E \<longrightarrow> b = min 50 (length (entries_of k E) - j))"
proof -
  let ?es = "entries_of k E" and ?m = "length (entries_of k (take n E))"
  let ?c = "min 50 (?m - j)"
  have "batch_of k last_ids n E = take 50 (drop j (take ?m ?es))"
    using unread_cursor [OF assms(1,3)] entries_of_take [of k n E] by (metis assms(2) batch_of_def)
  also have "\<dots> = take ?c (drop j ?es)" by (simp add: drop_take)
  also have "\<dots> = take (min ?c (length ?es - j)) (drop j ?es)" by (cases "?c \<le> length ?es - j") (simp_all add: min_def)
  finally show ?thesis by (intro exI [of _ "min ?c (length ?es - j)"]) auto
qed

lemma cursor_moves:
  assumes "b \<le> length es - j" and "j \<le> length es"
  shows "(if take b (drop j es) = [] then cursor es j else Some (fst (last (take b (drop j es))))) = cursor es (j + b)"
proof (cases "b = 0")
  case True
  then show ?thesis by simp
next
  case False
  then have "take b (drop j es) \<noteq> []" "length (take b (drop j es)) = b" using assms by auto
  with False show ?thesis by (auto simp: cursor_def last_conv_nth add.commute)
qed

lemma flatten_xread:
  assumes "key_values keys = ks"
  shows "flatten_reply (xread_streams fresh 50 last_ids ks (take n E)) =
    concat (map (\<lambda>k. map (\<lambda>(i, f). (k, i, f, fresh i)) (batch_of k last_ids n E)) ks)"
proof -
  have "concat (map (\<lambda>(k, ms). map (Pair k) ms) (filter (\<lambda>(k, ms). ms \<noteq> []) xs)) = concat (map (\<lambda>(k, ms). map (Pair k) ms) xs)"
    for xs :: "(string \<times> watch_msg list) list"
    by (induction xs) auto
  then show ?thesis
    by (simp add: flatten_reply_def xread_streams_def batch_of_def comp_def case_prod_unfold)
qed

section \<open>One message of a running execution\<close>

text \<open>An execution that is not over, and messages that neither end it nor raise.\<close>

definition open_row :: "uuid \<Rightarrow> string \<Rightarrow> ds \<Rightarrow> bool" where
  "open_row u fixture s =
     (\<exists>row. executions (ds_db s) u = Some row \<and> e_status row \<notin> TERMINAL_STATUSES \<and> e_workspace_fixture row = fixture)"

definition harmless :: "config \<Rightarrow> stream_names \<Rightarrow> string \<Rightarrow> string \<times> fields \<Rightarrow> bool" where
  "harmless c keys fixture x = (case x of (k, f) \<Rightarrow>
     (k = events_key keys \<and> f ''type'' = Some ''DATA_REQUEST'' \<longrightarrow>
        (\<exists>v. to_uuid (field_or f ''delegate_id'' []) = Inr v)
        \<and> (\<exists>z. workspace_zip (cfg_host c) (py_join (cfg_fixtures c) fixture) (field_or f ''requested_file'' ''*'') = Inr z))
     \<and> (k = status_key keys \<and> f ''type'' = Some ''STATUS'' \<longrightarrow>
        (\<forall>st. STATUS_MAPPING (field_or f ''status'' []) = Some st \<longrightarrow> st \<notin> TERMINAL_STATUSES)))"

lemma request_harmless:
  assumes "to_uuid eid = Inr u" and "open_row u fixture s" and "harmless c keys fixture (events_key keys, f)"
    and "f ''type'' = Some ''DATA_REQUEST''"
  shows "\<exists>s1. handle_data_request (cfg_host c) (cfg_fixtures c) t eid (events_key keys) f s = (s1, Inr ()) \<and> open_row u fixture s1"
proof -
  obtain row where row: "executions (ds_db s) u = Some row" "e_status row \<notin> TERMINAL_STATUSES" "e_workspace_fixture row = fixture"
    using assms(2) by (auto simp: open_row_def)
  obtain v z where v: "to_uuid (field_or f ''delegate_id'' []) = Inr v"
    and z: "workspace_zip (cfg_host c) (py_join (cfg_fixtures c) fixture) (field_or f ''requested_file'' ''*'') = Inr z"
    using assms(3,4) by (auto simp: harmless_def)
  have open_audit: "open_row u fixture (ds_audit a s)" for a
    using assms(2) by (simp add: open_row_def)
  show ?thesis
  proof (cases z)
    case None
    with assms(1) row v z open_audit assms(2) show ?thesis by (auto simp: handle_data_request_def Let_def)
  next
    case (Some zip)
    let ?base = "[''execution_id'' \<mapsto> eid, ''tenant_id'' \<mapsto> field_or f ''tenant_id'' []]"
    obtain ms res where send: "send_bytes CHUNK_SIZE t zip ?base = (ms, res)" by fastforce
    then have "res = Inr (t, sha256_bytes zip, length zip)"
      using send_bytes_run [OF chunk_size_pos send, of None] by blast
    with assms(1) row v z Some send open_audit show ?thesis
      by (auto simp: handle_data_request_def Let_def open_row_def TERMINAL_STATUSES_def)
  qed
qed

lemma status_harmless:
  assumes "to_uuid eid = Inr u" and "open_row u fixture s" and "harmless c keys fixture (status_key keys, f)"
    and "f ''type'' = Some ''STATUS''"
  shows "\<exists>s1. handle_status eid f s = (s1, Inr ()) \<and> open_row u fixture s1"
  using assms by (auto simp: handle_status_def harmless_def open_row_def Let_def split: option.splits)

lemma log_harmless:
  assumes "to_uuid eid = Inr u" and "open_row u fixture s"
  shows "\<exists>s1. handle_log eid f n s = (s1, Inr ()) \<and> open_row u fixture s1"
  using assms by (auto simp: handle_log_def open_row_def)

lemma message_handled:
  assumes "keys = stream_keys eid d" and "to_uuid eid = Inr u" and "open_row u fixture s"
    and "if k = output_key keys then xfer_step (w_output w) f = Inr st \<and> f ''type'' \<noteq> Some ''DATA_END''
         else harmless c keys fixture (k, f) \<and> st = w_output w"
  shows "\<exists>s1 w1. watch_message c eid keys k (i, f, t) (s, w) = ((s1, w1), Inr ()) \<and> open_row u fixture s1
    \<and> w_output w1 = st \<and> w_last_ids w1 = (w_last_ids w)(k \<mapsto> i)"
proof (cases "k = output_key keys")
  case True
  with assms(4) have "\<not> xfer_closes (w_output w) f" "xfer_step (w_output w) f = Inr st"
    by (auto simp: xfer_closes_def split: option.splits)
  with assms(3) True show ?thesis
    by (simp add: watch_message_output [OF assms(1)] output_not_closing Let_def)
next
  case False
  then have h: "harmless c keys fixture (k, f)" "st = w_output w" using assms(4) by auto
  have neq: "status_key keys \<noteq> events_key keys" "status_key keys \<noteq> log_key keys" "log_key keys \<noteq> events_key keys"
    using key_values_distinct [of eid d] by (auto simp: assms(1) key_values_def)
  consider (request) "k = events_key keys" "f ''type'' = Some ''DATA_REQUEST''"
    | (log) "k = log_key keys" "f ''type'' = Some ''LOG''"
    | (status) "k = status_key keys" "f ''type'' = Some ''STATUS''"
    | (other) "\<not> (k = events_key keys \<and> f ''type'' = Some ''DATA_REQUEST'')"
        "\<not> (k = log_key keys \<and> f ''type'' = Some ''LOG'')" "\<not> (k = status_key keys \<and> f ''type'' = Some ''STATUS'')"
    by blast
  then show ?thesis
  proof cases
    case request
    with request_harmless [OF assms(2,3), of c keys f t] h show ?thesis by (auto simp: watch_message_def Let_def)
  next
    case log
    with log_harmless [OF assms(2,3), of f "w_log_seq w + 1"] h neq show ?thesis by (auto simp: watch_message_def Let_def)
  next
    case status
    with status_harmless [OF assms(2,3), of c keys f] h neq show ?thesis by (auto simp: watch_message_def Let_def)
  next
    case other
    with False assms(3) h(2) show ?thesis by (auto simp: watch_message_def Let_def)
  qed
qed

section \<open>One reply\<close>

text \<open>The cursors after a batch of messages.\<close>

definition moved :: "(string \<times> watch_msg) list \<Rightarrow> (string \<rightharpoonup> string) \<Rightarrow> (string \<rightharpoonup> string)" where
  "moved ms last_ids = (\<lambda>k. case filter (\<lambda>m. fst m = k) ms of [] \<Rightarrow> last_ids k | x # xs \<Rightarrow> Some (fst (snd (last (x # xs)))))"

lemma moved_Cons: "moved ((k, i, f, t) # ms) l = moved ms (l(k \<mapsto> i))"
  by (rule ext) (auto simp: moved_def split: list.splits)

lemma moved_Nil [simp]: "moved [] l = l"
  by (simp add: moved_def)

lemma batch_handled:
  assumes "keys = stream_keys eid d" and "to_uuid eid = Inr u"
    and "\<forall>(k, i, f, t) \<in> set ms. k \<noteq> output_key keys \<longrightarrow> harmless c keys fixture (k, f)"
    and "\<forall>f \<in> set (outs_of keys ms). f ''type'' \<noteq> Some ''DATA_END''"
    and "open_row u fixture s" and "fold_res xfer_step (w_output w) (outs_of keys ms) = Inr st"
  shows "\<exists>s1 w1. watch_messages c eid keys ms (s, w) = ((s1, w1), Inr ()) \<and> open_row u fixture s1
    \<and> w_output w1 = st \<and> w_last_ids w1 = moved ms (w_last_ids w)"
  using assms(3-6)
proof (induction ms arbitrary: s w)
  case Nil
  then show ?case by simp
next
  case (Cons km ms)
  obtain k i f t where km: "km = (k, i, f, t)" by (cases km) auto
  obtain st1 where st1: "if k = output_key keys then xfer_step (w_output w) f = Inr st1 \<and> f ''type'' \<noteq> Some ''DATA_END''
      else harmless c keys fixture (k, f) \<and> st1 = w_output w"
    and rest: "fold_res xfer_step st1 (outs_of keys ms) = Inr st"
    using Cons.prems by (cases "k = output_key keys") (auto simp: km ebind_eq_Inr)
  obtain s1 w1 where one: "watch_message c eid keys k (i, f, t) (s, w) = ((s1, w1), Inr ())" "open_row u fixture s1"
    "w_output w1 = st1" "w_last_ids w1 = (w_last_ids w)(k \<mapsto> i)"
    using message_handled [OF assms(1,2) Cons.prems(3) st1] by blast
  have "\<forall>f \<in> set (outs_of keys ms). f ''type'' \<noteq> Some ''DATA_END''"
    using Cons.prems(2) by (auto simp: km split: if_splits)
  with Cons.IH [OF _ _ one(2), of w1] Cons.prems(1) rest one(3) obtain s2 w2 where
    "watch_messages c eid keys ms (s1, w1) = ((s2, w2), Inr ())" "open_row u fixture s2" "w_output w2 = st"
    "w_last_ids w2 = moved ms (w_last_ids w1)" by auto
  with one show ?case by (simp add: km moved_Cons)
qed

text \<open>The end of an output transfer.\<close>

lemma closing_handled:
  assumes "keys = stream_keys eid d" and "to_uuid eid = Inr u" and "open_row u fixture s"
    and "w_output w = Some x" and "xfer_closes (Some x) f" and "xfer_valid x"
  shows "\<exists>s1 w1 row. watch_message c eid keys (output_key keys) (i, f, t) (s, w) = ((s1, w1), Inr ())
    \<and> executions (ds_db s1) u = Some row \<and> e_status row = STATUS_SUCCEEDED
    \<and> e_output_path row = out_path (cfg_media c) eid \<and> e_output_checksum row = sha256_bytes (x_buf x)
    \<and> ds_files s1 (out_path (cfg_media c) eid) = Some (x_buf x)"
proof -
  obtain s1 r where h: "handle_output_message (cfg_media c) eid f (Some x) s = (s1, r)" by fastforce
  then have "r = Inr None \<and> ds_files s1 (out_path (cfg_media c) eid) = Some (x_buf x)
      \<and> (\<exists>row. executions (ds_db s1) u = Some row \<and> e_status row = STATUS_SUCCEEDED
           \<and> e_output_path row = out_path (cfg_media c) eid \<and> e_output_checksum row = sha256_bytes (x_buf x))"
    using assms(2,3,5,6) by (cases rule: output_cases) (auto simp: open_row_def)
  with h assms(4) show ?thesis by (auto simp: watch_message_output [OF assms(1)] Let_def)
qed

section \<open>One turn of the watcher\<close>

definition lines_of :: "(string \<times> fields) list \<Rightarrow> string list" where
  "lines_of es = map (\<lambda>e. field_or (snd e) ''message'' []) (filter (\<lambda>e. snd e ''type'' = Some ''LOG'') es)"

text \<open>A history in which an execution gets the output \<open>z\<close> and nothing that would end it otherwise.\<close>

definition orderly :: "config \<Rightarrow> stream_names \<Rightarrow> string \<Rightarrow> string \<Rightarrow> bytes \<Rightarrow> fields \<Rightarrow> entry list \<Rightarrow> bool" where
  "orderly c keys fixture nt z base E =
     ((\<forall>k \<in> set (key_values keys). good_ids (entries_of k E))
      \<and> (\<forall>(k, i, f) \<in> set E. harmless c keys fixture (k, f))
      \<and> map snd (entries_of (output_key keys) E) = fst (send_bytes CHUNK_SIZE nt z base))"

text \<open>A watcher that has read \<open>j k\<close> entries of each stream \<open>k\<close>, not yet the whole output, and at most
  \<open>most\<close> log entries; and what it leaves when it has read the output.\<close>

definition logged :: "entry list \<Rightarrow> stream_names \<Rightarrow> uuid \<Rightarrow> nat \<Rightarrow> ds \<Rightarrow> bool" where
  "logged E keys u m s =
     (filter (\<lambda>l. l_execution l = u) (logs (ds_db s)) = numbered u 0 (lines_of (take m (entries_of (log_key keys) E))))"

definition midway ::
    "entry list \<Rightarrow> stream_names \<Rightarrow> uuid \<Rightarrow> string \<Rightarrow> nat \<Rightarrow> (string \<Rightarrow> nat) \<Rightarrow> ds \<Rightarrow> watch \<Rightarrow> bool" where
  "midway E keys u fixture most j s w =
     (open_row u fixture s
      \<and> (\<forall>k \<in> set (key_values keys). j k \<le> length (entries_of k E) \<and> w_last_ids w k = cursor (entries_of k E) (j k))
      \<and> fold_res xfer_step None (map snd (take (j (output_key keys)) (entries_of (output_key keys) E))) = Inr (w_output w)
      \<and> j (output_key keys) < length (entries_of (output_key keys) E)
      \<and> logged E keys u (j (log_key keys)) s
      \<and> w_log_seq w = int (length (lines_of (take (j (log_key keys)) (entries_of (log_key keys) E))))
      \<and> j (log_key keys) \<le> most)"

definition finished_well :: "entry list \<Rightarrow> stream_names \<Rightarrow> string \<Rightarrow> uuid \<Rightarrow> string \<Rightarrow> bytes \<Rightarrow> nat \<Rightarrow> ds \<Rightarrow> bool" where
  "finished_well E keys path u eid z most s =
     ((\<exists>row. executions (ds_db s) u = Some row \<and> e_status row = STATUS_SUCCEEDED \<and> e_output_path row = path
        \<and> e_output_checksum row = sha256_bytes z)
      \<and> ds_files s path = Some z \<and> (\<exists>m \<le> most. logged E keys u m s))"

text \<open>A reply, stream by stream.\<close>

definition of_stream :: "string \<Rightarrow> (string \<Rightarrow> string) \<Rightarrow> (string \<times> fields) list \<Rightarrow> (string \<times> watch_msg) list" where
  "of_stream k fresh es = map (\<lambda>(i, f). (k, i, f, fresh i)) es"

lemma of_stream_simps [simp]:
  "of_stream k fresh [] = []" "of_stream k fresh (xs @ ys) = of_stream k fresh xs @ of_stream k fresh ys"
  "of_stream k fresh ((i, f) # es) = (k, i, f, fresh i) # of_stream k fresh es"
  "filter (\<lambda>m. fst m = k') (of_stream k fresh es) = (if k = k' then of_stream k fresh es else [])"
  "outs_of keys (of_stream k fresh es) = (if k = output_key keys then map snd es else [])"
  by (auto simp: of_stream_def outs_of_def filter_map comp_def case_prod_unfold filter_empty_conv)

lemma outs_of_append: "outs_of keys (xs @ ys) = outs_of keys xs @ outs_of keys ys"
  by (simp add: outs_of_def)

lemma log_lines_of_stream:
  "log_lines keys (of_stream k fresh es) = (if k = log_key keys then lines_of es else [])"
  by (induction es) (auto simp: lines_of_def of_stream_def log_line_def is_log_def)

lemma moved_append: "moved (xs @ ys) l = moved ys (moved xs l)"
  by (induction xs arbitrary: l) (auto simp: moved_Cons case_prod_unfold)

lemma moved_of_stream:
  "moved (of_stream k fresh es) l = (if es = [] then l else l(k \<mapsto> fst (last es)))"
  by (induction es arbitrary: l) (auto simp: moved_Cons)

lemma in_batch:
  assumes "(k, i, f, t) \<in> set (of_stream k' fresh (take b (drop j (entries_of k' E))))"
  shows "(k, i, f) \<in> set E"
  using assms by (auto simp: of_stream_def entries_of_def dest!: in_set_takeD in_set_dropD)

lemma output_parts:
  assumes "fs = fst (send_bytes CHUNK_SIZE nt z base)"
  shows "\<exists>x cl. fs = butlast fs @ [cl] \<and> fold_res xfer_step None (butlast fs) = Inr (Some x) \<and> x_buf x = z \<and> xfer_valid x
    \<and> xfer_closes (Some x) cl \<and> (\<forall>f \<in> set (butlast fs). f ''type'' \<noteq> Some ''DATA_END'')"
proof -
  obtain ms res where send: "send_bytes (int (nat CHUNK_SIZE)) nt z base = (ms, res)" by fastforce
  have cs: "int (nat CHUNK_SIZE) = CHUNK_SIZE" "0 < nat CHUNK_SIZE" using chunk_size_pos by simp_all
  obtain chunks n where ms: "ms = start_msg base CHUNK_SIZE nt z # chunks @ [end_msg base nt n]"
    and run: "fold_res xfer_step None (start_msg base CHUNK_SIZE nt z # chunks) = Inr (Some \<lparr>x_tid = nt, x_total = int (length z),
        x_checksum = sha256_bytes z, x_buf = z, x_seen = int ` {0..<n}\<rparr>)"
    using send_bytes_run [OF chunk_size_pos send [unfolded cs(1)], of None] by blast
  have "chunks = map (\<lambda>i. chunk_msg base nt i (piece z (nat CHUNK_SIZE) i)) [0..<pieces z (nat CHUNK_SIZE)]"
    using send_bytes_messages [OF cs(2) send] by (simp add: ms cs(1))
  then have "\<forall>f \<in> set (start_msg base CHUNK_SIZE nt z # chunks). f ''type'' \<noteq> Some ''DATA_END''"
    by (auto simp: chunk_msg_def start_msg_def)
  moreover have "fs = ms" using assms send [unfolded cs(1)] by simp
  moreover have "butlast ms = start_msg base CHUNK_SIZE nt z # chunks" by (simp add: ms butlast_append)
  ultimately show ?thesis
    using run by (auto simp: ms xfer_valid_def xfer_closes_def end_msg_def)
qed

lemma reply_parts:
  assumes "keys = stream_keys eid d" and "\<forall>k \<in> set (key_values keys). good_ids (entries_of k E)"
    and "\<forall>k \<in> set (key_values keys). j k \<le> length (entries_of k E) \<and> w_last_ids w k = cursor (entries_of k E) (j k)"
  obtains b where
    "flatten_reply (xread_streams fresh 50 (w_last_ids w) (key_values keys) (take n E)) =
       concat (map (\<lambda>k. of_stream k fresh (take (b k) (drop (j k) (entries_of k E)))) (key_values keys))"
    "\<forall>k \<in> set (key_values keys). j k + b k \<le> length (entries_of k E)
       \<and> j k + b k \<le> max (j k) (length (entries_of k (take n E)))
       \<and> (entries_of k (take n E) = entries_of k E \<longrightarrow> b k = min 50 (length (entries_of k E) - j k))
       \<and> moved (concat (map (\<lambda>k. of_stream k fresh (take (b k) (drop (j k) (entries_of k E)))) (key_values keys))) (w_last_ids w) k
           = cursor (entries_of k E) (j k + b k)"
proof -
  let ?P = "\<lambda>k b. batch_of k (w_last_ids w) n E = take b (drop (j k) (entries_of k E)) \<and> b \<le> length (entries_of k E) - j k
      \<and> j k + b \<le> max (j k) (length (entries_of k (take n E)))
      \<and> (entries_of k (take n E) = entries_of k E \<longrightarrow> b = min 50 (length (entries_of k E) - j k))"
  have "\<forall>k \<in> set (key_values keys). \<exists>b. ?P k b" using batch_next assms(2,3) by metis
  then obtain b where b: "\<forall>k \<in> set (key_values keys). ?P k (b k)" by metis
  let ?ms = "concat (map (\<lambda>k. of_stream k fresh (take (b k) (drop (j k) (entries_of k E)))) (key_values keys))"
  have "flatten_reply (xread_streams fresh 50 (w_last_ids w) (key_values keys) (take n E)) = ?ms"
    unfolding flatten_xread [OF refl] using b by (intro arg_cong [where f = concat] map_cong) (auto simp: of_stream_def)
  moreover have "moved ?ms (w_last_ids w) k = cursor (entries_of k E) (j k + b k)" if "k \<in> set (key_values keys)" for k
  proof -
    let ?next = "take (b k) (drop (j k) (entries_of k E))"
    have "moved ?ms (w_last_ids w) k = (if ?next = [] then w_last_ids w k else Some (fst (last ?next)))"
      using that key_values_distinct [of eid d] by (auto simp: assms(1) key_values_def moved_append moved_of_stream)
    also have "\<dots> = cursor (entries_of k E) (j k + b k)"
      using cursor_moves [of "b k" "entries_of k E" "j k"] that b assms(3) by metis
    finally show ?thesis .
  qed
  moreover have "\<forall>k \<in> set (key_values keys). j k + b k \<le> length (entries_of k E)"
    using b assms(3) by (metis le_diff_conv2 add.commute)
  ultimately show ?thesis using b by (intro that [of b]) auto
qed

text \<open>A turn moves the cursors, or reads the closing message of the output, the last of its reply.\<close>

lemma lines_of_append: "lines_of (xs @ ys) = lines_of xs @ lines_of ys"
  by (simp add: lines_of_def)

lemma turn_logs:
  assumes "keys = stream_keys eid d" and "to_uuid eid = Inr u" and "watch_messages c eid keys ms (s, w) = ((s1, w1), Inr ())"
    and "log_lines keys ms = lines_of (take b (drop j (entries_of (log_key keys) E)))"
    and "logged E keys u j s" and "w_log_seq w = int (length (lines_of (take j (entries_of (log_key keys) E))))"
  shows "logged E keys u (j + b) s1"
    and "w_log_seq w1 = int (length (lines_of (take (j + b) (entries_of (log_key keys) E))))"
  using watch_messages_logs [OF assms(2,3)] assms(4-6)
  by (simp_all add: logged_def take_add lines_of_append numbered_append numbered_facts(2))

lemma fold_res_take: "fold_res step s xs = Inr s' \<Longrightarrow> \<exists>s1. fold_res step s (take n xs) = Inr s1"
  by (subst (asm) append_take_drop_id [of n xs, symmetric]) (auto simp: fold_res_append ebind_eq_Inr simp del: append_take_drop_id)

text \<open>What is left of the output after \<open>j\<close> entries: messages that do not end it, then one that does.\<close>

lemma output_rest:
  assumes "orderly c keys fixture nt z base E" and "midway E keys u fixture most j s w"
    and "fs = map snd (entries_of (output_key keys) E)"
  obtains x cl where "fs = butlast fs @ [cl]" "x_buf x = z" "xfer_valid x" "xfer_closes (Some x) cl"
    "\<forall>f \<in> set (butlast fs). f ''type'' \<noteq> Some ''DATA_END''"
    "fold_res xfer_step (w_output w) (drop (j (output_key keys)) (butlast fs)) = Inr (Some x)"
proof -
  let ?j = "j (output_key keys)"
  have len: "?j < length fs" and fold: "fold_res xfer_step None (take ?j fs) = Inr (w_output w)"
    using assms(2) by (simp_all add: midway_def assms(3) take_map)
  obtain x cl where parts: "fs = butlast fs @ [cl]" "fold_res xfer_step None (butlast fs) = Inr (Some x)" "x_buf x = z" "xfer_valid x"
    "xfer_closes (Some x) cl" "\<forall>f \<in> set (butlast fs). f ''type'' \<noteq> Some ''DATA_END''"
    using output_parts [of fs nt z base] assms(1,3) by (auto simp: orderly_def)
  have "butlast fs = take ?j fs @ drop ?j (butlast fs)"
    using append_take_drop_id [of ?j "butlast fs"] take_butlast [of ?j fs] len by simp
  then have "fold_res xfer_step (w_output w) (drop ?j (butlast fs)) = Inr (Some x)"
    using parts(2) fold fold_res_append [of xfer_step None "take ?j fs" "drop ?j (butlast fs)"] by simp
  with parts that show thesis by blast
qed

text \<open>A reply in the middle of a run: of each stream some next entries, the output last, nothing harmful.\<close>

lemma turn_reply:
  assumes "keys = stream_keys eid d" and "orderly c keys fixture nt z base E" and "midway E keys u fixture most j s w"
    and "length (entries_of (log_key keys) (take n E)) \<le> most"
    and "ms = flatten_reply (xread_streams fresh 50 (w_last_ids w) (key_values keys) (take n E))"
  obtains b ms0 where
    "ms = ms0 @ of_stream (output_key keys) fresh (take (b (output_key keys)) (drop (j (output_key keys)) (entries_of (output_key keys) E)))"
    "outs_of keys ms0 = []" "j (log_key keys) + b (log_key keys) \<le> most"
    "log_lines keys ms = lines_of (take (b (log_key keys)) (drop (j (log_key keys)) (entries_of (log_key keys) E)))"
    "\<forall>(k, i, f, t) \<in> set ms. k \<noteq> output_key keys \<longrightarrow> harmless c keys fixture (k, f)"
    "\<forall>k \<in> set (key_values keys). j k + b k \<le> length (entries_of k E) \<and> moved ms (w_last_ids w) k = cursor (entries_of k E) (j k + b k)"
    "entries_of (output_key keys) (take n E) = entries_of (output_key keys) E \<longrightarrow>
       b (output_key keys) = min 50 (length (entries_of (output_key keys) E) - j (output_key keys))"
proof -
  let ?out = "output_key keys" and ?log = "log_key keys" and ?es = "\<lambda>k. entries_of k E"
  let ?ms = "\<lambda>b. concat (map (\<lambda>k. of_stream k fresh (take (b k) (drop (j k) (?es k)))) (key_values keys))"
  have ids: "\<forall>k \<in> set (key_values keys). good_ids (?es k)" and safe: "\<forall>(k, i, f) \<in> set E. harmless c keys fixture (k, f)"
    using assms(2) by (auto simp: orderly_def)
  have cur: "\<forall>k \<in> set (key_values keys). j k \<le> length (?es k) \<and> w_last_ids w k = cursor (?es k) (j k)" and most: "j ?log \<le> most"
    using assms(3) by (auto simp: midway_def)
  have in_keys: "?out \<in> set (key_values keys)" "?log \<in> set (key_values keys)" by (simp_all add: key_values_def)
  have neq: "?out \<noteq> ?log" "?out \<noteq> events_key keys" "?out \<noteq> status_key keys" "?log \<noteq> events_key keys" "?log \<noteq> status_key keys"
    using key_values_distinct [of eid d] by (auto simp: assms(1) key_values_def)
  obtain b where reply: "flatten_reply (xread_streams fresh 50 (w_last_ids w) (key_values keys) (take n E)) = ?ms b"
    and b: "\<forall>k \<in> set (key_values keys). j k + b k \<le> length (?es k)
       \<and> j k + b k \<le> max (j k) (length (entries_of k (take n E)))
       \<and> (entries_of k (take n E) = ?es k \<longrightarrow> b k = min 50 (length (?es k) - j k))
       \<and> moved (?ms b) (w_last_ids w) k = cursor (?es k) (j k + b k)"
    by (rule reply_parts [OF assms(1) ids cur, of fresh n])
  have ms: "ms = ?ms b" using assms(5) reply by simp
  obtain ms0 where "ms = ms0 @ of_stream ?out fresh (take (b ?out) (drop (j ?out) (?es ?out)))" "outs_of keys ms0 = []"
    using neq unfolding ms by (auto simp: key_values_def outs_of_append)
  moreover have "log_lines keys ms = lines_of (take (b ?log) (drop (j ?log) (?es ?log)))"
    using neq unfolding ms by (auto simp: key_values_def log_lines_append log_lines_of_stream)
  moreover have "\<forall>(k, i, f, t) \<in> set ms. k \<noteq> ?out \<longrightarrow> harmless c keys fixture (k, f)"
    using safe by (auto simp: ms dest!: in_batch [where fresh = fresh])
  moreover have "j ?log + b ?log \<le> most" using b in_keys(2) most assms(4) by fastforce
  ultimately show thesis using b in_keys(1) by (intro that [of ms0 b]) (auto simp: ms)
qed

text \<open>The reply that ends the output.\<close>

lemma turn_closes:
  assumes "keys = stream_keys eid d" and "to_uuid eid = Inr u" and "open_row u fixture s"
    and "ms = ms0 @ of_stream (output_key keys) fresh new" and "outs_of keys ms0 = []" and "new \<noteq> []"
    and "map snd new = body @ [cl]" and "\<forall>(k, i, f, t) \<in> set ms. k \<noteq> output_key keys \<longrightarrow> harmless c keys fixture (k, f)"
    and "\<forall>f \<in> set body. f ''type'' \<noteq> Some ''DATA_END''" and "fold_res xfer_step (w_output w) body = Inr (Some x)"
    and "xfer_closes (Some x) cl" and "xfer_valid x"
  shows "\<exists>s1 w1 row. watch_messages c eid keys ms (s, w) = ((s1, w1), Inr ())
    \<and> executions (ds_db s1) u = Some row \<and> e_status row = STATUS_SUCCEEDED
    \<and> e_output_path row = out_path (cfg_media c) eid \<and> e_output_checksum row = sha256_bytes (x_buf x)
    \<and> ds_files s1 (out_path (cfg_media c) eid) = Some (x_buf x)"
proof -
  let ?out = "output_key keys" and ?ms1 = "ms0 @ of_stream (output_key keys) fresh (butlast new)"
  have "snd (last new) = cl" using assms(6,7) by (metis last_map last_snoc)
  then obtain i where last: "last new = (i, cl)" by (metis prod.collapse)
  have ms1: "ms = ?ms1 @ [(?out, i, cl, fresh i)]"
    using append_butlast_last_id [OF assms(6)] last assms(4) by (metis append.assoc of_stream_simps(1,2,3))
  have pre: "outs_of keys ?ms1 = body"
    using assms(5,7) by (simp add: outs_of_append map_butlast)
  have harm1: "\<forall>(k, i, f, t) \<in> set ?ms1. k \<noteq> ?out \<longrightarrow> harmless c keys fixture (k, f)"
    using assms(8) by (simp only: ms1 set_append) auto
  obtain s1 w1 where run: "watch_messages c eid keys ?ms1 (s, w) = ((s1, w1), Inr ())" "open_row u fixture s1" "w_output w1 = Some x"
    using batch_handled [OF assms(1,2) harm1 _ assms(3) assms(10) [folded pre]] assms(9) pre by auto
  obtain s2 w2 row where closed: "watch_message c eid keys ?out (i, cl, fresh i) (s1, w1) = ((s2, w2), Inr ())"
    "executions (ds_db s2) u = Some row" "e_status row = STATUS_SUCCEEDED" "e_output_path row = out_path (cfg_media c) eid"
    "e_output_checksum row = sha256_bytes (x_buf x)" "ds_files s2 (out_path (cfg_media c) eid) = Some (x_buf x)"
    using closing_handled [OF assms(1,2) run(2,3) assms(11,12)] by metis
  have "watch_messages c eid keys ms (s, w) = ((s2, w2), Inr ())"
    using watch_messages_append [of c eid keys ?ms1 "[(?out, i, cl, fresh i)]" "(s, w)"] run(1) closed(1)
    by (simp only: ms1) simp
  with closed show ?thesis by blast
qed

lemma turn_handled:
  assumes "keys = stream_keys eid d" and "to_uuid eid = Inr u" and "orderly c keys fixture nt z base E"
    and "midway E keys u fixture most j s w" and "length (entries_of (log_key keys) (take n E)) \<le> most"
    and "ms = flatten_reply (xread_streams fresh 50 (w_last_ids w) (key_values keys) (take n E))"
  shows "\<exists>s1 w1. watch_messages c eid keys ms (s, w) = ((s1, w1), Inr ())
    \<and> ((\<exists>j'. midway E keys u fixture most j' s1 w1 \<and> j (output_key keys) \<le> j' (output_key keys)
          \<and> (entries_of (output_key keys) (take n E) = entries_of (output_key keys) E \<longrightarrow> j' (output_key keys) = j (output_key keys) + 50))
        \<or> finished_well E keys (out_path (cfg_media c) eid) u eid z most s1)"
proof -
  let ?out = "output_key keys" and ?log = "log_key keys" and ?es = "\<lambda>k. entries_of k E"
  let ?fs = "map snd (?es ?out)"
  have mid: "open_row u fixture s" "fold_res xfer_step None (map snd (take (j ?out) (?es ?out))) = Inr (w_output w)"
      "j ?out < length (?es ?out)" "logged E keys u (j ?log) s"
      "w_log_seq w = int (length (lines_of (take (j ?log) (?es ?log))))"
    using assms(4) by (auto simp: midway_def)
  obtain b ms0 where reply: "ms = ms0 @ of_stream ?out fresh (take (b ?out) (drop (j ?out) (?es ?out)))"
    "outs_of keys ms0 = []" "j ?log + b ?log \<le> most" "log_lines keys ms = lines_of (take (b ?log) (drop (j ?log) (?es ?log)))"
    "\<forall>(k, i, f, t) \<in> set ms. k \<noteq> ?out \<longrightarrow> harmless c keys fixture (k, f)"
    "\<forall>k \<in> set (key_values keys). j k + b k \<le> length (?es k) \<and> moved ms (w_last_ids w) k = cursor (?es k) (j k + b k)"
    "entries_of ?out (take n E) = ?es ?out \<longrightarrow> b ?out = min 50 (length (?es ?out) - j ?out)"
    by (rule turn_reply [OF assms(1,3,4,5,6)])
  obtain x cl where rest: "?fs = butlast ?fs @ [cl]" "x_buf x = z" "xfer_valid x" "xfer_closes (Some x) cl"
    "\<forall>f \<in> set (butlast ?fs). f ''type'' \<noteq> Some ''DATA_END''"
    "fold_res xfer_step (w_output w) (drop (j ?out) (butlast ?fs)) = Inr (Some x)"
    by (rule output_rest [OF assms(3,4) refl])
  let ?new = "take (b ?out) (drop (j ?out) (?es ?out))"
  note logs = turn_logs [OF assms(1,2) _ reply(4) mid(4,5)]
  show ?thesis
  proof (cases "j ?out + b ?out < length (?es ?out)")
    case True
    have outs: "outs_of keys ms = map snd ?new" using reply(2) by (simp add: reply(1) outs_of_append)
    have pre: "map snd ?new = take (b ?out) (drop (j ?out) (butlast ?fs))"
      using True by (simp add: butlast_conv_take drop_take min_absorb1 flip: take_map drop_map)
    then have "set (outs_of keys ms) \<subseteq> set (butlast ?fs)"
      unfolding outs by (auto dest: in_set_takeD in_set_dropD)
    then have ends: "\<forall>f \<in> set (outs_of keys ms). f ''type'' \<noteq> Some ''DATA_END''" using rest(5) by blast
    obtain st where st: "fold_res xfer_step (w_output w) (outs_of keys ms) = Inr st"
      using fold_res_take [OF rest(6), of "b ?out"] by (auto simp: outs pre)
    obtain s1 w1 where run: "watch_messages c eid keys ms (s, w) = ((s1, w1), Inr ())" "open_row u fixture s1"
      "w_output w1 = st" "w_last_ids w1 = moved ms (w_last_ids w)"
      using batch_handled [OF assms(1,2) reply(5) ends mid(1) st] by blast
    have "fold_res xfer_step None (map snd (take (j ?out + b ?out) (?es ?out))) = Inr st"
      using mid(2) st by (simp add: take_add fold_res_append outs)
    then have "midway E keys u fixture most (\<lambda>k. j k + b k) s1 w1"
      using run reply(3,6) True logs [OF run(1)] by (simp add: midway_def)
    moreover have "b ?out = 50" if "entries_of ?out (take n E) = ?es ?out"
      using reply(7) that True by fastforce
    ultimately show ?thesis using run(1) by (intro exI [of _ s1] exI [of _ w1] conjI disjI1 exI [of _ "\<lambda>k. j k + b k"]) auto
  next
    case False
    then have new: "?new = drop (j ?out) (?es ?out)" and nonempty: "?new \<noteq> []" using mid(3) by simp_all
    have "map snd ?new = drop (j ?out) ?fs" by (simp add: new drop_map)
    also have "\<dots> = drop (j ?out) (butlast ?fs) @ [cl]" using mid(3) by (subst rest(1)) simp
    finally have body: "map snd ?new = drop (j ?out) (butlast ?fs) @ [cl]" .
    have ends: "\<forall>f \<in> set (drop (j ?out) (butlast ?fs)). f ''type'' \<noteq> Some ''DATA_END''" using rest(5) by (meson in_set_dropD)
    obtain s1 w1 row where run: "watch_messages c eid keys ms (s, w) = ((s1, w1), Inr ())"
      "executions (ds_db s1) u = Some row" "e_status row = STATUS_SUCCEEDED" "e_output_path row = out_path (cfg_media c) eid"
      "e_output_checksum row = sha256_bytes z" "ds_files s1 (out_path (cfg_media c) eid) = Some z"
      using turn_closes [OF assms(1,2) mid(1) reply(1,2) nonempty body reply(5) ends rest(6,4,3)] rest(2) by blast
    then have "finished_well E keys (out_path (cfg_media c) eid) u eid z most s1"
      using reply(3) logs(1) [OF run(1)] by (auto simp: finished_well_def)
    with run(1) show ?thesis by blast
  qed
qed

section \<open>The whole watch\<close>

text \<open>Others leave the execution's row, its log and its output file alone; and the polls that see all of
  the output.\<close>

definition undisturbed :: "uuid \<Rightarrow> string \<Rightarrow> watch_poll \<Rightarrow> bool" where
  "undisturbed u path p =
     (\<forall>s. executions (ds_db (wp_others p s)) u = executions (ds_db s) u
        \<and> filter (\<lambda>l. l_execution l = u) (logs (ds_db (wp_others p s))) = filter (\<lambda>l. l_execution l = u) (logs (ds_db s))
        \<and> ds_files (wp_others p s) path = ds_files s path)"

definition complete_views :: "entry list \<Rightarrow> string \<Rightarrow> (watch_poll \<times> nat) list \<Rightarrow> nat" where
  "complete_views E key ps =
     length (filter (\<lambda>(p, n). wp_reply p \<noteq> ConnectionLost \<and> entries_of key (take n E) = entries_of key E) ps)"

lemma undisturbed_keeps:
  assumes "undisturbed u path p"
  shows "midway E keys u fixture most j s w \<Longrightarrow> midway E keys u fixture most j (wp_others p s) w"
    and "finished_well E keys path u eid z most s \<Longrightarrow> finished_well E keys path u eid z most (wp_others p s)"
  using assms by (auto simp: undisturbed_def midway_def finished_well_def open_row_def logged_def)

lemma cleanup_logs [simp]: "logs (ds_db (cleanup_execution_streams eid keys s)) = logs (ds_db s)"
  by (simp add: cleanup_execution_streams_def)

lemma watch_ends_well:
  assumes "to_uuid eid = Inr u" and "wp_now p < deadline" and "undisturbed u path p"
    and "finished_well E keys path u eid z most s"
  shows "\<exists>s1. watch_loop c eid keys deadline life s w (p # ps) = Finished s1
    \<and> finished_well E keys path u eid z most s1 \<and> set (key_values keys) \<subseteq> set (ds_deleted s1)"
proof -
  have fin: "finished_well E keys path u eid z most (wp_others p s)" using undisturbed_keeps(2) [OF assms(3,4)] .
  then obtain row where row: "executions (ds_db (wp_others p s)) u = Some row" "e_status row \<in> TERMINAL_STATUSES"
    by (auto simp: finished_well_def TERMINAL_STATUSES_def)
  have "finished_well E keys path u eid z most (cleanup_execution_streams eid keys (wp_others p s))"
    using fin by (simp add: finished_well_def logged_def)
  with assms(1,2) row show ?thesis by (auto simp: Let_def)
qed

lemma watch_completes:
  assumes "keys = stream_keys eid d" and "to_uuid eid = Inr u" and "orderly c keys fixture nt z base E"
    and "path = out_path (cfg_media c) eid"
    and "\<forall>(q, n) \<in> set ps. wp_now q < deadline \<and> undisturbed u path q \<and> length (entries_of (log_key keys) (take n E)) \<le> most"
    and "wp_now p < deadline" and "undisturbed u path p"
    and "midway E keys u fixture most j s w" and "reads_from E fresh c eid keys s w ps"
    and "length (entries_of (output_key keys) E) \<le> j (output_key keys) + 50 * complete_views E (output_key keys) ps"
  shows "\<exists>s1. watch_loop c eid keys deadline life s w (map fst ps @ [p]) = Finished s1
    \<and> finished_well E keys path u eid z most s1 \<and> set (key_values keys) \<subseteq> set (ds_deleted s1)"
  using assms(5,8-10)
proof (induction ps arbitrary: j s w)
  case Nil
  then show ?case by (simp add: midway_def complete_views_def)
next
  case (Cons qn ps)
  obtain q n where qn: "qn = (q, n)" by fastforce
  let ?s = "wp_others q s"
  have q: "wp_now q < deadline" "undisturbed u path q" "length (entries_of (log_key keys) (take n E)) \<le> most"
    using Cons.prems(1) by (auto simp: qn)
  have mid: "midway E keys u fixture most j ?s w" using undisturbed_keeps(1) [OF q(2) Cons.prems(2)] .
  then obtain row where row: "executions (ds_db ?s) u = Some row" "e_status row \<notin> TERMINAL_STATUSES"
    by (auto simp: midway_def open_row_def)
  have rest: "\<forall>(q, n) \<in> set ps. wp_now q < deadline \<and> undisturbed u path q \<and> length (entries_of (log_key keys) (take n E)) \<le> most"
    using Cons.prems(1) by simp
  show ?case
  proof (cases "wp_reply q")
    case ConnectionLost
    have "reads_from E fresh c eid keys ?s w ps" using Cons.prems(3) ConnectionLost by (simp add: qn Let_def)
    moreover have "length (entries_of (output_key keys) E) \<le> j (output_key keys) + 50 * complete_views E (output_key keys) ps"
      using Cons.prems(4) ConnectionLost by (simp add: qn complete_views_def)
    ultimately show ?thesis
      using Cons.IH [OF rest mid] assms(2) q(1) row ConnectionLost by (simp add: qn Let_def)
  next
    case (Messages resp)
    let ?ms = "flatten_reply (xread_streams fresh 50 (w_last_ids w) (key_values keys) (take n E))"
    obtain s1 w1 where run: "watch_messages c eid keys ?ms (?s, w) = ((s1, w1), Inr ())"
      and after: "(\<exists>j'. midway E keys u fixture most j' s1 w1 \<and> j (output_key keys) \<le> j' (output_key keys)
          \<and> (entries_of (output_key keys) (take n E) = entries_of (output_key keys) E \<longrightarrow> j' (output_key keys) = j (output_key keys) + 50))
        \<or> finished_well E keys path u eid z most s1"
      using turn_handled [OF assms(1-3) mid q(3) refl, of fresh] unfolding assms(4) by blast
    have served: "resp = xread_streams fresh 50 (w_last_ids w) (key_values keys) (take n E)"
      using Cons.prems(3) Messages by (simp add: qn Let_def)
    then have resp: "flatten_reply resp = ?ms" by simp
    have reads: "reads_from E fresh c eid keys s1 w1 ps"
      using Cons.prems(3) Messages run by (simp add: qn Let_def served)
    have loop: "watch_loop c eid keys deadline life s w (map fst (qn # ps) @ [p]) = watch_loop c eid keys deadline life s1 w1 (map fst ps @ [p])"
      using assms(2) q(1) row Messages run by (simp add: qn Let_def resp)
    from after show ?thesis
    proof
      assume "\<exists>j'. midway E keys u fixture most j' s1 w1 \<and> j (output_key keys) \<le> j' (output_key keys)
          \<and> (entries_of (output_key keys) (take n E) = entries_of (output_key keys) E \<longrightarrow> j' (output_key keys) = j (output_key keys) + 50)"
      then obtain j' where j': "midway E keys u fixture most j' s1 w1" "j (output_key keys) \<le> j' (output_key keys)"
        "entries_of (output_key keys) (take n E) = entries_of (output_key keys) E \<longrightarrow> j' (output_key keys) = j (output_key keys) + 50"
        by blast
      have "length (entries_of (output_key keys) E) \<le> j' (output_key keys) + 50 * complete_views E (output_key keys) ps"
        using Cons.prems(4) j'(2,3) Messages by (auto simp: qn complete_views_def split: if_splits)
      then show ?thesis unfolding loop by (rule Cons.IH [OF rest j'(1) reads])
    next
      assume fin: "finished_well E keys path u eid z most s1"
      show ?thesis
      proof (cases ps)
        case Nil
        then show ?thesis unfolding loop using watch_ends_well [OF assms(2,6,7) fin] by simp
      next
        case (Cons r qs)
        then have "wp_now (fst r) < deadline" "undisturbed u path (fst r)" using rest by (auto split: prod.splits)
        from watch_ends_well [OF assms(2) this fin] show ?thesis unfolding loop by (simp add: Cons)
      qed
    qed
  qed
qed

section \<open>What a worker writes\<close>

text \<open>The entries of a whole run of a worker: its preparation and its task.\<close>

lemma worker_writes:
  assumes "identity w = Inr idn" and "idn ''delegate_id'' = Some d" and "idn ''tenant_id'' = Some t" and "keys = stream_keys eid d"
    and "prepare_execution w task dir [eid, rf] kwargs k0 = Some (k1, Inr ())" and "wk_prepared k0 task = None"
    and "wk_prepared k1 task = Some dir1" and "execute_task w task nt out eid k1 = (k2, Inr ())"
    and "new = drop (length (wk_sent k0)) (wk_sent k2)"
  shows "\<exists>names z. listdir w dir1 = Inr names
    \<and> zip_directory_to_bytes (with_file (w_host w) out ''result.txt'' (text_bytes (result_text w (sort names)))) out = Inr z
    \<and> map snd (filter (\<lambda>x. fst x = output_key keys) new) = fst (send_bytes CHUNK_SIZE nt z (base_fields eid t d))
    \<and> (\<forall>f. (status_key keys, f) \<in> set new \<longrightarrow> f ''status'' \<in> {Some ''TRANSFERRING_INPUT'', Some ''EXECUTING'', Some ''TASK_SUCCEEDED''})
    \<and> (\<forall>f. (events_key keys, f) \<in> set new \<longrightarrow> f = request_msg (base_fields eid t d) rf)
    \<and> (\<exists>earlier m f. new = earlier @ [(log_key keys, m), (status_key keys, f)] \<and> m ''type'' = Some ''LOG'')"
proof -
  let ?base = "base_fields eid t d"
  have dist: "distinct (key_values keys)" using key_values_distinct by (simp add: assms(4))
  then have neq: "status_key keys \<noteq> log_key keys" "status_key keys \<noteq> output_key keys" "status_key keys \<noteq> events_key keys"
    "log_key keys \<noteq> output_key keys" "events_key keys \<noteq> log_key keys" "events_key keys \<noteq> output_key keys"
    by (auto simp: key_values_def)
  have global: "GLOBAL_EXECUTION_EVENTS_STREAM \<notin> set (key_values keys)"
    using global_not_delegate key_values_prefix unfolding assms(4) by blast
  have "eid \<noteq> []"
  proof
    assume "eid = []"
    then show False using assms(5-7) by (simp add: prepare_execution_def)
  qed
  with assms(1-3,5) have prep: "prepare_with w task dir eid rf d t k0 = Some (k1, Inr ())"
    by (simp add: prepare_execution_def field_req_def)
  let ?P = "\<lambda>x. fst x \<noteq> output_key keys
     \<and> (fst x = status_key keys \<longrightarrow> snd x ''status'' = Some ''TRANSFERRING_INPUT'')
     \<and> (fst x = events_key keys \<longrightarrow> snd x = request_msg ?base rf)"
  have "wk_prepared k1 \<noteq> wk_prepared k0" using assms(6,7) by auto
  moreover have "wrote ?P k0 k1 \<or> wk_prepared k1 = wk_prepared k0 \<and> wrote (\<lambda>x. ?P x \<or> fst x = status_key (stream_keys eid d)) k0 k1"
    by (rule prepare_with_writes [OF prep]) (use neq global in \<open>auto simp: assms(4) key_values_def\<close>)
  ultimately have "wrote ?P k0 k1" by blast
  then obtain new1 where new1: "wk_sent k1 = wk_sent k0 @ new1" "\<forall>x \<in> set new1. ?P x" by (auto simp: wrote_def)
  let ?k = "k1\<lparr>wk_prepared := (wk_prepared k1)(task := None)\<rparr>"
  obtain k3 where try1: "task_try w nt dir1 out keys ?base ?k = (k3, Inr ())" and sent: "wk_sent k2 = wk_sent k3"
    using assms(1-4,7,8)
    by (cases "task_try w nt dir1 out keys ?base ?k"; cases "snd (task_try w nt dir1 out keys ?base ?k)")
      (auto simp: execute_task_def Let_def wbind_def field_req_def split: prod.splits sum.splits)
  obtain z names logs m where z: "listdir w dir1 = Inr names"
      "zip_directory_to_bytes (with_file (w_host w) out ''result.txt'' (text_bytes (result_text w (sort names)))) out = Inr z"
    and sent3: "wk_sent k3 = wk_sent ?k @ (status_key keys, ?base(''type'' \<mapsto> ''STATUS'', ''status'' \<mapsto> ''EXECUTING'')) # logs
        @ map (Pair (output_key keys)) (fst (send_bytes CHUNK_SIZE nt z ?base)) @ [(log_key keys, m),
          (status_key keys, ?base(''type'' \<mapsto> ''STATUS'', ''status'' \<mapsto> ''TASK_SUCCEEDED''))]"
    and logs: "fst ` set logs \<subseteq> {log_key keys}" and m: "m ''type'' = Some ''LOG''"
    using task_try_Inr [OF try1] by blast
  have new: "new = new1 @ (status_key keys, ?base(''type'' \<mapsto> ''STATUS'', ''status'' \<mapsto> ''EXECUTING'')) # logs
        @ map (Pair (output_key keys)) (fst (send_bytes CHUNK_SIZE nt z ?base)) @ [(log_key keys, m),
          (status_key keys, ?base(''type'' \<mapsto> ''STATUS'', ''status'' \<mapsto> ''TASK_SUCCEEDED''))]"
    by (simp add: assms(9) sent sent3 new1(1))
  have "filter (\<lambda>x. fst x = output_key keys) new1 = []" using new1(2) by (force simp: filter_empty_conv)
  moreover have "filter (\<lambda>x. fst x = output_key keys) logs = []" using logs neq by (force simp: filter_empty_conv)
  ultimately have "map snd (filter (\<lambda>x. fst x = output_key keys) new) = fst (send_bytes CHUNK_SIZE nt z ?base)"
    using neq by (simp add: new comp_def filter_map)
  moreover have "\<forall>f. (status_key keys, f) \<in> set new \<longrightarrow> f ''status'' \<in> {Some ''TRANSFERRING_INPUT'', Some ''EXECUTING'', Some ''TASK_SUCCEEDED''}"
    using new1(2) logs neq by (fastforce simp: new)
  moreover have "\<forall>f. (events_key keys, f) \<in> set new \<longrightarrow> f = request_msg ?base rf"
    using new1(2) logs neq by (fastforce simp: new)
  moreover have "\<exists>earlier f. new = earlier @ [(log_key keys, m), (status_key keys, f)]"
    unfolding new by (intro exI [of _ "new1 @ (status_key keys, ?base(''type'' \<mapsto> ''STATUS'', ''status'' \<mapsto> ''EXECUTING'')) # logs
        @ map (Pair (output_key keys)) (fst (send_bytes CHUNK_SIZE nt z ?base))"] exI) simp
  ultimately show ?thesis using z m by blast
qed

section \<open>From the task to the stored result\<close>

text \<open>A history in which what is on the log, status and output streams is what the worker wrote there,
  in its order, and all requests are the worker's; the dispatcher's transfers, and anything
  else that is no request, may stand on the events stream.\<close>

definition history_of :: "stream_names \<Rightarrow> (string \<times> fields) list \<Rightarrow> entry list \<Rightarrow> bool" where
  "history_of keys written E =
     ((\<forall>k \<in> set (key_values keys). good_ids (entries_of k E))
      \<and> (\<forall>k \<in> {log_key keys, status_key keys, output_key keys}.
           map snd (entries_of k E) = map snd (filter (\<lambda>x. fst x = k) written))
      \<and> (\<forall>(k, i, f) \<in> set E. k = events_key keys \<and> f ''type'' = Some ''DATA_REQUEST'' \<longrightarrow> (k, f) \<in> set written))"

lemma entry_written:
  assumes "history_of keys written E" and "(k, i, f) \<in> set E" and "k \<in> {log_key keys, status_key keys, output_key keys}"
  shows "(k, f) \<in> set written"
proof -
  have "f \<in> set (map snd (entries_of k E))" using assms(2) by (force simp: entries_of_def)
  also have "map snd (entries_of k E) = map snd (filter (\<lambda>x. fst x = k) written)" using assms(1,3) by (auto simp: history_of_def)
  finally show ?thesis by auto
qed

lemma worker_orderly:
  assumes "history_of keys written E" and "keys = stream_keys eid d" and "to_uuid d = Inr v"
    and "map snd (filter (\<lambda>x. fst x = output_key keys) written) = fst (send_bytes CHUNK_SIZE nt z (base_fields eid t d))"
    and "\<forall>f. (status_key keys, f) \<in> set written \<longrightarrow> f ''status'' \<in> {Some ''TRANSFERRING_INPUT'', Some ''EXECUTING'', Some ''TASK_SUCCEEDED''}"
    and "\<forall>f. (events_key keys, f) \<in> set written \<longrightarrow> f = request_msg (base_fields eid t d) rf"
    and "workspace_zip (cfg_host c) (py_join (cfg_fixtures c) fixture) rf = Inr zw"
  shows "orderly c keys fixture nt z (base_fields eid t d) E"
proof -
  have "harmless c keys fixture (k, f)" if e: "(k, i, f) \<in> set E" for k i f
  proof -
    have "to_uuid (field_or f ''delegate_id'' []) = Inr v \<and> field_or f ''requested_file'' ''*'' = rf"
      if "k = events_key keys" "f ''type'' = Some ''DATA_REQUEST''"
    proof -
      have "(events_key keys, f) \<in> set written" using assms(1) e that by (auto simp: history_of_def)
      then have "f = request_msg (base_fields eid t d) rf" using assms(6) by blast
      with assms(3) show ?thesis by (simp add: request_msg_def base_fields_def field_or_def)
    qed
    moreover have "\<forall>st. STATUS_MAPPING (field_or f ''status'' []) = Some st \<longrightarrow> st \<notin> TERMINAL_STATUSES"
      if "k = status_key keys"
    proof -
      have "(status_key keys, f) \<in> set written" using entry_written [OF assms(1) e] that by simp
      with assms(5) have "f ''status'' \<in> {Some ''TRANSFERRING_INPUT'', Some ''EXECUTING'', Some ''TASK_SUCCEEDED''}" by blast
      then show ?thesis by (auto simp: STATUS_MAPPING_def TERMINAL_STATUSES_def field_or_def)
    qed
    ultimately show ?thesis using assms(7) by (auto simp: harmless_def)
  qed
  with assms(1,4) show ?thesis by (auto simp: orderly_def history_of_def)
qed

lemma seen_mono: "m \<le> n \<Longrightarrow> length (entries_of k (take m E)) \<le> length (entries_of k (take n E))"
  using entries_of_take [of k m "take n E"] by (simp add: min_absorb1) (metis length_take min.cobounded1)

lemma watch_of_worker:
  assumes "identity w = Inr idn" and "idn ''delegate_id'' = Some d" and "idn ''tenant_id'' = Some t"
    and "to_uuid d = Inr v" and "keys = stream_keys eid d"
    and "prepare_execution w task dir [eid, rf] kwargs k0 = Some (k1, Inr ())" and "wk_prepared k0 task = None"
    and "wk_prepared k1 task = Some dir1" and "execute_task w task nt out eid k1 = (k2, Inr ())"
    and "history_of keys (drop (length (wk_sent k0)) (wk_sent k2)) E"
    and "to_uuid eid = Inr u" and "executions (ds_db s) u = Some row" and "e_status row \<notin> TERMINAL_STATUSES"
    and "\<forall>l \<in> set (logs (ds_db s)). l_execution l \<noteq> u"
    and "workspace_zip (cfg_host c) (py_join (cfg_fixtures c) (e_workspace_fixture row)) rf = Inr zw"
    and "\<forall>(q, m) \<in> set (ps @ [(p, n)]). wp_now q < now + life \<and> undisturbed u (out_path (cfg_media c) eid) q \<and> m \<le> n"
    and "reads_from E fresh c eid keys s (watch_init keys) ps"
    and "length (entries_of (output_key keys) E) \<le> 50 * complete_views E (output_key keys) ps"
  shows "\<exists>s1 row1 names z. watch_execution c eid keys now life s (map fst ps @ [p]) = Finished s1
    \<and> listdir w dir1 = Inr names
    \<and> zip_directory_to_bytes (with_file (w_host w) out ''result.txt'' (text_bytes (result_text w (sort names)))) out = Inr z
    \<and> executions (ds_db s1) u = Some row1 \<and> e_status row1 = STATUS_SUCCEEDED
    \<and> e_output_path row1 = out_path (cfg_media c) eid \<and> e_output_checksum row1 = sha256_bytes z
    \<and> ds_files s1 (out_path (cfg_media c) eid) = Some z
    \<and> set (key_values keys) \<subseteq> set (ds_deleted s1)
    \<and> prefix (listed u (ds_db s1)) (lines_of (entries_of (log_key keys) (take n E)))"
proof -
  let ?path = "out_path (cfg_media c) eid" and ?most = "length (entries_of (log_key keys) (take n E))" and ?out = "output_key keys"
  obtain names z where z: "listdir w dir1 = Inr names"
      "zip_directory_to_bytes (with_file (w_host w) out ''result.txt'' (text_bytes (result_text w (sort names)))) out = Inr z"
    and wrote: "map snd (filter (\<lambda>x. fst x = ?out) (drop (length (wk_sent k0)) (wk_sent k2)))
        = fst (send_bytes CHUNK_SIZE nt z (base_fields eid t d))"
      "\<forall>f. (status_key keys, f) \<in> set (drop (length (wk_sent k0)) (wk_sent k2)) \<longrightarrow>
         f ''status'' \<in> {Some ''TRANSFERRING_INPUT'', Some ''EXECUTING'', Some ''TASK_SUCCEEDED''}"
      "\<forall>f. (events_key keys, f) \<in> set (drop (length (wk_sent k0)) (wk_sent k2)) \<longrightarrow> f = request_msg (base_fields eid t d) rf"
    using worker_writes [OF assms(1-3,5-9) refl] by (elim exE conjE) (rule that; assumption)
  have ord: "orderly c keys (e_workspace_fixture row) nt z (base_fields eid t d) E"
    using worker_orderly [OF assms(10,5,4) wrote assms(15)] .
  have "map snd (entries_of ?out E) = fst (send_bytes CHUNK_SIZE nt z (base_fields eid t d))" using ord by (simp add: orderly_def)
  from output_parts [OF this] have nonempty: "0 < length (entries_of ?out E)" by (cases "entries_of ?out E") auto
  have cursors: "w_last_ids (watch_init keys) k = Some ''0''" if "k \<in> set (key_values keys)" for k
    using that by (auto simp: watch_init_def key_values_def)
  have none: "filter (\<lambda>l. l_execution l = u) (logs (ds_db s)) = []" using assms(14) by (simp add: filter_empty_conv)
  have start: "midway E keys u (e_workspace_fixture row) ?most (\<lambda>_. 0) s (watch_init keys)"
    using assms(12,13) nonempty cursors none by (simp add: midway_def open_row_def logged_def lines_of_def cursor_def)
      (simp add: watch_init_def)
  have turns: "\<forall>(q, m) \<in> set ps. wp_now q < now + life \<and> undisturbed u ?path q \<and> length (entries_of (log_key keys) (take m E)) \<le> ?most"
    using assms(16) seen_mono by fastforce
  have final: "wp_now p < now + life" "undisturbed u ?path p" using assms(16) by simp_all
  obtain s1 where s1: "watch_loop c eid keys (now + life) life s (watch_init keys) (map fst ps @ [p]) = Finished s1"
    and fin: "finished_well E keys ?path u eid z ?most s1" and del: "set (key_values keys) \<subseteq> set (ds_deleted s1)"
    using watch_completes [OF assms(5,11) ord refl turns final start assms(17), of life] assms(18) by auto
  obtain m where m: "m \<le> ?most" "logged E keys u m s1" using fin by (auto simp: finished_well_def)
  have "listed u (ds_db s1) = lines_of (take m (entries_of (log_key keys) E))"
    using m(2) numbered_facts(1,4) by (simp add: listed_def logged_def sort_key_id_if_sorted)
  moreover have "take m (entries_of (log_key keys) E) = take m (entries_of (log_key keys) (take n E))"
    using arg_cong [OF entries_of_take [of "log_key keys" n E], of "take m"] m(1) by (simp add: min_absorb1)
  moreover have "prefix (lines_of (take m es)) (lines_of es)" for es
    by (subst (2) append_take_drop_id [of m, symmetric]) (simp add: lines_of_append del: append_take_drop_id)
  ultimately have "prefix (listed u (ds_db s1)) (lines_of (entries_of (log_key keys) (take n E)))" by simp
  moreover obtain row1 where "executions (ds_db s1) u = Some row1" "e_status row1 = STATUS_SUCCEEDED" "e_output_path row1 = ?path"
    "e_output_checksum row1 = sha256_bytes z" "ds_files s1 ?path = Some z" using fin by (auto simp: finished_well_def)
  ultimately show ?thesis
    using s1 del z unfolding watch_execution_def by (intro exI [of _ s1] exI [of _ row1] exI [of _ names] exI [of _ z] conjI)
qed

text \<open>C6: An execution completes. A worker prepares an execution and its task returns; the watcher of
  that execution reads the four streams by XREAD, 50 entries of each at a time, at any times,
  each reply showing what has been written by then, with lost connections in between, and
  with enough replies before its deadline that show the whole output. Then the watcher has
  ended: the execution is SUCCEEDED, the ZIP of the task's result is stored at the path and
  with the checksum in its row, the four streams are deleted, and the lines listed are the
  first of those the worker had logged when the watcher last looked.\<close>

theorem execution_completes:
  assumes "identity w = Inr idn" and "idn ''delegate_id'' = Some d" and "idn ''tenant_id'' = Some t"
    and "to_uuid d = Inr v" and "keys = stream_keys eid d"
    and "prepare_execution w task dir [eid, rf] kwargs k0 = Some (k1, Inr ())" and "wk_prepared k0 task = None"
    and "wk_prepared k1 task = Some dir1" and "execute_task w task nt out eid k1 = (k2, Inr ())"
    and "history_of keys (drop (length (wk_sent k0)) (wk_sent k2)) E"
    and "to_uuid eid = Inr u" and "executions (ds_db s) u = Some row" and "e_status row \<notin> TERMINAL_STATUSES"
    and "\<forall>l \<in> set (logs (ds_db s)). l_execution l \<noteq> u"
    and "workspace_zip (cfg_host c) (py_join (cfg_fixtures c) (e_workspace_fixture row)) rf = Inr zw"
    and "\<forall>(q, m) \<in> set (ps @ [(p, n)]). wp_now q < now + life \<and> undisturbed u (out_path (cfg_media c) eid) q \<and> m \<le> n"
    and "reads_from E fresh c eid keys s (watch_init keys) ps"
    and "length (entries_of (output_key keys) E) \<le> 50 * complete_views E (output_key keys) ps"
  shows "\<exists>s1 row1 names z. watch_execution c eid keys now life s (map fst ps @ [p]) = Finished s1
    \<and> listdir w dir1 = Inr names
    \<and> zip_directory_to_bytes (with_file (w_host w) out ''result.txt'' (text_bytes (result_text w (sort names)))) out = Inr z
    \<and> executions (ds_db s1) u = Some row1 \<and> e_status row1 = STATUS_SUCCEEDED
    \<and> e_output_path row1 = out_path (cfg_media c) eid \<and> e_output_checksum row1 = sha256_bytes z
    \<and> ds_files s1 (out_path (cfg_media c) eid) = Some z
    \<and> set (key_values keys) \<subseteq> set (ds_deleted s1)
    \<and> prefix (listed u (ds_db s1)) (lines_of (entries_of (log_key keys) (take n E)))"
  using assms by (rule watch_of_worker)

section \<open>A worker and a watcher\<close>

text \<open>Entries as they are added, with ids of growing length; and the polls of a watcher that sees so much
  of a history each time.\<close>

definition stamp :: "(string \<times> fields) list \<Rightarrow> entry list" where
  "stamp xs = map (\<lambda>n. (fst (xs ! n), replicate (Suc n) (CHR ''1''), snd (xs ! n))) [0..<length xs]"

fun polling ::
    "entry list \<Rightarrow> (string \<Rightarrow> string) \<Rightarrow> config \<Rightarrow> string \<Rightarrow> stream_names \<Rightarrow> ds \<Rightarrow> watch \<Rightarrow> nat list \<Rightarrow> (watch_poll \<times> nat) list" where
  "polling E fresh c eid keys s w [] = []"
| "polling E fresh c eid keys s w (n # ns) =
     (let resp = xread_streams fresh 50 (w_last_ids w) (key_values keys) (take n E) in
      (\<lparr>wp_now = 0, wp_others = (\<lambda>s. s), wp_reply = Messages resp\<rparr>, n)
      # (case watch_messages c eid keys (flatten_reply resp) (s, w) of ((s1, w1), r) \<Rightarrow> polling E fresh c eid keys s1 w1 ns))"

lemma polling_reads: "reads_from E fresh c eid keys s w (polling E fresh c eid keys s w ns)"
  by (induction ns arbitrary: s w) (auto simp: Let_def split: prod.splits sum.splits)

lemma stamp_facts:
  "length (stamp xs) = length xs" "take n (stamp xs) = stamp (take n xs)"
  "map (\<lambda>e. (fst e, snd (snd e))) (stamp xs) = xs"
  "good_ids (entries_of k (stamp xs))"
  "map snd (entries_of k (stamp xs)) = map snd (filter (\<lambda>x. fst x = k) xs)"
proof -
  show "length (stamp xs) = length xs" "take n (stamp xs) = stamp (take n xs)"
    by (auto simp: stamp_def take_map intro!: nth_equalityI)
  show forget: "map (\<lambda>e. (fst e, snd (snd e))) (stamp xs) = xs"
    by (auto simp: stamp_def intro!: nth_equalityI)
  have "map (\<lambda>e. fst (snd e)) (stamp xs) = map (\<lambda>n. replicate (Suc n) (CHR ''1'')) [0..<length xs]"
    by (simp add: stamp_def)
  moreover have "inj_on (\<lambda>n. replicate (Suc n) (CHR ''1'')) {0..<length xs}" by (rule inj_onI) (metis Suc_inject length_replicate)
  ultimately have "distinct (map (\<lambda>e. fst (snd e)) (stamp xs))" by (simp only: distinct_map distinct_upt set_upt)
  then have "distinct (map (\<lambda>e. fst (snd e)) (filter (\<lambda>e. fst e = k) (stamp xs)))" by (rule distinct_map_filter)
  then show "good_ids (entries_of k (stamp xs))"
    by (auto simp: good_ids_def entries_of_def stamp_def comp_def)
  have "map snd (entries_of k (stamp xs)) = map snd (filter (\<lambda>x. fst x = k) (map (\<lambda>e. (fst e, snd (snd e))) (stamp xs)))"
    by (simp add: entries_of_def filter_map comp_def)
  then show "map snd (entries_of k (stamp xs)) = map snd (filter (\<lambda>x. fst x = k) xs)" by (simp only: forget)
qed

lemma entries_of_stamp_length: "length (entries_of k (stamp xs)) = length (filter (\<lambda>x. fst x = k) xs)"
  using stamp_facts(5) [of k xs] by (metis length_map)

lemma stamp_history:
  assumes "keys = stream_keys eid d"
  shows "history_of keys xs (stamp xs)"
proof -
  have "(k, f) \<in> set xs" if "(k, i, f) \<in> set (stamp xs)" for k i f
    using that stamp_facts(3) [of xs] by (force simp: stamp_def)
  with stamp_facts(4,5) show ?thesis by (auto simp: history_of_def)
qed

definition life_wenv :: wenv where
  "life_wenv = sample_wenv\<lparr>identity := Inr [''delegate_id'' \<mapsto> uuid_str 2, ''tenant_id'' \<mapsto> ''acme'']\<rparr>"

abbreviation life_keys :: stream_names where
  "life_keys \<equiv> stream_keys (uuid_str 1) (uuid_str 2)"

definition life_polls :: "entry list \<Rightarrow> nat \<Rightarrow> (watch_poll \<times> nat) list" where
  "life_polls E n = polling E (\<lambda>i. i) sample_config (uuid_str 1) life_keys logs_ds (watch_init life_keys) [n]"

definition life_last :: watch_poll where
  "life_last = \<lparr>wp_now = 0, wp_others = (\<lambda>s. s), wp_reply = Messages []\<rparr>"

lemma life_worker:
  obtains k1 k2 earlier m f where
    "prepare_execution life_wenv ''task'' ''dir'' [uuid_str 1, ''*''] Map.empty wk_init = Some (k1, Inr ())"
    "wk_prepared k1 ''task'' = Some ''dir''"
    "execute_task life_wenv ''task'' ''x'' ''out'' (uuid_str 1) k1 = (k2, Inr ())"
    "length (filter (\<lambda>x. fst x = output_key life_keys) (wk_sent k2)) = 2"
    "wk_sent k2 = earlier @ [(log_key life_keys, m), (status_key life_keys, f)]" "m ''type'' = Some ''LOG''"
proof -
  have env: "\<forall>n. redis_up life_wenv n" "listdir life_wenv ''dir'' = Inr []" "w_host life_wenv = sample_host" "mirror life_wenv = Inr ()"
    "identity life_wenv = Inr [''delegate_id'' \<mapsto> uuid_str 2, ''tenant_id'' \<mapsto> ''acme'']" "TRANSFER_MAX_RETRIES life_wenv = 2"
    by (simp_all add: life_wenv_def) (simp_all add: sample_wenv_def)
  have idn: "[''delegate_id'' \<mapsto> uuid_str 2, ''tenant_id'' \<mapsto> ''acme''] ''delegate_id'' = Some (uuid_str 2)"
    "[''delegate_id'' \<mapsto> uuid_str 2, ''tenant_id'' \<mapsto> ''acme''] ''tenant_id'' = Some ''acme''" by simp_all
  have attempt: "attempt life_wenv n i = Some (Inr ([], ''1-1'', Some ''t''))" for n i
    using sample_attempt [of n i] by (simp add: attempt_def life_wenv_def)
  have eid: "uuid_str 1 \<noteq> []" using uuid_str_hd_last(1) [of 1] by blast
  obtain k1 where prep: "prepare_execution life_wenv ''task'' ''dir'' [uuid_str 1, ''*''] Map.empty wk_init = Some (k1, Inr ())"
    "wk_prepared k1 ''task'' = Some ''dir''"
    using env eid by (simp add: worker_run attempt field_req_def)
  obtain k2 where task: "execute_task life_wenv ''task'' ''x'' ''out'' (uuid_str 1) k1 = (k2, Inr ())"
    using task_returns [OF env(1,2) _ env(5) idn prep(2), of "''out''" "''x''" "uuid_str 1"] sample_zip by (auto simp: env(3))
  have "wk_prepared wk_init ''task'' = None" by (simp add: wk_init_def)
  from worker_writes [OF env(5) idn refl prep(1) this prep(2) task refl] obtain earlier m f where
    out: "map snd (filter (\<lambda>x. fst x = output_key life_keys) (wk_sent k2)) = fst (send_bytes CHUNK_SIZE ''x'' [] (base_fields (uuid_str 1) ''acme'' (uuid_str 2)))"
    and new: "wk_sent k2 = earlier @ [(log_key life_keys, m), (status_key life_keys, f)]" "m ''type'' = Some ''LOG''"
    by (auto simp: wk_init_def env(3) sample_zip)
  have "length (fst (send_bytes CHUNK_SIZE ''x'' [] base)) = 2" for base
    by (simp add: send_bytes_def Let_def py_range_def CHUNK_SIZE_def)
  with out have "length (filter (\<lambda>x. fst x = output_key life_keys) (wk_sent k2)) = 2" by (metis length_map)
  with prep task new that show ?thesis by blast
qed

text \<open>The watcher looks once, when the first \<open>n\<close> entries are there, all of the output among them.\<close>

lemma life_views:
  assumes "E = stamp written" and "length (filter (\<lambda>x. fst x = output_key life_keys) (take n written)) = 2"
    and "length (filter (\<lambda>x. fst x = output_key life_keys) written) = 2"
  shows "\<forall>(q, m) \<in> set (life_polls E n @ [(life_last, n)]). wp_now q < 0 + 600 \<and> undisturbed 1 p q \<and> m \<le> n"
    and "reads_from E (\<lambda>i. i) sample_config (uuid_str 1) life_keys logs_ds (watch_init life_keys) (life_polls E n)"
    and "length (entries_of (output_key life_keys) E) \<le> 50 * complete_views E (output_key life_keys) (life_polls E n)"
proof -
  have "length (entries_of (output_key life_keys) (take n E)) = length (entries_of (output_key life_keys) E)"
    using assms by (simp add: stamp_facts(2) entries_of_stamp_length)
  then have "entries_of (output_key life_keys) (take n E) = entries_of (output_key life_keys) E"
    using entries_of_take [of "output_key life_keys" n E] by simp
  then have "complete_views E (output_key life_keys) (life_polls E n) = 1"
    by (simp add: complete_views_def life_polls_def Let_def split: prod.splits)
  then show "length (entries_of (output_key life_keys) E) \<le> 50 * complete_views E (output_key life_keys) (life_polls E n)"
    using assms(1,3) by (simp add: entries_of_stamp_length)
  show "reads_from E (\<lambda>i. i) sample_config (uuid_str 1) life_keys logs_ds (watch_init life_keys) (life_polls E n)"
    unfolding life_polls_def by (rule polling_reads)
  show "\<forall>(q, m) \<in> set (life_polls E n @ [(life_last, n)]). wp_now q < 0 + 600 \<and> undisturbed 1 p q \<and> m \<le> n"
    by (auto simp: life_polls_def life_last_def undisturbed_def Let_def split: prod.splits)
qed

lemma life_state:
  "executions (ds_db logs_ds) 1 = Some sample_execution" "e_status sample_execution \<notin> TERMINAL_STATUSES"
  "\<forall>l \<in> set (logs (ds_db logs_ds)). l_execution l \<noteq> 1"
  "workspace_zip (cfg_host sample_config) (py_join (cfg_fixtures sample_config) (e_workspace_fixture sample_execution)) ''*'' = Inr (Some [])"
  using logs_ds_facts by (simp_all add: sample_execution_def TERMINAL_STATUSES_def sample_config_def workspace_zip_def
      zip_directory_to_bytes_def sample_host_def)

lemma execution_completes_witness:
  "\<exists>k2 s1 row1. execute_task life_wenv ''task'' ''x'' ''out'' (uuid_str 1)
       (fst (the (prepare_execution life_wenv ''task'' ''dir'' [uuid_str 1, ''*''] Map.empty wk_init))) = (k2, Inr ())
     \<and> watch_execution sample_config (uuid_str 1) life_keys 0 600 logs_ds
         (map fst (life_polls (stamp (wk_sent k2)) (length (wk_sent k2))) @ [life_last]) = Finished s1
     \<and> executions (ds_db s1) 1 = Some row1 \<and> e_status row1 = STATUS_SUCCEEDED"
proof -
  obtain k1 k2 earlier m f where run:
    "prepare_execution life_wenv ''task'' ''dir'' [uuid_str 1, ''*''] Map.empty wk_init = Some (k1, Inr ())"
    "wk_prepared k1 ''task'' = Some ''dir''" "execute_task life_wenv ''task'' ''x'' ''out'' (uuid_str 1) k1 = (k2, Inr ())"
    "length (filter (\<lambda>x. fst x = output_key life_keys) (wk_sent k2)) = 2"
    "wk_sent k2 = earlier @ [(log_key life_keys, m), (status_key life_keys, f)]" "m ''type'' = Some ''LOG''"
    by (rule life_worker)
  have idn: "identity life_wenv = Inr [''delegate_id'' \<mapsto> uuid_str 2, ''tenant_id'' \<mapsto> ''acme'']" by (simp add: life_wenv_def)
  have none: "wk_prepared wk_init ''task'' = None" "drop (length (wk_sent wk_init)) (wk_sent k2) = wk_sent k2" by (simp_all add: wk_init_def)
  have hist: "history_of life_keys (drop (length (wk_sent wk_init)) (wk_sent k2)) (stamp (wk_sent k2))"
    unfolding none(2) by (rule stamp_history [OF refl])
  note views = life_views [OF refl _ run(4), of "length (wk_sent k2)"]
  from execution_completes [OF idn _ _ to_uuid_str refl run(1) none(1) run(2,3) hist to_uuid_str life_state views]
    run(1,3,4) show ?thesis by auto
qed

text \<open>C35: The last line can be lost. The task logs a line after its output, and the watcher looks for the last time
  when the output has been written and that line has not: in this run the execution is
  SUCCEEDED and its streams are deleted, while the watcher has stored fewer lines than the
  worker logged.\<close>

theorem last_line_lost:
  "\<exists>k1 k2 n s1 row1.
     prepare_execution life_wenv ''task'' ''dir'' [uuid_str 1, ''*''] Map.empty wk_init = Some (k1, Inr ())
     \<and> execute_task life_wenv ''task'' ''x'' ''out'' (uuid_str 1) k1 = (k2, Inr ())
     \<and> reads_from (stamp (wk_sent k2)) (\<lambda>i. i) sample_config (uuid_str 1) life_keys logs_ds (watch_init life_keys)
          (life_polls (stamp (wk_sent k2)) n)
     \<and> watch_execution sample_config (uuid_str 1) life_keys 0 600 logs_ds
          (map fst (life_polls (stamp (wk_sent k2)) n) @ [life_last]) = Finished s1
     \<and> executions (ds_db s1) 1 = Some row1 \<and> e_status row1 = STATUS_SUCCEEDED
     \<and> set (key_values life_keys) \<subseteq> set (ds_deleted s1)
     \<and> length (listed 1 (ds_db s1)) < length (lines_of (entries_of (log_key life_keys) (stamp (wk_sent k2))))"
proof -
  obtain k1 k2 earlier m f where run:
    "prepare_execution life_wenv ''task'' ''dir'' [uuid_str 1, ''*''] Map.empty wk_init = Some (k1, Inr ())"
    "wk_prepared k1 ''task'' = Some ''dir''" "execute_task life_wenv ''task'' ''x'' ''out'' (uuid_str 1) k1 = (k2, Inr ())"
    "length (filter (\<lambda>x. fst x = output_key life_keys) (wk_sent k2)) = 2"
    "wk_sent k2 = earlier @ [(log_key life_keys, m), (status_key life_keys, f)]" "m ''type'' = Some ''LOG''"
    by (rule life_worker)
  let ?n = "length earlier" and ?E = "stamp (wk_sent k2)" and ?log = "log_key life_keys"
  have neq: "log_key life_keys \<noteq> output_key life_keys" "status_key life_keys \<noteq> output_key life_keys" "status_key life_keys \<noteq> log_key life_keys"
    using key_values_distinct [of "uuid_str 1" "uuid_str 2"] by (auto simp: key_values_def)
  have seen: "length (filter (\<lambda>x. fst x = output_key life_keys) (take ?n (wk_sent k2))) = 2"
    using run(4) neq by (simp add: run(5))
  have idn: "identity life_wenv = Inr [''delegate_id'' \<mapsto> uuid_str 2, ''tenant_id'' \<mapsto> ''acme'']" by (simp add: life_wenv_def)
  have none: "wk_prepared wk_init ''task'' = None" "drop (length (wk_sent wk_init)) (wk_sent k2) = wk_sent k2" by (simp_all add: wk_init_def)
  have hist: "history_of life_keys (drop (length (wk_sent wk_init)) (wk_sent k2)) ?E"
    unfolding none(2) by (rule stamp_history [OF refl])
  note views = life_views [OF refl seen run(4)]
  obtain s1 row1 where s1: "watch_execution sample_config (uuid_str 1) life_keys 0 600 logs_ds (map fst (life_polls ?E ?n) @ [life_last]) = Finished s1"
    "executions (ds_db s1) 1 = Some row1" "e_status row1 = STATUS_SUCCEEDED" "set (key_values life_keys) \<subseteq> set (ds_deleted s1)"
    "prefix (listed 1 (ds_db s1)) (lines_of (entries_of ?log (take ?n ?E)))"
    using watch_of_worker [OF idn _ _ to_uuid_str refl run(1) none(1) run(2,3) hist to_uuid_str life_state views] by auto
  have lines: "length (lines_of es) = length (filter (\<lambda>f. f ''type'' = Some ''LOG'') (map snd es))" for es
    by (simp add: lines_of_def filter_map comp_def)
  have "length (listed 1 (ds_db s1)) \<le> length (lines_of (entries_of ?log (take ?n ?E)))"
    using s1(5) by (rule prefix_length_le)
  also have "\<dots> < length (lines_of (entries_of ?log ?E))"
    using neq run(6) by (simp add: lines stamp_facts(2,5) run(5))
  finally show ?thesis using run s1 views(2) by blast
qed

end
