(* ===== verification/Spec2Isabelle.thy ===== *)
theory Spec2Isabelle
  imports EndToEnd Deployment Recovery ScriptFacts Logs Timeline
begin

text \<open>
  A verification of the delegate system: a control plane (a Django application with two
  background processes) that sends work to delegates of its tenants, and the delegates'
  workers, over Redis streams and Celery, with mutual TLS and Redis ACLs between them.

  \<^bold>\<open>The parts and how they interact.\<close> A worker registers over HTTP with a one-time token and a
  certificate request, and gets a certificate and a Redis ACL user confined to its own keys.
  An execution created over HTTP becomes a Celery task below that delegate's key prefix. The
  worker announces it on a global stream; the dispatcher starts a watcher on the execution's
  four streams; the worker asks for its workspace, gets it in chunks, runs the task, and sends
  logs, status and output back. An operator restarts a delegate through the restart gateway,
  to which the delegate's agent manager keeps a websocket.

  \<^bold>\<open>Which theory models which part\<close> (files under \<open>src/\<close>):

  \<^item> Prelude, PyText, Json, Base64, Sha256, PosixPath: what the code uses of Python and its
    library: errors as values (\<open>result\<close>, \<open>ebind\<close>), exceptions (\<open>exn\<close>), \<open>int()\<close>, \<open>str\<close>,
    \<open>uuid.UUID\<close>, decoded JSON, Base64, SHA-256 and \<open>os.path\<close>, all executable. Prelude also has the
    locale \<open>invariant_of\<close>, a step relation with a predicate it keeps, which Gateway, System,
    AclFacts and Schema interpret for their invariants.
  \<^item> Streams, Chunked, Receiver, Clients: \<open>shared/delegate_protocol\<close> (\<open>stream_keys\<close>,
    \<open>ChunkSender.send_bytes\<close>, \<open>ChunkReceiver.receive_once\<close>, \<open>get_redis\<close>) and
    \<open>control_plane/delegates/celery_client.py\<close>. Chunked also holds the reference machine of
    one transfer and the locale \<open>chunk_sink\<close>, the contract of anything that consumes a
    transfer; the worker's receiver and the dispatcher's output handler both interpret it.
  \<^item> Models, RedisAcl, Ca: \<open>models.py\<close> (five tables as one record \<open>db\<close>), \<open>redis_acl.py\<close>,
    \<open>ca.py\<close> and \<open>init_ca.py\<close>.
  \<^item> Views, ViewFacts, Routes: \<open>views.py\<close>, one definition per handler on the state \<open>cp\<close>, and the
    two \<open>urls.py\<close>, which make them one function \<open>serve\<close>.
  \<^item> Dispatcher, DispatcherFacts, RequestFacts, WatchFacts: \<open>stream_dispatcher.py\<close>: the
    handlers of the four streams, the watcher, the main loop, ACL reconciliation.
  \<^item> Gateway, AgentManager: \<open>restart_gateway.py\<close> as an interleaving of handlers, one step per
    stretch between two awaits, and \<open>agent_manager/agent_manager.py\<close>.
  \<^item> Worker, WorkerFacts, PrepareFacts: \<open>worker/worker_app/tasks.py\<close> and \<open>executor.py\<close>, with
    every XADD able to fail.
  \<^item> Registration, RegistrationFacts: \<open>registration.py\<close>, \<open>entrypoint.py\<close>, \<open>celery_app.py\<close>; what is
    written is a list of file operations, so that a crash is a prefix of it.
  \<^item> Deployment: the constants of \<open>settings.py\<close> that come from the environment, and the TLS
    contexts of gateway and agent.
  \<^item> Lifecycle, System, AclFacts, Runs: the abstract machine of tokens and delegates, with the
    locale \<open>registry\<close>; the control plane as a step relation over its parts, which interprets it;
    invariants of whole runs; concrete runs.
  \<^item> Schema: the classes of \<open>models.py\<close> with all their columns and the operations of
    \<open>migrations/0001_initial.py\<close>, both as data, and how the record \<open>db\<close> fits their tables.
  \<^item> EndToEnd, Logs, Recovery: both sides together, onboarding, workspace, output, execution,
    restart; the log lines of a run; a worker killed in a transfer that starts over.
  \<^item> Timeline: the streams as a history that worker and dispatcher write and XREAD shows in parts;
    a whole run of a worker against a whole run of its watcher.
  \<^item> Scripts, ScriptFacts: the five demonstration scripts of \<open>scripts/\<close> and
    \<open>fixtures/make_large_workspace.py\<close>, each a function from the answers it gets to the verdict
    it reports.

  \<^bold>\<open>State and effects.\<close> State is passed explicitly in records (\<open>db\<close>, \<open>cp\<close>, \<open>ds\<close>, \<open>watch\<close>, \<open>main\<close>,
  \<open>gw\<close>, \<open>wk\<close>, \<open>disk\<close>, \<open>am\<close>). A handler returns the new state with \<open>Inr\<close> of its result or \<open>Inl\<close> of
  the exception that escapes it, and what it did before the exception stays done. Clock
  readings, random values and the answers of outside systems are arguments.

  \<^bold>\<open>What the lemmas show.\<close>

  \<^item> The transfer protocol: what is sent is what is received, with chunks repeated and mixed
    with others; shape and bounds of the messages; nothing unvalidated is accepted; the two
    receivers agree on every message.
  \<^item> Isolation: a delegate's ACL rules let it touch only its own keys, and are wide enough for
    all its worker does; a data request is served only to the assigned, active delegate of
    the tenant, from the workspace directory; announcements cannot make the dispatcher
    read streams other than those of the database.
  \<^item> Lifecycle: the control plane refines the abstract machine; tokens are used once,
    revocation is for good, active delegates always have their ACL user, SUCCEEDED means
    stored.
  \<^item> The database: the migration leaves the tables of the models; in every reachable state every
    row fits its table, references and tenants agree, and counters are bounded by the steps.
  \<^item> Completion: a task that returns leads to an execution that is SUCCEEDED, stored and cleaned
    up, however the watcher's reads fall in time.
  \<^item> Ordering and recovery: log lines are listed in the order they were sent; a transfer cut
    short, or several, do not disturb the one that completes.
  \<^item> The scripts: a PASS means what it says of the system; the checks they make on ACLs,
    revocation and forged announcements hold in the model.
  \<^item> Ends of loops: watchers, receivers, retries, preparation and registration end, under
    stated conditions on the clock; the agent carries out restarts.
  \<^item> TLS: who can connect to the gateway, and under which name.
  \<^item> What goes wrong: a malformed announcement, a registration left half done, a race on a
    token, a lost execution, a workspace outside the fixtures, a torn or stale identity file,
    silent failures of the preparation, an ACL user lost to a reconciliation, a watcher killed
    by a malformed request, a revoked delegate that stays connected, log lines
    stored twice after a restart of the dispatcher, or lost after the end of the output.

  \<^bold>\<open>Bounds and fuel.\<close> A loop that polls takes the list of what its polls give, so its recursion is
  structural; a result that says it is still waiting means that the list is over. Theorems
  that a loop ends say which list suffices: one poll whose clock is past the deadline. The
  retry loop of the worker recurses on the attempts left. Nothing else needs fuel.

  \<^bold>\<open>Parameters\<close>, code that is not in the repository: the JSON codec, the ZIP codec and the file
  system (\<open>host\<close>), \<open>cryptography\<close> (\<open>crypto\<close>; keys and signatures are symbolic), the Redis ACL
  server (\<open>acl_server\<close> with \<open>acl_laws\<close>), the replies of XREAD (\<open>reads_from\<close>), how Redis
  reads key patterns (\<open>glob_law\<close>, \<open>grant_law\<close>), the broker, Docker and HTTP. Every law used is a
  hypothesis where it is used, and the witnesses instantiate it.

  \<^bold>\<open>Not modelled\<close>: the Django admin, WSGI and static configuration, which are declarations
  without logic of their own; printing of progress lines; the opening of sockets and threads;
  the sample workspaces, which are files to be packed; of the scripts, the making of keys and
  certificates and the TLS options of their clients. The lengths of text columns are in
  Schema but nothing enforces them, as SQLite does not.

  Handlers of the API and a reconciliation are single steps of \<open>System\<close>. In the code another
  request may come between a check and what is done on it; where this breaks what the
  invariants say, it is stated: the check and use of a token (\<open>token_race\<close>), and the ids a
  reconciliation has read (\<open>reconcile_race\<close>). In the same way an execution may be created for a
  delegate revoked a moment ago; its data requests are still refused. \<open>float()\<close> of the
  receiver's time-out is taken as a number of milliseconds.
\<close>

end
